(* ===== verification/Go_Prelude.thy ===== *)
theory Go_Prelude
  imports Main "HOL-Library.Word" "HOL-Library.Sublist"
begin

text \<open>
  What every component shares: the vocabulary of Go values (errors, calls that may panic,
  C integers), the rule collections the component proofs are driven by, a small interface for
  transition systems with invariants, and generic facts on lists.
\<close>

section \<open>Values of the language\<close>

text \<open>
  A Go string and a Go \<open>[]byte\<close> are both byte sequences; HOL's \<^typ>\<open>char\<close> is a byte, so both
  are \<^typ>\<open>char list\<close>. An \<open>error\<close> carries a text and the class that \<open>os.IsPermission\<close> and
  \<open>errors.Is(err, os.ErrNotExist)\<close> look at; a nil error is \<open>None\<close>.
\<close>

type_synonym bytes = "char list"
type_synonym u64 = "64 word"
type_synonym u32 = "32 word"
type_synonym handle = nat \<comment> \<open>an opaque object of a library\<close>
type_synonym cptr = "nat option" \<comment> \<open>an \<open>unsafe.Pointer\<close>, nil is \<open>None\<close>\<close>

datatype ekind = KNotExist | KPermission | KOther

record goerror =
  ekind :: ekind
  etext :: string

definition Errorf :: "string \<Rightarrow> goerror" where
  "Errorf msg = \<lparr>ekind = KOther, etext = msg\<rparr>"

text \<open>A call returns a value or panics; a panic that nobody recovers ends the process.\<close>

datatype 'a outcome = Ret 'a | Panic string

fun bind_outcome :: "'a outcome \<Rightarrow> ('a \<Rightarrow> 'b outcome) \<Rightarrow> 'b outcome" where
  "bind_outcome (Ret a) f = f a"
| "bind_outcome (Panic m) f = Panic m"

fun is_panic :: "'a outcome \<Rightarrow> bool" where
  "is_panic (Ret a) = False"
| "is_panic (Panic m) = True"

fun is_error :: "'e + 'a \<Rightarrow> bool" where
  "is_error (Inl e) = True"
| "is_error (Inr a) = False"

lemma bind_outcome_Ret_iff [simp]:
  "bind_outcome m f = Ret b \<longleftrightarrow> (\<exists>a. m = Ret a \<and> f a = Ret b)"
  by (cases m) auto

lemma bind_outcome_Panic_iff:
  "bind_outcome m f = Panic e \<longleftrightarrow> m = Panic e \<or> (\<exists>a. m = Ret a \<and> f a = Panic e)"
  by (cases m) auto

lemma is_panic_iff: "is_panic m \<longleftrightarrow> (\<exists>e. m = Panic e)"
  by (cases m) auto

lemma ekind_Errorf [simp]: "ekind (Errorf m) = KOther"
  by (simp add: Errorf_def)

lemma etext_Errorf [simp]: "etext (Errorf m) = m"
  by (simp add: Errorf_def)

section \<open>Rule collections\<close>

named_theorems go_defs \<open>definitions of operations that proofs unfold together\<close>
named_theorems frame_simps \<open>what an operation leaves as it was\<close>

section \<open>Transition systems with an invariant\<close>

text \<open>
  The contract the step relations of the development are put under: an initial state, a labelled
  step, and an invariant that holds at the start and is kept by every step.
\<close>

locale inv_system =
  fixes start :: "'s \<Rightarrow> bool"
    and step :: "'s \<Rightarrow> 'e \<Rightarrow> 's \<Rightarrow> bool"
    and inv :: "'s \<Rightarrow> bool"
  assumes inv_start: "start s \<Longrightarrow> inv s"
    and inv_step: "step s e t \<Longrightarrow> inv s \<Longrightarrow> inv t"
begin

inductive run :: "'s \<Rightarrow> 'e list \<Rightarrow> 's \<Rightarrow> bool" where
  run_nil: "run s [] s"
| run_cons: "step s e t \<Longrightarrow> run t es u \<Longrightarrow> run s (e # es) u"

lemma run_inv: "run s es t \<Longrightarrow> inv s \<Longrightarrow> inv t"
  by (induction rule: run.induct) (auto intro: inv_step)

lemma run_from_start: "start s \<Longrightarrow> run s es t \<Longrightarrow> inv t"
  by (blast intro: run_inv inv_start)

lemma run_append: "run s xs t \<Longrightarrow> run t ys u \<Longrightarrow> run s (xs @ ys) u"
  by (induction rule: run.induct) (auto intro: run.intros)

lemma run_snoc: "run s xs t \<Longrightarrow> step t e u \<Longrightarrow> run s (xs @ [e]) u"
  by (blast intro: run_append run.intros)

end

section \<open>Lists\<close>

lemma not_sublist_Cons:
  "\<not> sublist xs (y # ys) \<Longrightarrow> \<not> sublist xs ys"
  by (auto simp: sublist_Cons_right)

lemma prefix_char_cases:
  "prefix xs (y # ys) \<longleftrightarrow> xs = [] \<or> (\<exists>zs. xs = y # zs \<and> prefix zs ys)"
  by (cases xs) auto

lemma nth_map_upt_length [simp]:
  "i < length xs \<Longrightarrow> map f [0..<length xs] ! i = f i"
  by simp

end
