(* ===== verification/Go_Strings.thy ===== *)
theory Go_Strings
  imports Go_Prelude
begin

text \<open>
  The string routines of the standard library that the code calls: \<open>strings.Replace\<close> with a
  count of -1, \<open>strconv.FormatInt\<close> in base 10, and the splitting and joining at a separator that
  \<open>path/filepath\<close> does. Strings are byte sequences.
\<close>

section \<open>Splitting and joining\<close>

fun split_on :: "char \<Rightarrow> string \<Rightarrow> string list" where
  "split_on c [] = [[]]"
| "split_on c (x # xs) =
     (if x = c then [] # split_on c xs
      else (case split_on c xs of [] \<Rightarrow> [[x]] | y # ys \<Rightarrow> (x # y) # ys))"

fun join_with :: "char \<Rightarrow> string list \<Rightarrow> string" where
  "join_with c [] = []"
| "join_with c [x] = x"
| "join_with c (x # y # ys) = x @ c # join_with c (y # ys)"

lemma split_on_ne [simp]: "split_on c s \<noteq> []"
  by (induction s) (auto split: list.splits)

lemma split_on_no_sep [simp]: "c \<notin> set s \<Longrightarrow> split_on c s = [s]"
  by (induction s) auto

lemma split_on_append_sep:
  "c \<notin> set s \<Longrightarrow> split_on c (s @ c # t) = s # split_on c t"
  by (induction s) auto

lemma split_on_elems: "e \<in> set (split_on c s) \<Longrightarrow> c \<notin> set e"
proof (induction s arbitrary: e)
  case Nil
  then show ?case by simp
next
  case (Cons x xs)
  then show ?case
    by (cases "split_on c xs") (auto split: if_splits)
qed

lemma split_on_ball: "\<forall>e \<in> set (split_on c s). c \<notin> set e"
  by (blast dest: split_on_elems)

lemma split_join:
  "es \<noteq> [] \<Longrightarrow> \<forall>e \<in> set es. c \<notin> set e \<Longrightarrow> split_on c (join_with c es) = es"
  by (induction c es rule: join_with.induct) (auto simp: split_on_append_sep)

lemma join_split: "join_with c (split_on c s) = s"
proof (induction s)
  case (Cons x xs)
  obtain y ys where "split_on c xs = y # ys"
    by (cases "split_on c xs") auto
  with Cons show ?case by (cases ys) auto
qed simp

lemma split_on_append:
  "split_on c (s @ c # t) = split_on c s @ split_on c t"
proof (induction s)
  case (Cons x xs)
  then show ?case by (auto split: list.splits simp: append_eq_Cons_conv)
qed simp

lemma join_with_eq_Nil_iff:
  "join_with c es = [] \<longleftrightarrow> es = [] \<or> es = [[]]"
  by (cases "(c, es)" rule: join_with.cases) auto

lemma hd_join_with:
  "es \<noteq> [] \<Longrightarrow> hd es \<noteq> [] \<Longrightarrow> hd (join_with c es) = hd (hd es)"
  by (cases "(c, es)" rule: join_with.cases) auto

lemma join_with_snoc:
  "es \<noteq> [] \<Longrightarrow> join_with c (es @ [e]) = join_with c es @ c # e"
  by (induction c es rule: join_with.induct) auto

section \<open>strconv.FormatInt\<close>

definition digit_char :: "int \<Rightarrow> char" where
  "digit_char d = char_of (48 + d)"

function decimal :: "int \<Rightarrow> string" where
  "decimal n = (if n < 10 then [digit_char n] else decimal (n div 10) @ [digit_char (n mod 10)])"
  by pat_completeness auto
termination
  by (relation "measure nat") auto

declare decimal.simps [simp del]

definition FormatInt10 :: "int \<Rightarrow> string" where
  "FormatInt10 i = (if i < 0 then CHR ''-'' # decimal (- i) else decimal i)"

lemma decimal_ne [simp]: "decimal n \<noteq> []"
  by (subst decimal.simps) simp

lemma digit_char_not_slash: "0 \<le> d \<Longrightarrow> d < 10 \<Longrightarrow> digit_char d \<noteq> CHR ''/''"
proof
  assume "0 \<le> d" and "d < 10" and "digit_char d = CHR ''/''"
  then have "of_char (digit_char d) = (of_char (CHR ''/'') :: int)" by simp
  with \<open>0 \<le> d\<close> \<open>d < 10\<close> show False by (simp add: digit_char_def)
qed

lemma decimal_no_slash: "0 \<le> n \<Longrightarrow> CHR ''/'' \<notin> set (decimal n)"
proof (induction n rule: decimal.induct)
  case (1 n)
  then show ?case
    using digit_char_not_slash [of n] digit_char_not_slash [of "n mod 10"]
    by (subst decimal.simps) (auto simp: eq_commute [of "CHR ''/''"])
qed

lemma FormatInt10_no_slash [simp]: "CHR ''/'' \<notin> set (FormatInt10 i)"
  by (simp add: FormatInt10_def decimal_no_slash)

lemma FormatInt10_ne [simp]: "FormatInt10 i \<noteq> []"
  by (simp add: FormatInt10_def)

section \<open>strings.Replace\<close>

text \<open>
  \<open>strings.Replace(s, old, new, -1)\<close> scans from the left and replaces every non-overlapping
  occurrence. An empty \<open>old\<close> matches before every character and at the end.
\<close>

function replace_all :: "string \<Rightarrow> string \<Rightarrow> string \<Rightarrow> string" where
  "replace_all old new s =
     (if old = [] then concat (map (\<lambda>c. new @ [c]) s) @ new
      else case s of
        [] \<Rightarrow> []
      | c # cs \<Rightarrow> (if prefix old s then new @ replace_all old new (drop (length old) s)
                  else c # replace_all old new cs))"
  by pat_completeness auto
termination
  by (relation "measure (\<lambda>(old, new, s). length s)") auto

declare replace_all.simps [simp del]

lemma replace_all_Nil: "old \<noteq> [] \<Longrightarrow> replace_all old new [] = []"
  by (subst replace_all.simps) simp

lemma replace_all_hit:
  "old \<noteq> [] \<Longrightarrow> replace_all old new (old @ s) = new @ replace_all old new s"
  by (subst replace_all.simps) (cases old; auto)

lemma replace_all_miss:
  "\<not> prefix old (c # s) \<Longrightarrow> replace_all old new (c # s) = c # replace_all old new s"
  by (subst replace_all.simps) auto

lemma replace_all_absent:
  "old \<noteq> [] \<Longrightarrow> \<not> sublist old s \<Longrightarrow> replace_all old new s = s"
  by (induction s)
     (auto simp: replace_all_Nil replace_all_miss sublist_Cons_right)

lemma replace_all_same: "replace_all old old s = s" if "old \<noteq> []"
  using that
proof (induction s rule: length_induct)
  case (1 s)
  show ?case
  proof (cases s)
    case (Cons c cs)
    show ?thesis
    proof (cases "prefix old s")
      case True
      then obtain t where t: "s = old @ t" by (auto simp: prefix_def)
      with 1 have "replace_all old old t = t" by simp
      with t 1 show ?thesis by (simp add: replace_all_hit)
    next
      case False
      with 1 Cons show ?thesis by (simp add: replace_all_miss)
    qed
  qed (use 1 in \<open>simp add: replace_all_Nil\<close>)
qed

end
