(* ===== verification/Go_Filepath.thy ===== *)
theory Go_Filepath
  imports Go_Strings
begin

text \<open>
  \<open>path/filepath\<close> on a system whose separator is a slash: \<open>Clean\<close> and \<open>Join\<close>, as the package
  documents them, and the way a cleaned path names a directory and an entry in it. On top of
  them, \<open>formRepoPath\<close> of \<open>ipfs_config.go\<close>, which every file the bindings keep in the repository
  is named with.
\<close>

section \<open>filepath.Clean\<close>

text \<open>
  \<open>Clean\<close> reads the path one element at a time and keeps the elements written so far, the last one
  first: empty elements and \<open>.\<close> are dropped, \<open>..\<close> removes the last element when it is a real one,
  is dropped at the root and is kept otherwise.
\<close>

definition is_rooted :: "string \<Rightarrow> bool" where
  "is_rooted p = (case p of [] \<Rightarrow> False | c # _ \<Rightarrow> c = CHR ''/'')"

fun clean_step :: "bool \<Rightarrow> string list \<Rightarrow> string \<Rightarrow> string list" where
  "clean_step rooted out e =
     (if e = '''' \<or> e = ''.'' then out
      else if e = ''..'' then
        (case out of
           [] \<Rightarrow> (if rooted then [] else [''..''])
         | x # xs \<Rightarrow> (if x = ''..'' then ''..'' # out else xs))
      else e # out)"

definition clean_elems :: "bool \<Rightarrow> string list \<Rightarrow> string list" where
  "clean_elems rooted es = rev (foldl (clean_step rooted) [] es)"

definition path_of :: "bool \<Rightarrow> string list \<Rightarrow> string" where
  "path_of rooted es =
     (if rooted then CHR ''/'' # join_with (CHR ''/'') es
      else if es = [] then ''.'' else join_with (CHR ''/'') es)"

definition Clean :: "string \<Rightarrow> string" where
  "Clean p = path_of (is_rooted p) (clean_elems (is_rooted p) (split_on (CHR ''/'') p))"

definition Join :: "string list \<Rightarrow> string" where
  "Join ps =
     (case filter (\<lambda>p. p \<noteq> []) ps of
        [] \<Rightarrow> []
      | qs \<Rightarrow> Clean (join_with (CHR ''/'') qs))"

text \<open>What \<open>Clean\<close> leaves: real names without a slash, after a run of \<open>..\<close> when not rooted.\<close>

definition plain_name :: "string \<Rightarrow> bool" where
  "plain_name e \<longleftrightarrow> e \<noteq> '''' \<and> e \<noteq> ''.'' \<and> e \<noteq> ''..'' \<and> CHR ''/'' \<notin> set e"

fun clean_stack :: "bool \<Rightarrow> string list \<Rightarrow> bool" where
  "clean_stack rooted [] = True"
| "clean_stack rooted (e # es) =
     (if e = ''..'' then \<not> rooted \<and> (\<forall>x \<in> set es. x = ''..'')
      else plain_name e \<and> clean_stack rooted es)"

lemma clean_stack_dotdots: "\<not> rooted \<Longrightarrow> \<forall>x \<in> set es. x = ''..'' \<Longrightarrow> clean_stack rooted es"
  by (induction es) auto

lemma clean_step_stack:
  "clean_stack rooted out \<Longrightarrow> CHR ''/'' \<notin> set e \<Longrightarrow> clean_stack rooted (clean_step rooted out e)"
  by (cases out) (auto simp: plain_name_def clean_stack_dotdots)

lemma clean_fold_stack:
  "clean_stack rooted out \<Longrightarrow> \<forall>e \<in> set es. CHR ''/'' \<notin> set e \<Longrightarrow>
   clean_stack rooted (foldl (clean_step rooted) out es)"
proof (induction es arbitrary: out)
  case (Cons e es)
  then have "clean_stack rooted (clean_step rooted out e)"
    by (intro clean_step_stack) auto
  with Cons show ?case by simp
qed simp

lemma clean_elems_stack:
  "\<forall>e \<in> set es. CHR ''/'' \<notin> set e \<Longrightarrow> clean_stack rooted (rev (clean_elems rooted es))"
  by (simp add: clean_elems_def clean_fold_stack)

text \<open>A clean stack is a fixed point of the fold: reading it again changes nothing.\<close>

lemma clean_step_dotdots:
  "\<not> rooted \<Longrightarrow> \<forall>x \<in> set out. x = ''..'' \<Longrightarrow> clean_step rooted out ''..'' = ''..'' # out"
  by (cases out) auto

lemma clean_step_plain: "plain_name e \<Longrightarrow> clean_step rooted out e = e # out"
  by (simp add: plain_name_def)

declare clean_step.simps [simp del]

lemma foldl_dotdots:
  "\<not> rooted \<Longrightarrow> \<forall>x \<in> set es. x = ''..'' \<Longrightarrow> foldl (clean_step rooted) [] (rev es) = es"
proof (induction es)
  case (Cons e es)
  then show ?case by (simp add: clean_step_dotdots)
qed simp

lemma foldl_clean_stack:
  "clean_stack rooted st \<Longrightarrow> foldl (clean_step rooted) [] (rev st) = st"
proof (induction st)
  case (Cons e st)
  show ?case
  proof (cases "e = ''..''")
    case True
    with Cons.prems show ?thesis
      by (simp add: foldl_dotdots clean_step_dotdots)
  next
    case False
    with Cons show ?thesis by (simp add: clean_step_plain)
  qed
qed simp

lemma clean_elems_idem:
  "\<forall>e \<in> set es. CHR ''/'' \<notin> set e \<Longrightarrow> clean_elems r (clean_elems r es) = clean_elems r es"
  using foldl_clean_stack [OF clean_elems_stack [of es r]]
  by (simp add: clean_elems_def)

lemma clean_stack_elem:
  "clean_stack r st \<Longrightarrow> e \<in> set st \<Longrightarrow> e = ''..'' \<or> plain_name e"
  by (induction st) (auto split: if_splits)

lemma clean_elems_elem:
  "\<forall>e \<in> set es. CHR ''/'' \<notin> set e \<Longrightarrow> e \<in> set (clean_elems r es) \<Longrightarrow> e = ''..'' \<or> plain_name e"
  using clean_stack_elem [OF clean_elems_stack, of es e r] by auto

lemma clean_elems_ok:
  assumes "\<forall>e \<in> set es. CHR ''/'' \<notin> set e" and "e \<in> set (clean_elems r es)"
  shows "e \<noteq> [] \<and> CHR ''/'' \<notin> set e"
  using clean_elems_elem [OF assms] by (auto simp: plain_name_def)

lemma clean_path_ok:
  "\<forall>e \<in> set (clean_elems r (split_on (CHR ''/'') p)). e \<noteq> [] \<and> CHR ''/'' \<notin> set e"
  using clean_elems_ok [OF split_on_ball] by blast

text \<open>A printed path is read back as the elements it was printed from.\<close>

lemma is_rooted_join:
  assumes "es \<noteq> []" and "\<forall>e \<in> set es. e \<noteq> [] \<and> CHR ''/'' \<notin> set e"
  shows "\<not> is_rooted (join_with (CHR ''/'') es)"
proof -
  have ne: "join_with (CHR ''/'') es \<noteq> []"
    using assms by (auto simp: join_with_eq_Nil_iff)
  have "hd (join_with (CHR ''/'') es) = hd (hd es)"
    using assms by (intro hd_join_with) auto
  moreover have "hd (hd es) \<noteq> CHR ''/''"
    using assms by (metis hd_in_set)
  ultimately show ?thesis
    using ne by (cases "join_with (CHR ''/'') es") (auto simp: is_rooted_def)
qed

lemma is_rooted_path_of:
  "\<forall>e \<in> set es. e \<noteq> [] \<and> CHR ''/'' \<notin> set e \<Longrightarrow> is_rooted (path_of r es) = r"
  using is_rooted_join [of es] by (cases "es = []") (auto simp: path_of_def is_rooted_def)

lemma clean_elems_empty_first [simp]:
  "clean_elems r ([] # es) = clean_elems r es"
  by (simp add: clean_elems_def clean_step.simps)

lemma clean_elems_split_path_of:
  assumes "\<forall>e \<in> set es. e \<noteq> [] \<and> CHR ''/'' \<notin> set e"
  shows "clean_elems r (split_on (CHR ''/'') (path_of r es)) = clean_elems r es"
proof (cases "es = []")
  case True
  then show ?thesis by (cases r) (simp_all add: path_of_def clean_elems_def clean_step.simps)
next
  case False
  with assms have "split_on (CHR ''/'') (join_with (CHR ''/'') es) = es"
    by (intro split_join) auto
  with False show ?thesis by (cases r) (simp_all add: path_of_def)
qed

text \<open>The interface the clients of the package rely on.\<close>

locale path_package =
  fixes clean :: "string \<Rightarrow> string"
    and join :: "string list \<Rightarrow> string"
  assumes clean_ne: "clean p \<noteq> []"
    and clean_idem: "clean (clean p) = clean p"
    and join_clean: "p \<noteq> [] \<Longrightarrow> f \<noteq> [] \<Longrightarrow> join [p, f] = clean (p @ CHR ''/'' # f)"
    and clean_absorb: "p \<noteq> [] \<Longrightarrow> clean (clean p @ CHR ''/'' # f) = clean (p @ CHR ''/'' # f)"
begin

lemma join_cleaned: "p \<noteq> [] \<Longrightarrow> f \<noteq> [] \<Longrightarrow> join [clean p, f] = join [p, f]"
  by (simp add: join_clean clean_ne clean_absorb)

lemma join_is_clean: "p \<noteq> [] \<Longrightarrow> f \<noteq> [] \<Longrightarrow> clean (join [p, f]) = join [p, f]"
  by (simp add: join_clean clean_idem)

end

lemma Clean_ne: "Clean p \<noteq> []"
  using clean_path_ok [of "is_rooted p" p]
  by (auto simp: Clean_def path_of_def join_with_eq_Nil_iff)

lemma Clean_idem: "Clean (Clean p) = Clean p"
  unfolding Clean_def is_rooted_path_of [OF clean_path_ok] clean_elems_split_path_of [OF clean_path_ok]
    clean_elems_idem [OF split_on_ball] ..

lemma clean_elems_append:
  assumes "\<forall>e \<in> set xs. CHR ''/'' \<notin> set e"
  shows "clean_elems r (clean_elems r xs @ ys) = clean_elems r (xs @ ys)"
  using foldl_clean_stack [OF clean_elems_stack [OF assms, of r]]
  by (simp add: clean_elems_def)

lemma split_on_slash_Cons:
  "split_on (CHR ''/'') (CHR ''/'' # s) = [] # split_on (CHR ''/'') s"
  by simp

lemma is_rooted_append: "p \<noteq> [] \<Longrightarrow> is_rooted (p @ q) = is_rooted p"
  by (cases p) (auto simp: is_rooted_def)

lemma Clean_absorb: "p \<noteq> [] \<Longrightarrow> Clean (Clean p @ CHR ''/'' # f) = Clean (p @ CHR ''/'' # f)"
proof -
  assume p: "p \<noteq> []"
  let ?r = "is_rooted p" and ?es = "split_on (CHR ''/'') p" and ?fs = "split_on (CHR ''/'') f"
  have root: "is_rooted (Clean p) = ?r"
    unfolding Clean_def by (rule is_rooted_path_of [OF clean_path_ok])
  have "clean_elems ?r (split_on (CHR ''/'') (Clean p) @ ?fs)
      = clean_elems ?r (clean_elems ?r (split_on (CHR ''/'') (Clean p)) @ ?fs)"
    by (rule clean_elems_append [OF split_on_ball, symmetric])
  also have "\<dots> = clean_elems ?r (clean_elems ?r (clean_elems ?r ?es) @ ?fs)"
    unfolding Clean_def clean_elems_split_path_of [OF clean_path_ok] ..
  also have "\<dots> = clean_elems ?r (?es @ ?fs)"
    unfolding clean_elems_idem [OF split_on_ball] by (rule clean_elems_append [OF split_on_ball])
  finally show ?thesis
    using p root Clean_ne
    by (simp add: Clean_def [of "_ @ _"] is_rooted_append split_on_append)
qed

interpretation fpath: path_package Clean Join
  by unfold_locales (simp_all add: Clean_ne Clean_idem Clean_absorb Join_def)

section \<open>Directories and entries\<close>

text \<open>The directory a cleaned path lies in.\<close>

definition parent_dir :: "string \<Rightarrow> string" where
  "parent_dir p =
     path_of (is_rooted p) (butlast (clean_elems (is_rooted p) (split_on (CHR ''/'') p)))"

lemma clean_elems_snoc_plain:
  "plain_name f \<Longrightarrow> clean_elems r (es @ [f]) = clean_elems r es @ [f]"
  by (simp add: clean_elems_def clean_step_plain)

lemma plain_split: "plain_name f \<Longrightarrow> split_on (CHR ''/'') f = [f]"
  by (simp add: plain_name_def)

lemma Clean_entry:
  assumes "p \<noteq> []" and "plain_name f"
  shows "Clean (p @ CHR ''/'' # f) =
    path_of (is_rooted p) (clean_elems (is_rooted p) (split_on (CHR ''/'') p) @ [f])"
  using assms by (simp add: Clean_def is_rooted_append split_on_append plain_split clean_elems_snoc_plain)

lemma parent_dir_entry:
  assumes "p \<noteq> []" and "plain_name f"
  shows "parent_dir (Clean (p @ CHR ''/'' # f)) = Clean p"
proof -
  let ?r = "is_rooted p" and ?cs = "clean_elems (is_rooted p) (split_on (CHR ''/'') p)"
  have ok: "\<forall>e \<in> set (?cs @ [f]). e \<noteq> [] \<and> CHR ''/'' \<notin> set e"
    using clean_path_ok [of ?r p] assms(2) by (auto simp: plain_name_def)
  have "clean_elems ?r (?cs @ [f]) = ?cs @ [f]"
    unfolding clean_elems_snoc_plain [OF assms(2)] clean_elems_idem [OF split_on_ball] ..
  with ok show ?thesis
    by (simp add: parent_dir_def Clean_entry assms is_rooted_path_of clean_elems_split_path_of)
       (simp add: Clean_def)
qed

section \<open>formRepoPath\<close>

definition formRepoPath :: "string \<Rightarrow> string \<Rightarrow> string" where
  "formRepoPath repoRoot fname = (let repoPath = Clean repoRoot in Join [repoPath, fname])"

lemma formRepoPath_eq:
  "fname \<noteq> [] \<Longrightarrow> formRepoPath repoRoot fname = Clean (Clean repoRoot @ CHR ''/'' # fname)"
  by (simp add: formRepoPath_def fpath.join_clean Clean_ne)

lemma parent_dir_formRepoPath:
  "plain_name fname \<Longrightarrow> parent_dir (formRepoPath repoRoot fname) = Clean repoRoot"
  using parent_dir_entry [of "Clean repoRoot" fname]
  by (simp add: formRepoPath_eq plain_name_def Clean_ne Clean_idem)

lemma Clean_formRepoPath [simp]:
  "fname \<noteq> [] \<Longrightarrow> Clean (formRepoPath repoRoot fname) = formRepoPath repoRoot fname"
  by (simp add: formRepoPath_eq Clean_idem)

end
