(* ===== verification/Asio_Config.thy ===== *)
theory Asio_Config
  imports Go_Filepath
begin

text \<open>
  \<open>ipfs_config.go\<close>: the settings the embedding program passes in (\<open>AsioConfig\<close>), the part of the
  go-ipfs configuration they are written to, \<open>replacePorts\<close>, \<open>updateConfig\<close> and \<open>makeBuildCfg\<close>.
  The multiaddress and peer libraries and the constants they export are parameters, collected in
  the record \<open>cfg_lib\<close>.
\<close>

section \<open>Data\<close>

record AsioConfig =
  LowWater :: int
  HighWater :: int
  GracePeriod :: string
  AutoRelay :: bool
  RelayHop :: bool
  Bootstrap :: "string list"
  Peering :: "string list"
  SwarmPort :: int
  APIAddress :: string
  GatewayAddress :: string
  DefaultProfile :: string
  StorageMax :: string
  AutoNAT :: bool
  AutoNATLimit :: int
  AutoNATPeerLimit :: int
  SwarmKey :: string
  RoutingType :: string
  RunGC :: bool

datatype Flag = FlagFalse | FlagDefault | FlagTrue
datatype AutoNATServiceMode = AutoNATServiceUnset | AutoNATServiceEnabled | AutoNATServiceDisabled

record AutoNATThrottleConfig =
  GlobalLimit :: int
  PeerLimit :: int

type_synonym addr_info = string \<comment> \<open>an opaque \<open>peer.AddrInfo\<close>\<close>

record maddr_comp =
  comp_code :: int
  comp_value :: string

text \<open>
  The fields of \<open>config.Config\<close> the bindings read or write, named by their path in the Go struct;
  \<open>Config_rest\<close> stands for all the fields they never touch.
\<close>

record Config =
  Swarm_ConnMgr_LowWater :: int
  Swarm_ConnMgr_HighWater :: int
  Swarm_ConnMgr_GracePeriod :: string
  Swarm_EnableAutoRelay :: bool
  Swarm_EnableRelayHop :: bool
  Swarm_Transports_Network_Relay :: Flag
  Routing_Type :: string
  Datastore_StorageMax :: string
  AutoNAT_ServiceMode :: AutoNATServiceMode
  AutoNAT_Throttle :: "AutoNATThrottleConfig option"
  Addresses_Swarm :: "string list"
  Addresses_API :: "string list"
  Addresses_Gateway :: "string list"
  Bootstrap_Peers :: "string list"
  Peering_Peers :: "addr_info list"
  Gateway_Writable :: bool
  Gateway_RootRedirect :: string
  Experimental_P2pHttpProxy :: bool
  Config_rest :: handle

record cfg_lib =
  ma_P_TCP :: int
  ma_P_UDP :: int
  ma_NewMultiaddr :: "string \<Rightarrow> goerror + maddr_comp list"
  config_ParseBootstrapPeers :: "string list \<Rightarrow> goerror + addr_info list"
  config_BootstrapPeerStrings :: "addr_info list \<Rightarrow> string list"
  peer_AddrInfosFromP2pAddrs :: "maddr_comp list list \<Rightarrow> goerror + addr_info list"

section \<open>Ports\<close>

text \<open>
  The closure \<open>replacePort\<close>: for every component of the given protocol, the text of the address is
  searched for the prefix followed by the component's value, and every occurrence is replaced.
\<close>

definition replacePort ::
  "'z cfg_lib_scheme \<Rightarrow> string \<Rightarrow> int \<Rightarrow> string \<Rightarrow> int \<Rightarrow> goerror + string" where
  "replacePort lib addr proto pre newPort =
     (case ma_NewMultiaddr lib addr of
        Inl err \<Rightarrow> Inl err
      | Inr maddr \<Rightarrow>
          Inr (foldl
            (\<lambda>a comp. if comp_code comp = proto
               then replace_all (pre @ comp_value comp) (pre @ FormatInt10 newPort) a
               else a)
            addr maddr))"

text \<open>The loop writes each finished entry back, so an error leaves the earlier ones changed.\<close>

fun replacePorts ::
  "'z cfg_lib_scheme \<Rightarrow> string list \<Rightarrow> int \<Rightarrow> string list \<times> goerror option" where
  "replacePorts lib [] newPort = ([], None)"
| "replacePorts lib (addr # rest) newPort =
     (case replacePort lib addr (ma_P_TCP lib) ''/tcp/'' newPort of
        Inl err \<Rightarrow> (addr # rest, Some err)
      | Inr addr1 \<Rightarrow>
          (case replacePort lib addr1 (ma_P_UDP lib) ''/udp/'' newPort of
             Inl err \<Rightarrow> (addr # rest, Some err)
           | Inr addr2 \<Rightarrow>
               (let (rest', err) = replacePorts lib rest newPort in (addr2 # rest', err))))"

section \<open>updateConfig\<close>

fun parsePeering :: "'z cfg_lib_scheme \<Rightarrow> string list \<Rightarrow> goerror + maddr_comp list list" where
  "parsePeering lib [] = Inr []"
| "parsePeering lib (addr # rest) =
     (case ma_NewMultiaddr lib addr of
        Inl err \<Rightarrow> Inl (Errorf (''Failed to parse peering address: '' @ etext err))
      | Inr maddr \<Rightarrow>
          (case parsePeering lib rest of Inl e \<Rightarrow> Inl e | Inr ms \<Rightarrow> Inr (maddr # ms)))"

text \<open>The assignments up to the port adjustment, which cannot fail.\<close>

definition setPlainFields :: "Config \<Rightarrow> AsioConfig \<Rightarrow> Config" where
  "setPlainFields conf c = conf\<lparr>
     Swarm_ConnMgr_LowWater := LowWater c,
     Swarm_ConnMgr_HighWater := HighWater c,
     Swarm_ConnMgr_GracePeriod := GracePeriod c,
     Swarm_EnableAutoRelay := AutoRelay c,
     Swarm_EnableRelayHop := RelayHop c,
     Swarm_Transports_Network_Relay := FlagTrue,
     Routing_Type := RoutingType c,
     Datastore_StorageMax := StorageMax c,
     AutoNAT_ServiceMode := (if AutoNAT c then AutoNATServiceEnabled else AutoNATServiceDisabled),
     AutoNAT_Throttle := Some \<lparr>GlobalLimit = AutoNATLimit c, PeerLimit = AutoNATPeerLimit c\<rparr>\<rparr>"

text \<open>The API and gateway addresses: an empty setting is an empty slice, never nil.\<close>

definition setAddresses :: "Config \<Rightarrow> AsioConfig \<Rightarrow> Config" where
  "setAddresses conf c = conf\<lparr>
     Addresses_API := (if APIAddress c = [] then [] else [APIAddress c]),
     Addresses_Gateway := (if GatewayAddress c = [] then [] else [GatewayAddress c])\<rparr>"

definition setBootstrap :: "'z cfg_lib_scheme \<Rightarrow> Config \<Rightarrow> AsioConfig \<Rightarrow> Config \<times> goerror option" where
  "setBootstrap lib conf c =
     (if Bootstrap c = [] then (conf, None)
      else case config_ParseBootstrapPeers lib (Bootstrap c) of
             Inl err \<Rightarrow> (conf, Some (Errorf (''Failed to parse bootstrap peers: '' @ etext err)))
           | Inr ps \<Rightarrow> (conf\<lparr>Bootstrap_Peers := config_BootstrapPeerStrings lib ps\<rparr>, None))"

definition setPeering :: "'z cfg_lib_scheme \<Rightarrow> Config \<Rightarrow> AsioConfig \<Rightarrow> Config \<times> goerror option" where
  "setPeering lib conf c =
     (if Peering c = [] then (conf, None)
      else case parsePeering lib (Peering c) of
             Inl err \<Rightarrow> (conf, Some err)
           | Inr maddrs \<Rightarrow>
               (case peer_AddrInfosFromP2pAddrs lib maddrs of
                  Inl err \<Rightarrow> (conf, Some (Errorf (''Failed to parse peering list: '' @ etext err)))
                | Inr addrs \<Rightarrow> (conf\<lparr>Peering_Peers := addrs\<rparr>, None)))"

text \<open>
  \<open>conf\<close> is a pointer in the source: what was assigned before an error stays assigned, so the
  model returns the configuration in both cases.
\<close>

definition updateConfig ::
  "'z cfg_lib_scheme \<Rightarrow> Config \<Rightarrow> AsioConfig \<Rightarrow> Config \<times> goerror option" where
  "updateConfig lib conf c =
     (let conf = setPlainFields conf c;
          (swarm, err) = replacePorts lib (Addresses_Swarm conf) (SwarmPort c);
          conf = conf\<lparr>Addresses_Swarm := swarm\<rparr>
      in case err of
           Some e \<Rightarrow> (conf, Some e)
         | None \<Rightarrow>
             (let (conf, err) = setBootstrap lib (setAddresses conf c) c
              in case err of
                   Some e \<Rightarrow> (conf, Some e)
                 | None \<Rightarrow> setPeering lib conf c))"

section \<open>makeBuildCfg\<close>

datatype RoutingOption = DHTClientOption | DHTOption | DHTServerOption | NilRouterOption

record BuildCfg =
  bc_Repo :: handle
  bc_Permanent :: bool
  bc_Online :: bool
  bc_DisableEncryptedConnections :: bool
  bc_ExtraOpts :: "string \<rightharpoonup> bool"
  bc_Routing :: RoutingOption

definition makeBuildCfg :: "handle \<Rightarrow> Config \<Rightarrow> BuildCfg outcome" where
  "makeBuildCfg repo cfg =
     (let ncfg = (\<lambda>r. \<lparr>bc_Repo = repo, bc_Permanent = True, bc_Online = True,
                       bc_DisableEncryptedConnections = False,
                       bc_ExtraOpts = [''pubsub'' \<mapsto> False, ''ipnsps'' \<mapsto> False],
                       bc_Routing = r\<rparr>);
          routingOption = (if Routing_Type cfg = '''' then ''dht'' else Routing_Type cfg)
      in if routingOption = ''dhtclient'' then Ret (ncfg DHTClientOption)
         else if routingOption = ''dht'' then Ret (ncfg DHTOption)
         else if routingOption = ''dhtserver'' then Ret (ncfg DHTServerOption)
         else if routingOption = ''none'' then Ret (ncfg NilRouterOption)
         else Panic (''unrecognized routing option: '' @ routingOption))"

section \<open>Textual port replacement, token by token\<close>

text \<open>
  An address is a sequence of tokens, each after a slash. On such texts the search of
  \<open>strings.Replace\<close> can be followed token by token: \<open>tok_replace\<close> says which tokens change.
\<close>

definition tok_text :: "string list \<Rightarrow> string" where
  "tok_text ts = concat (map (\<lambda>t. CHR ''/'' # t) ts)"

fun tok_replace :: "string \<Rightarrow> string \<Rightarrow> string \<Rightarrow> string list \<Rightarrow> string list" where
  "tok_replace k v w [] = []"
| "tok_replace k v w [t] = [t]"
| "tok_replace k v w (t # u # ts) =
     (if t = k \<and> prefix v u then t # (w @ drop (length v) u) # tok_replace k v w ts
      else t # tok_replace k v w (u # ts))"

lemma tok_text_simps [simp]:
  "tok_text [] = []" "tok_text (t # ts) = CHR ''/'' # t @ tok_text ts"
  by (simp_all add: tok_text_def)

lemma tok_text_append [simp]: "tok_text (xs @ ys) = tok_text xs @ tok_text ys"
  by (simp add: tok_text_def)

lemma prefix_slash_cancel:
  "CHR ''/'' \<notin> set k \<Longrightarrow> CHR ''/'' \<notin> set t \<Longrightarrow>
   prefix (k @ CHR ''/'' # v) (t @ tok_text ts) \<longleftrightarrow>
     t = k \<and> (\<exists>u us. ts = u # us \<and> prefix v (u @ tok_text us))"
proof (induction k arbitrary: t)
  case Nil
  then show ?case by (cases t; cases ts) auto
next
  case (Cons c k)
  then show ?case by (cases t; cases ts) auto
qed

lemma prefix_no_slash:
  "CHR ''/'' \<notin> set v \<Longrightarrow> prefix v (u @ tok_text us) \<longleftrightarrow> prefix v u"
  by (induction v arbitrary: u) (case_tac u; cases us; auto simp: prefix_Cons)+

lemma prefix_tok_text:
  assumes "CHR ''/'' \<notin> set k" and "CHR ''/'' \<notin> set v" and "CHR ''/'' \<notin> set t"
  shows "prefix (tok_text [k, v]) (tok_text (t # ts)) \<longleftrightarrow>
    t = k \<and> (\<exists>u us. ts = u # us \<and> prefix v u)"
  using assms by (simp add: prefix_slash_cancel prefix_no_slash)

lemma replace_all_skip:
  assumes "old \<noteq> []" and "hd old = CHR ''/''"
  shows "CHR ''/'' \<notin> set t \<Longrightarrow> replace_all old new (t @ s) = t @ replace_all old new s"
proof (induction t)
  case (Cons c t)
  then have "\<not> prefix old ((c # t) @ s)" using assms by (cases old) auto
  with Cons show ?case by (simp add: replace_all_miss)
qed simp

lemma replace_all_tokens:
  assumes "CHR ''/'' \<notin> set k" and "CHR ''/'' \<notin> set v"
  shows "\<forall>t \<in> set ts. CHR ''/'' \<notin> set t \<Longrightarrow>
    replace_all (tok_text [k, v]) (tok_text [k, w]) (tok_text ts) = tok_text (tok_replace k v w ts)"
  using assms
proof (induction k v w ts rule: tok_replace.induct)
  case (1 k v w)
  show ?case by (simp add: replace_all_Nil)
next
  case (2 k v w t)
  then have "\<not> prefix (tok_text [k, v]) (tok_text [t])"
    by (subst prefix_tok_text) auto
  then show ?case
    using 2 replace_all_skip [of "tok_text [k, v]" t "tok_text [k, w]" "[]"]
    by (simp add: replace_all_miss replace_all_Nil)
next
  case (3 k v w t u ts)
  let ?old = "tok_text [k, v]" and ?new = "tok_text [k, w]"
  show ?case
  proof (cases "t = k \<and> prefix v u")
    case True
    then obtain x where u: "u = v @ x" by (auto simp: prefix_def)
    have hit: "replace_all ?old ?new (?old @ x @ tok_text ts)
        = ?new @ replace_all ?old ?new (x @ tok_text ts)"
      by (rule replace_all_hit) simp
    have "replace_all ?old ?new (x @ tok_text ts) = x @ replace_all ?old ?new (tok_text ts)"
      using 3(3) u by (intro replace_all_skip) auto
    with hit 3 True u show ?thesis by simp
  next
    case False
    then have "\<not> prefix ?old (tok_text (t # u # ts))"
      using 3 by (subst prefix_tok_text) auto
    then have "replace_all ?old ?new (tok_text (t # u # ts))
      = CHR ''/'' # replace_all ?old ?new (t @ tok_text (u # ts))"
      by (simp add: replace_all_miss)
    with 3 False show ?thesis by (auto simp: replace_all_skip)
  qed
qed

section \<open>Addresses as components\<close>

text \<open>
  The canonical text of an address: each component is its name and, for the protocols that have
  one, its value. What the library returns for the text is the list of codes and values.
\<close>

record text_comp =
  tc_name :: string
  tc_code :: int
  tc_value :: "string option"

definition comp_tokens :: "text_comp \<Rightarrow> string list" where
  "comp_tokens c = tc_name c # (case tc_value c of None \<Rightarrow> [] | Some v \<Rightarrow> [v])"

definition maddr_text :: "text_comp list \<Rightarrow> string" where
  "maddr_text cs = tok_text (concat (map comp_tokens cs))"

definition maddr_comps :: "text_comp list \<Rightarrow> maddr_comp list" where
  "maddr_comps cs = map (\<lambda>c. \<lparr>comp_code = tc_code c,
     comp_value = (case tc_value c of None \<Rightarrow> '''' | Some v \<Rightarrow> v)\<rparr>) cs"

definition set_port :: "int \<Rightarrow> int \<Rightarrow> text_comp \<Rightarrow> text_comp" where
  "set_port proto port c =
     (if tc_code c = proto then c\<lparr>tc_value := Some (FormatInt10 port)\<rparr> else c)"

text \<open>
  \<open>text_addr proto k cs\<close>: an address whose text can be searched for the protocol with code \<open>proto\<close> and
  name \<open>k\<close>: names and values have no slash, the protocol's components are exactly those named \<open>k\<close>,
  and they have a value. \<open>port_addr\<close> asks in addition that no protocol name starts with such a value,
  and that there is at most one such component, which the code does not check.
\<close>

definition text_addr :: "int \<Rightarrow> string \<Rightarrow> text_comp list \<Rightarrow> bool" where
  "text_addr proto k cs \<longleftrightarrow>
     CHR ''/'' \<notin> set k \<and>
     (\<forall>c \<in> set cs. \<forall>t \<in> set (comp_tokens c). CHR ''/'' \<notin> set t) \<and>
     (\<forall>c \<in> set cs. (tc_name c = k \<longleftrightarrow> tc_code c = proto) \<and> (tc_code c = proto \<longrightarrow> tc_value c \<noteq> None))"

definition port_addr :: "int \<Rightarrow> string \<Rightarrow> text_comp list \<Rightarrow> bool" where
  "port_addr proto k cs \<longleftrightarrow> text_addr proto k cs \<and>
     (\<forall>c \<in> set cs. tc_code c = proto \<longrightarrow> (\<forall>d \<in> set cs. \<not> prefix (the (tc_value c)) (tc_name d))) \<and>
     length (filter (\<lambda>c. tc_code c = proto) cs) \<le> 1"

lemma text_addrD:
  assumes "text_addr proto k cs"
  shows "CHR ''/'' \<notin> set k"
    "c \<in> set cs \<Longrightarrow> t \<in> set (comp_tokens c) \<Longrightarrow> CHR ''/'' \<notin> set t"
    "c \<in> set cs \<Longrightarrow> tc_name c = k \<longleftrightarrow> tc_code c = proto"
    "c \<in> set cs \<Longrightarrow> tc_code c = proto \<Longrightarrow> tc_value c \<noteq> None"
  using assms by (auto simp: text_addr_def)

lemma comp_tokens_simps:
  "tc_value c = None \<Longrightarrow> comp_tokens c = [tc_name c]"
  "tc_value c = Some v \<Longrightarrow> comp_tokens c = [tc_name c, v]"
  by (simp_all add: comp_tokens_def)

text \<open>
  What searching for one value does to the components: every component of the protocol whose value
  starts with it is changed, and keeps the rest of its digits.
\<close>

definition cut_port :: "int \<Rightarrow> string \<Rightarrow> string \<Rightarrow> text_comp \<Rightarrow> text_comp" where
  "cut_port proto v w c =
     (if tc_code c = proto
      then c\<lparr>tc_value := map_option (\<lambda>x. if prefix v x then w @ drop (length v) x else x) (tc_value c)\<rparr>
      else c)"

lemma tok_replace_comps:
  assumes "\<forall>c \<in> set cs. tc_name c = k \<longleftrightarrow> tc_code c = proto"
    and "\<forall>c \<in> set cs. tc_code c = proto \<longrightarrow> tc_value c \<noteq> None"
    and "\<forall>c \<in> set cs. \<not> prefix v (tc_name c)"
  shows "tok_replace k v w (concat (map comp_tokens cs))
      = concat (map comp_tokens (map (cut_port proto v w) cs))"
  using assms
proof (induction cs)
  case (Cons c cs)
  have *: "tok_replace k v w (x # concat (map comp_tokens cs)) = x # tok_replace k v w (concat (map comp_tokens cs))" for x
    using Cons.prems by (cases cs) (auto simp: comp_tokens_def split: option.splits)
  show ?case
  proof (cases "tc_code c = proto")
    case True
    with Cons.prems obtain x where x: "tc_value c = Some x" "tc_name c = k" by auto
    then have "comp_tokens c = [k, x]"
      "comp_tokens (cut_port proto v w c) = [k, if prefix v x then w @ drop (length v) x else x]"
      using True by (simp_all add: comp_tokens_def cut_port_def)
    with * Cons show ?thesis by simp
  next
    case False
    with Cons * show ?thesis by (cases "tc_value c") (auto simp: comp_tokens_simps cut_port_def)
  qed
qed simp

lemma replace_all_comps:
  assumes "text_addr proto k cs" and "CHR ''/'' \<notin> set v" and "\<forall>c \<in> set cs. \<not> prefix v (tc_name c)"
  shows "replace_all (CHR ''/'' # k @ ''/'' @ v) (CHR ''/'' # k @ ''/'' @ w) (maddr_text cs) =
    maddr_text (map (cut_port proto v w) cs)"
proof -
  have "tok_replace k v w (concat (map comp_tokens cs)) = concat (map comp_tokens (map (cut_port proto v w) cs))"
    using assms text_addrD(3,4) [OF assms(1)] by (intro tok_replace_comps) auto
  then have "replace_all (tok_text [k, v]) (tok_text [k, w]) (maddr_text cs) = maddr_text (map (cut_port proto v w) cs)"
    unfolding maddr_text_def using text_addrD(1,2) [OF assms(1)] assms(2)
    by (subst replace_all_tokens) auto
  then show ?thesis by simp
qed

lemma port_comp_unique:
  "length (filter P cs) \<le> 1 \<Longrightarrow> c \<in> set cs \<Longrightarrow> P c \<Longrightarrow> filter P cs = [c]"
  by (induction cs) (auto simp: Suc_le_eq filter_empty_conv split: if_splits)

text \<open>Folding over the components is folding over those of the protocol.\<close>

lemma foldl_if_filter:
  "foldl (\<lambda>a c. if P c then f a c else a) a xs = foldl f a (filter P xs)"
  by (induction xs arbitrary: a) auto

lemma filter_maddr_comps:
  "filter (\<lambda>c. comp_code c = proto) (maddr_comps cs)
   = maddr_comps (filter (\<lambda>c. tc_code c = proto) cs)"
  by (simp add: maddr_comps_def filter_map o_def)

lemma replacePort_parsed:
  "ma_NewMultiaddr lib (maddr_text cs) = Inr (maddr_comps cs) \<Longrightarrow>
   replacePort lib (maddr_text cs) proto pre p =
   Inr (foldl (\<lambda>a comp. replace_all (pre @ comp_value comp) (pre @ FormatInt10 p) a)
     (maddr_text cs) (maddr_comps (filter (\<lambda>c. tc_code c = proto) cs)))"
  by (simp add: replacePort_def foldl_if_filter filter_maddr_comps)

lemma value_no_slash:
  "text_addr proto k cs \<Longrightarrow> c \<in> set cs \<Longrightarrow> tc_value c = Some v \<Longrightarrow> CHR ''/'' \<notin> set v"
  using text_addrD(2) [of proto k cs c v] by (simp add: comp_tokens_simps)

lemma replacePort_correct:
  assumes parse: "ma_NewMultiaddr lib (maddr_text cs) = Inr (maddr_comps cs)"
    and ok: "port_addr proto k cs"
  shows "replacePort lib (maddr_text cs) proto (CHR ''/'' # k @ ''/'') p
    = Inr (maddr_text (map (set_port proto p) cs))"
proof (cases "\<exists>c \<in> set cs. tc_code c = proto")
  case False
  then have "filter (\<lambda>c. tc_code c = proto) cs = []" and "map (set_port proto p) cs = cs"
    by (auto simp: filter_empty_conv set_port_def intro!: map_idI)
  with parse show ?thesis by (simp add: replacePort_parsed maddr_comps_def)
next
  case True
  then obtain c where c: "c \<in> set cs" "tc_code c = proto" by blast
  have ta: "text_addr proto k cs" using ok by (simp add: port_addr_def)
  have f: "filter (\<lambda>c. tc_code c = proto) cs = [c]"
    using ok c by (intro port_comp_unique) (auto simp: port_addr_def)
  obtain v where v: "tc_value c = Some v" using text_addrD(4) [OF ta c] by auto
  have "d = c" if "d \<in> set cs" "tc_code d = proto" for d
  proof -
    have "d \<in> set (filter (\<lambda>c. tc_code c = proto) cs)" using that by simp
    with f show ?thesis by simp
  qed
  then have m: "map (cut_port proto v (FormatInt10 p)) cs = map (set_port proto p) cs"
    using v by (auto simp: cut_port_def set_port_def)
  have n: "\<forall>d \<in> set cs. \<not> prefix v (tc_name d)" using ok c v by (auto simp: port_addr_def)
  have "replace_all (CHR ''/'' # k @ ''/'' @ v) (CHR ''/'' # k @ ''/'' @ FormatInt10 p) (maddr_text cs) =
      maddr_text (map (set_port proto p) cs)"
    unfolding m [symmetric] by (rule replace_all_comps [OF ta value_no_slash [OF ta c(1) v] n])
  with f v parse show ?thesis by (simp add: replacePort_parsed maddr_comps_def)
qed

section \<open>Ports of a list of addresses\<close>

definition set_ports :: "'z cfg_lib_scheme \<Rightarrow> int \<Rightarrow> text_comp list \<Rightarrow> text_comp list" where
  "set_ports lib p cs = map (set_port (ma_P_UDP lib) p) (map (set_port (ma_P_TCP lib) p) cs)"

text \<open>
  What \<open>replacePorts\<close> needs of one address: it is well-formed for both protocols and the library
  reads it, before and after the TCP port has been replaced.
\<close>

definition ports_ok :: "'z cfg_lib_scheme \<Rightarrow> int \<Rightarrow> text_comp list \<Rightarrow> bool" where
  "ports_ok lib p cs \<longleftrightarrow>
     (let cs1 = map (set_port (ma_P_TCP lib) p) cs in
      port_addr (ma_P_TCP lib) ''tcp'' cs \<and> port_addr (ma_P_UDP lib) ''udp'' cs1 \<and>
      ma_NewMultiaddr lib (maddr_text cs) = Inr (maddr_comps cs) \<and>
      ma_NewMultiaddr lib (maddr_text cs1) = Inr (maddr_comps cs1))"

lemma set_port_idem [simp]: "set_port proto p (set_port proto p c) = set_port proto p c"
  by (simp add: set_port_def)

lemma set_port_commute:
  "set_port a p (set_port b p c) = set_port b p (set_port a p c)"
  by (simp add: set_port_def)

lemma set_ports_idem [simp]: "set_ports lib p (set_ports lib p cs) = set_ports lib p cs"
  by (simp add: set_ports_def set_port_commute [of "ma_P_TCP lib"])

lemma replacePorts_texts:
  "\<forall>cs \<in> set css. ports_ok lib p cs \<Longrightarrow>
   replacePorts lib (map maddr_text css) p = (map (\<lambda>cs. maddr_text (set_ports lib p cs)) css, None)"
proof (induction css)
  case (Cons cs css)
  then have ok: "ports_ok lib p cs" by simp
  have "replacePort lib (maddr_text cs) (ma_P_TCP lib) ''/tcp/'' p
      = Inr (maddr_text (map (set_port (ma_P_TCP lib) p) cs))"
    using ok replacePort_correct [of lib cs "ma_P_TCP lib" "''tcp''" p]
    by (simp add: ports_ok_def Let_def)
  moreover have "replacePort lib (maddr_text (map (set_port (ma_P_TCP lib) p) cs))
      (ma_P_UDP lib) ''/udp/'' p = Inr (maddr_text (set_ports lib p cs))"
    using ok replacePort_correct [of lib "map (set_port (ma_P_TCP lib) p) cs" "ma_P_UDP lib" "''udp''" p]
    by (simp add: ports_ok_def set_ports_def Let_def)
  ultimately show ?case using Cons by simp
qed simp

lemma length_replacePorts: "length (fst (replacePorts lib addrs p)) = length addrs"
  by (induction lib addrs p rule: replacePorts.induct) (auto split: sum.splits prod.splits)

section \<open>Facts about updateConfig\<close>

text \<open>Each step, field by field.\<close>

lemma setPlainFields_sel [simp]:
  "Addresses_Swarm (setPlainFields conf c) = Addresses_Swarm conf"
  "Bootstrap_Peers (setPlainFields conf c) = Bootstrap_Peers conf"
  "Peering_Peers (setPlainFields conf c) = Peering_Peers conf"
  "Gateway_Writable (setPlainFields conf c) = Gateway_Writable conf"
  "Gateway_RootRedirect (setPlainFields conf c) = Gateway_RootRedirect conf"
  "Experimental_P2pHttpProxy (setPlainFields conf c) = Experimental_P2pHttpProxy conf"
  "Config_rest (setPlainFields conf c) = Config_rest conf"
  "Routing_Type (setPlainFields conf c) = RoutingType c"
  by (simp_all add: setPlainFields_def)

lemma setAddresses_sel [simp]:
  "Addresses_Swarm (setAddresses conf c) = Addresses_Swarm conf"
  "Bootstrap_Peers (setAddresses conf c) = Bootstrap_Peers conf"
  "Peering_Peers (setAddresses conf c) = Peering_Peers conf"
  "Gateway_Writable (setAddresses conf c) = Gateway_Writable conf"
  "Gateway_RootRedirect (setAddresses conf c) = Gateway_RootRedirect conf"
  "Experimental_P2pHttpProxy (setAddresses conf c) = Experimental_P2pHttpProxy conf"
  "Config_rest (setAddresses conf c) = Config_rest conf"
  "Routing_Type (setAddresses conf c) = Routing_Type conf"
  by (simp_all add: setAddresses_def)

lemma setBootstrap_fst:
  "fst (setBootstrap lib conf c) = conf\<lparr>Bootstrap_Peers :=
     (if Bootstrap c = [] \<or> is_error (config_ParseBootstrapPeers lib (Bootstrap c))
      then Bootstrap_Peers conf
      else config_BootstrapPeerStrings lib (projr (config_ParseBootstrapPeers lib (Bootstrap c))))\<rparr>"
  by (simp add: setBootstrap_def split: sum.split)

lemma setPeering_fst:
  "fst (setPeering lib conf c) = conf\<lparr>Peering_Peers :=
     (if Peering c = [] \<or> is_error (parsePeering lib (Peering c)) \<or>
         is_error (peer_AddrInfosFromP2pAddrs lib (projr (parsePeering lib (Peering c))))
      then Peering_Peers conf
      else projr (peer_AddrInfosFromP2pAddrs lib (projr (parsePeering lib (Peering c)))))\<rparr>"
  by (simp add: setPeering_def split: sum.split)

lemma setBootstrap_snd:
  "snd (setBootstrap lib conf c) = None \<longleftrightarrow>
     Bootstrap c = [] \<or> \<not> is_error (config_ParseBootstrapPeers lib (Bootstrap c))"
  by (simp add: setBootstrap_def split: sum.split)

lemma setPeering_snd:
  "snd (setPeering lib conf c) = None \<longleftrightarrow>
     Peering c = [] \<or> (\<not> is_error (parsePeering lib (Peering c)) \<and>
       \<not> is_error (peer_AddrInfosFromP2pAddrs lib (projr (parsePeering lib (Peering c)))))"
  by (simp add: setPeering_def split: sum.split)

lemmas updateConfig_unfold = updateConfig_def Let_def case_prod_beta

text \<open>Fields that no setting is written to keep their value, on success and on error.\<close>

lemma updateConfig_frame [frame_simps]:
  "Gateway_Writable (fst (updateConfig lib conf c)) = Gateway_Writable conf"
  "Gateway_RootRedirect (fst (updateConfig lib conf c)) = Gateway_RootRedirect conf"
  "Experimental_P2pHttpProxy (fst (updateConfig lib conf c)) = Experimental_P2pHttpProxy conf"
  "Config_rest (fst (updateConfig lib conf c)) = Config_rest conf"
  "Routing_Type (fst (updateConfig lib conf c)) = RoutingType c"
  by (simp_all add: updateConfig_unfold setBootstrap_fst setPeering_fst split: option.split)

text \<open>Success depends on the old configuration through its swarm addresses only.\<close>

lemma updateConfig_ok_iff:
  "snd (updateConfig lib conf c) = None \<longleftrightarrow>
     snd (replacePorts lib (Addresses_Swarm conf) (SwarmPort c)) = None \<and>
     (Bootstrap c = [] \<or> \<not> is_error (config_ParseBootstrapPeers lib (Bootstrap c))) \<and>
     (Peering c = [] \<or> (\<not> is_error (parsePeering lib (Peering c)) \<and>
        \<not> is_error (peer_AddrInfosFromP2pAddrs lib (projr (parsePeering lib (Peering c))))))"
proof -
  let ?cf = "setAddresses ((setPlainFields conf c)\<lparr>Addresses_Swarm :=
    fst (replacePorts lib (Addresses_Swarm conf) (SwarmPort c))\<rparr>) c"
  have "snd (updateConfig lib conf c) = None \<longleftrightarrow>
      snd (replacePorts lib (Addresses_Swarm conf) (SwarmPort c)) = None \<and>
      snd (setBootstrap lib ?cf c) = None \<and>
      snd (setPeering lib (fst (setBootstrap lib ?cf c)) c) = None"
    by (simp add: updateConfig_unfold split: option.split)
  then show ?thesis by (simp only: setBootstrap_snd setPeering_snd)
qed

text \<open>A successful update in closed form.\<close>

lemma updateConfig_closed:
  assumes "snd (updateConfig lib conf c) = None"
  shows "fst (updateConfig lib conf c) = (setAddresses (setPlainFields conf c) c)\<lparr>
     Addresses_Swarm := fst (replacePorts lib (Addresses_Swarm conf) (SwarmPort c)),
     Bootstrap_Peers := (if Bootstrap c = [] then Bootstrap_Peers conf
       else config_BootstrapPeerStrings lib (projr (config_ParseBootstrapPeers lib (Bootstrap c)))),
     Peering_Peers := (if Peering c = [] then Peering_Peers conf
       else projr (peer_AddrInfosFromP2pAddrs lib (projr (parsePeering lib (Peering c)))))\<rparr>"
proof -
  note ok = assms [unfolded updateConfig_ok_iff]
  have "snd (setBootstrap lib cf c) = None" for cf
    using ok by (simp add: setBootstrap_snd)
  moreover have "setAddresses (cf\<lparr>Addresses_Swarm := a\<rparr>) c = (setAddresses cf c)\<lparr>Addresses_Swarm := a\<rparr>"
    for cf a by (simp add: setAddresses_def)
  ultimately show ?thesis
    using ok by (auto simp: updateConfig_unfold setBootstrap_fst setPeering_fst)
qed

text \<open>The fields that later stages of the start read.\<close>

lemma updateConfig_stored:
  assumes "updateConfig lib conf c = (conf', None)"
  shows "Routing_Type conf' = RoutingType c"
    and "Addresses_API conf' = (if APIAddress c = [] then [] else [APIAddress c])"
    and "Addresses_Gateway conf' = (if GatewayAddress c = [] then [] else [GatewayAddress c])"
  using updateConfig_closed [of lib conf c, unfolded assms, simplified]
  by (simp_all add: setPlainFields_def setAddresses_def)

section \<open>A library for the examples\<close>

text \<open>
  A small instance of the parameters, used where a theorem is applied to a concrete input: it
  reads the protocols of the default swarm addresses and lets peers stand for themselves.
\<close>

definition demo_protocols :: "(string \<times> int \<times> bool) list" where
  "demo_protocols =
     [(''ip4'', 4, True), (''ip6'', 41, True), (''tcp'', 6, True), (''udp'', 273, True),
      (''p2p'', 421, True), (''quic'', 460, False),
      (''p2p-circuit'', 290, False)]"

fun demo_comps :: "string list \<Rightarrow> goerror + maddr_comp list" where
  "demo_comps [] = Inr []"
| "demo_comps (n # ts) =
     (case map_of demo_protocols n of
        None \<Rightarrow> Inl (Errorf ''no protocol with that name'')
      | Some (code, False) \<Rightarrow>
          (case demo_comps ts of
             Inl e \<Rightarrow> Inl e | Inr cs \<Rightarrow> Inr (\<lparr>comp_code = code, comp_value = ''''\<rparr> # cs))
      | Some (code, True) \<Rightarrow>
          (case ts of
             [] \<Rightarrow> Inl (Errorf ''unexpected end of multiaddr'')
           | v # us \<Rightarrow>
               (case demo_comps us of
                  Inl e \<Rightarrow> Inl e | Inr cs \<Rightarrow> Inr (\<lparr>comp_code = code, comp_value = v\<rparr> # cs))))"

definition demo_NewMultiaddr :: "string \<Rightarrow> goerror + maddr_comp list" where
  "demo_NewMultiaddr s =
     (if is_rooted s then demo_comps (split_on (CHR ''/'') (tl s))
      else Inl (Errorf ''must begin with a slash''))"

definition demo_lib :: cfg_lib where
  "demo_lib = \<lparr>
     ma_P_TCP = 6, ma_P_UDP = 273, ma_NewMultiaddr = demo_NewMultiaddr,
     config_ParseBootstrapPeers = Inr,
     config_BootstrapPeerStrings = id,
     peer_AddrInfosFromP2pAddrs = (\<lambda>ms. Inr (map (\<lambda>m. comp_value (last m)) ms))\<rparr>"

definition demo_addrs :: "text_comp list list" where
  "demo_addrs =
     [[\<lparr>tc_name = ''ip4'', tc_code = 4, tc_value = Some ''0.0.0.0''\<rparr>,
       \<lparr>tc_name = ''tcp'', tc_code = 6, tc_value = Some ''4001''\<rparr>],
      [\<lparr>tc_name = ''ip6'', tc_code = 41, tc_value = Some ''::''\<rparr>,
       \<lparr>tc_name = ''udp'', tc_code = 273, tc_value = Some ''4001''\<rparr>,
       \<lparr>tc_name = ''quic'', tc_code = 460, tc_value = None\<rparr>]]"

definition demo_settings :: AsioConfig where
  "demo_settings = \<lparr>
     LowWater = 100, HighWater = 200, GracePeriod = ''20s'', AutoRelay = True, RelayHop = False,
     Bootstrap = [''peer1''], Peering = [], SwarmPort = 10100,
     APIAddress = ''/ip4/127.0.0.1/tcp/6100'', GatewayAddress = '''', DefaultProfile = '''',
     StorageMax = ''2GB'', AutoNAT = True, AutoNATLimit = 30, AutoNATPeerLimit = 3,
     SwarmKey = ''key'', RoutingType = ''dht'', RunGC = True\<rparr>"

definition demo_conf :: Config where
  "demo_conf = \<lparr>
     Swarm_ConnMgr_LowWater = 0, Swarm_ConnMgr_HighWater = 0, Swarm_ConnMgr_GracePeriod = '''',
     Swarm_EnableAutoRelay = False, Swarm_EnableRelayHop = True,
     Swarm_Transports_Network_Relay = FlagDefault, Routing_Type = ''none'',
     Datastore_StorageMax = '''', AutoNAT_ServiceMode = AutoNATServiceUnset, AutoNAT_Throttle = None,
     Addresses_Swarm = map maddr_text demo_addrs, Addresses_API = [], Addresses_Gateway = [''x''],
     Bootstrap_Peers = [''default''], Peering_Peers = [''friend''], Gateway_Writable = False,
     Gateway_RootRedirect = '''', Experimental_P2pHttpProxy = False, Config_rest = 7\<rparr>"

section \<open>Properties\<close>

text \<open>
  C22: \<open>replacePorts\<close> succeeds on every list of well-formed addresses, and each address comes out
  with its TCP and its UDP port, and nothing else, replaced by the new port.
\<close>

theorem replacePorts_sets_ports:
  assumes "\<forall>cs \<in> set css. ports_ok lib p cs"
  shows "replacePorts lib (map maddr_text css) p =
    (map (\<lambda>cs. maddr_text (set_ports lib p cs)) css, None)"
  using assms by (rule replacePorts_texts)

lemma demo_ports_ok: "\<forall>cs \<in> set demo_addrs. ports_ok demo_lib 10100 cs"
  by code_simp

theorem replacePorts_sets_ports_witness:
  "replacePorts demo_lib [''/ip4/0.0.0.0/tcp/4001'', ''/ip6/::/udp/4001/quic''] 10100
   = ([''/ip4/0.0.0.0/tcp/10100'', ''/ip6/::/udp/10100/quic''], None)"
proof -
  have "map maddr_text demo_addrs = [''/ip4/0.0.0.0/tcp/4001'', ''/ip6/::/udp/4001/quic'']"
    by code_simp
  moreover have "map (\<lambda>cs. maddr_text (set_ports demo_lib 10100 cs)) demo_addrs
      = [''/ip4/0.0.0.0/tcp/10100'', ''/ip6/::/udp/10100/quic'']"
    by code_simp
  ultimately show ?thesis
    using replacePorts_sets_ports [OF demo_ports_ok] by simp
qed

text \<open>
  When \<open>replacePorts\<close> fails, it fails at one address that the library cannot read (before or
  after its TCP port was replaced): the addresses before it are already rewritten in place, this
  one and those after it are as they were, and no address is lost.
\<close>

theorem replacePorts_error_position:
  assumes "replacePorts lib addrs p = (addrs', Some e)"
  shows "\<exists>i < length addrs. replacePorts lib (take i addrs) p = (take i addrs', None) \<and>
    drop i addrs' = drop i addrs \<and>
    (replacePort lib (addrs ! i) (ma_P_TCP lib) ''/tcp/'' p = Inl e \<or>
     (\<exists>a. replacePort lib (addrs ! i) (ma_P_TCP lib) ''/tcp/'' p = Inr a \<and>
          replacePort lib a (ma_P_UDP lib) ''/udp/'' p = Inl e))"
  using assms
proof (induction lib addrs p arbitrary: addrs' rule: replacePorts.induct)
  case (2 lib addr rest p)
  show ?case
  proof (cases "\<exists>a1 a2. replacePort lib addr (ma_P_TCP lib) ''/tcp/'' p = Inr a1 \<and>
      replacePort lib a1 (ma_P_UDP lib) ''/udp/'' p = Inr a2")
    case True
    then obtain a1 a2 where a: "replacePort lib addr (ma_P_TCP lib) ''/tcp/'' p = Inr a1"
      "replacePort lib a1 (ma_P_UDP lib) ''/udp/'' p = Inr a2" by blast
    with "2.prems" obtain rest' where r: "replacePorts lib rest p = (rest', Some e)"
      "addrs' = a2 # rest'" by (auto split: prod.splits)
    from "2.IH" [OF a r(1)] obtain i where "i < length rest"
      "replacePorts lib (take i rest) p = (take i rest', None)" "drop i rest' = drop i rest"
      "replacePort lib (rest ! i) (ma_P_TCP lib) ''/tcp/'' p = Inl e \<or>
       (\<exists>a. replacePort lib (rest ! i) (ma_P_TCP lib) ''/tcp/'' p = Inr a \<and>
          replacePort lib a (ma_P_UDP lib) ''/udp/'' p = Inl e)" by blast
    with a r show ?thesis by (intro exI [of _ "Suc i"]) simp
  next
    case False
    with "2.prems" show ?thesis by (intro exI [of _ 0]) (auto split: sum.splits prod.splits)
  qed
qed simp

theorem replacePorts_error_position_witness:
  "\<exists>i < length [''/ip4/0.0.0.0/tcp/4001'', ''bad'', ''/ip6/::/tcp/1''].
     replacePorts demo_lib (take i [''/ip4/0.0.0.0/tcp/4001'', ''bad'', ''/ip6/::/tcp/1'']) 7
       = (take i [''/ip4/0.0.0.0/tcp/7'', ''bad'', ''/ip6/::/tcp/1''], None)"
proof -
  have "replacePorts demo_lib [''/ip4/0.0.0.0/tcp/4001'', ''bad'', ''/ip6/::/tcp/1''] 7
    = ([''/ip4/0.0.0.0/tcp/7'', ''bad'', ''/ip6/::/tcp/1''], Some (Errorf ''must begin with a slash''))"
    by code_simp
  from replacePorts_error_position [OF this] show ?thesis by blast
qed

lemma cut_port_sel [simp]:
  "tc_name (cut_port proto v w c) = tc_name c" "tc_code (cut_port proto v w c) = tc_code c"
  by (simp_all add: cut_port_def)






lemma parsePeering_Inr:
  "parsePeering lib as = Inr ms \<Longrightarrow> list_all2 (\<lambda>a m. ma_NewMultiaddr lib a = Inr m) as ms"
  by (induction as arbitrary: ms) (auto split: sum.splits)

text \<open>
  C20: a successful \<open>updateConfig\<close> writes every setting to its place and keeps the rest: limits, grace
  period, relay, routing, storage and AutoNAT settings are copied, the relay transport is switched
  on, the API and gateway address lists hold exactly the address given or nothing, the swarm
  addresses are those with the port replaced, the bootstrap and peering lists are what the library
  makes of the addresses given, all of which it could read, and an empty bootstrap or peering list
  keeps the list that was stored. Every field of the configuration is accounted for.
\<close>

theorem updateConfig_writes_settings:
  assumes "updateConfig lib conf c = (conf', None)"
  shows "(Swarm_ConnMgr_LowWater conf', Swarm_ConnMgr_HighWater conf', Swarm_ConnMgr_GracePeriod conf')
      = (LowWater c, HighWater c, GracePeriod c)
    \<and> (Swarm_EnableAutoRelay conf', Swarm_EnableRelayHop conf', Swarm_Transports_Network_Relay conf')
      = (AutoRelay c, RelayHop c, FlagTrue)
    \<and> (Routing_Type conf', Datastore_StorageMax conf') = (RoutingType c, StorageMax c)
    \<and> AutoNAT_ServiceMode conf' = (if AutoNAT c then AutoNATServiceEnabled else AutoNATServiceDisabled)
    \<and> AutoNAT_Throttle conf' = Some \<lparr>GlobalLimit = AutoNATLimit c, PeerLimit = AutoNATPeerLimit c\<rparr>
    \<and> Addresses_API conf' = (if APIAddress c = [] then [] else [APIAddress c])
    \<and> Addresses_Gateway conf' = (if GatewayAddress c = [] then [] else [GatewayAddress c])
    \<and> replacePorts lib (Addresses_Swarm conf) (SwarmPort c) = (Addresses_Swarm conf', None)
    \<and> (if Bootstrap c = [] then Bootstrap_Peers conf' = Bootstrap_Peers conf
       else \<exists>ps. config_ParseBootstrapPeers lib (Bootstrap c) = Inr ps \<and>
         Bootstrap_Peers conf' = config_BootstrapPeerStrings lib ps)
    \<and> (if Peering c = [] then Peering_Peers conf' = Peering_Peers conf
       else \<exists>ms. list_all2 (\<lambda>a m. ma_NewMultiaddr lib a = Inr m) (Peering c) ms \<and>
         peer_AddrInfosFromP2pAddrs lib ms = Inr (Peering_Peers conf'))
    \<and> (Gateway_Writable conf', Gateway_RootRedirect conf', Experimental_P2pHttpProxy conf', Config_rest conf')
      = (Gateway_Writable conf, Gateway_RootRedirect conf, Experimental_P2pHttpProxy conf, Config_rest conf)"
proof -
  have ok: "snd (updateConfig lib conf c) = None" using assms by simp
  have conf': "conf' = fst (updateConfig lib conf c)" using assms by simp
  note oks = ok [unfolded updateConfig_ok_iff]
  have "replacePorts lib (Addresses_Swarm conf) (SwarmPort c) = (Addresses_Swarm conf', None)"
    using oks by (simp add: conf' updateConfig_closed [OF ok] prod_eq_iff)
  moreover have "\<exists>ps. config_ParseBootstrapPeers lib (Bootstrap c) = Inr ps \<and>
      Bootstrap_Peers conf' = config_BootstrapPeerStrings lib ps" if "Bootstrap c \<noteq> []"
    using oks that by (cases "config_ParseBootstrapPeers lib (Bootstrap c)") (simp_all add: conf' updateConfig_closed [OF ok])
  moreover have "\<exists>ms. list_all2 (\<lambda>a m. ma_NewMultiaddr lib a = Inr m) (Peering c) ms \<and>
      peer_AddrInfosFromP2pAddrs lib ms = Inr (Peering_Peers conf')" if ne: "Peering c \<noteq> []"
  proof -
    obtain ms where ms: "parsePeering lib (Peering c) = Inr ms"
      using oks ne by (cases "parsePeering lib (Peering c)") auto
    moreover obtain ps where "peer_AddrInfosFromP2pAddrs lib ms = Inr ps"
      using oks ne ms by (cases "peer_AddrInfosFromP2pAddrs lib ms") auto
    ultimately show ?thesis using ne parsePeering_Inr [OF ms] by (auto simp: conf' updateConfig_closed [OF ok])
  qed
  ultimately show ?thesis
    by (simp add: conf' updateConfig_closed [OF ok]) (simp add: setPlainFields_def setAddresses_def)
qed

theorem updateConfig_writes_settings_witness:
  "\<exists>conf'. updateConfig demo_lib demo_conf demo_settings = (conf', None) \<and>
   Addresses_API conf' = [''/ip4/127.0.0.1/tcp/6100''] \<and> Bootstrap_Peers conf' = [''peer1''] \<and>
   Peering_Peers conf' = [''friend''] \<and> Config_rest conf' = 7"
proof -
  let ?c = "fst (updateConfig demo_lib demo_conf demo_settings)"
  have "snd (updateConfig demo_lib demo_conf demo_settings) = None" by code_simp
  then have u: "updateConfig demo_lib demo_conf demo_settings = (?c, None)"
    by (simp add: prod_eq_iff)
  from updateConfig_writes_settings [OF u]
  have "Addresses_API ?c = [''/ip4/127.0.0.1/tcp/6100''] \<and> Bootstrap_Peers ?c = [''peer1''] \<and>
    Peering_Peers ?c = [''friend''] \<and> Config_rest ?c = 7"
    by (simp add: demo_settings_def demo_conf_def demo_lib_def)
  with u show ?thesis by blast
qed

text \<open>
  C21: writing the settings twice is writing them once. A first start does exactly that: \<open>initRepo\<close>
  stores an updated configuration and \<open>openRepo\<close> then updates what it reads back. The second update
  succeeds and changes nothing, provided the library reads the swarm addresses and the rewritten
  ones.
\<close>

theorem updateConfig_idempotent:
  assumes "updateConfig lib conf c = (conf', None)"
    and "Addresses_Swarm conf = map maddr_text css"
    and "\<forall>cs \<in> set css. ports_ok lib (SwarmPort c) cs"
    and "\<forall>cs \<in> set css. ports_ok lib (SwarmPort c) (set_ports lib (SwarmPort c) cs)"
  shows "updateConfig lib conf' c = (conf', None)"
proof -
  let ?p = "SwarmPort c"
  have ok: "snd (updateConfig lib conf c) = None" using assms(1) by simp
  have conf': "conf' = fst (updateConfig lib conf c)" using assms(1) by simp
  have swarm: "Addresses_Swarm conf' = map maddr_text (map (set_ports lib ?p) css)"
    using assms(2,3) by (simp add: conf' updateConfig_closed [OF ok] replacePorts_texts)
  have again: "replacePorts lib (Addresses_Swarm conf') ?p = (Addresses_Swarm conf', None)"
    unfolding swarm using assms(4)
    by (subst replacePorts_texts) auto
  have ok': "snd (updateConfig lib conf' c) = None"
    using ok again by (simp add: updateConfig_ok_iff)
  have "fst (updateConfig lib conf' c) = conf'"
    using again
    by (simp add: updateConfig_closed [OF ok']) (simp add: conf' updateConfig_closed [OF ok]
        setPlainFields_def setAddresses_def)
  with ok' show ?thesis by (simp add: prod_eq_iff)
qed

theorem updateConfig_idempotent_witness:
  "updateConfig demo_lib (fst (updateConfig demo_lib demo_conf demo_settings)) demo_settings
   = (fst (updateConfig demo_lib demo_conf demo_settings), None)"
proof (rule updateConfig_idempotent)
  have "snd (updateConfig demo_lib demo_conf demo_settings) = None" by code_simp
  then show "updateConfig demo_lib demo_conf demo_settings
      = (fst (updateConfig demo_lib demo_conf demo_settings), None)"
    by (simp add: prod_eq_iff)
  show "Addresses_Swarm demo_conf = map maddr_text demo_addrs" by (simp add: demo_conf_def)
  show "\<forall>cs \<in> set demo_addrs. ports_ok demo_lib (SwarmPort demo_settings) cs" by code_simp
  show "\<forall>cs \<in> set demo_addrs. ports_ok demo_lib (SwarmPort demo_settings)
      (set_ports demo_lib (SwarmPort demo_settings) cs)" by code_simp
qed

text \<open>
  \<open>makeBuildCfg\<close> panics exactly when the routing type is none of the four known ones or empty;
  otherwise the node it asks for is permanent, online, encrypted and has pubsub and IPNS over
  pubsub off.
\<close>

theorem makeBuildCfg_panics_iff:
  "(is_panic (makeBuildCfg repo cfg) \<longleftrightarrow>
      Routing_Type cfg \<notin> {'''', ''dht'', ''dhtclient'', ''dhtserver'', ''none''}) \<and>
   (\<forall>b. makeBuildCfg repo cfg = Ret b \<longrightarrow>
      bc_Repo b = repo \<and> bc_Permanent b \<and> bc_Online b \<and> \<not> bc_DisableEncryptedConnections b \<and>
      bc_ExtraOpts b ''pubsub'' = Some False \<and> bc_ExtraOpts b ''ipnsps'' = Some False \<and>
      (bc_Routing b = DHTOption \<longleftrightarrow> Routing_Type cfg \<in> {'''', ''dht''}))"
  by (auto simp: makeBuildCfg_def Let_def)

theorem makeBuildCfg_panics_iff_witness:
  "is_panic (makeBuildCfg 1 (demo_conf\<lparr>Routing_Type := ''gossip''\<rparr>)) \<and>
   \<not> is_panic (makeBuildCfg 1 (demo_conf\<lparr>Routing_Type := ''''\<rparr>))"
  using makeBuildCfg_panics_iff [of 1 "demo_conf\<lparr>Routing_Type := ''gossip''\<rparr>"]
    makeBuildCfg_panics_iff [of 1 "demo_conf\<lparr>Routing_Type := ''''\<rparr>"]
  by simp

end
