(* ===== verification/Error_Codes.thy ===== *)
theory Error_Codes
  imports Go_Prelude
begin

text \<open>
  The error codes of \<open>include/ipfs_error_codes.h\<close>, which both languages share, and the text that
  \<open>ipfs_category::message\<close> and \<open>asio_ipfs_category::message\<close> of \<open>include/ipfs_error.h\<close> give to a
  code. The Go side returns the macros; the C++ side receives the integer.
\<close>

datatype ipfs_code =
    IPFS_SUCCESS
  | IPFS_NODE_EXISTS
  | IPFS_PARSE_CONFIG_FAIL
  | IPFS_READ_CONFIG_FAILED
  | IPFS_CREATE_REPO_FAILED
  | IPFS_OPEN_REPO_FAILED
  | IPFS_PLUGINS_FAILED
  | IPFS_API_ACCESS_FAILED
  | IPFS_START_NODE_FAILED
  | IPFS_MPROME_INJECT_FAILED
  | IPFS_FLATFS_FAILED
  | IPFS_LEVELDS_FAILED
  | IPFS_NO_NODE
  | IPFS_RESOLVE_FAILED
  | IPFS_ADD_FAILED
  | IPFS_CAT_FAILED
  | IPFS_READ_FAILED
  | IPFS_PUBLISH_FAILED
  | IPFS_PIN_FAILED
  | IPFS_UNPIN_FAILED
  | IPFS_GC_FAILED
  | IPFS_API_FAILED
  | IPFS_GATEWAY_FAILED
  | IPFS_MFSPIN_FAILED
  | IPFS_BUILD_ENV_FAILED
  | IPFS_CALC_CID_FAILED

text \<open>The integer a macro stands for.\<close>

primrec code_num :: "ipfs_code \<Rightarrow> int" where
  "code_num IPFS_SUCCESS = 0"
| "code_num IPFS_NODE_EXISTS = 1"
| "code_num IPFS_PARSE_CONFIG_FAIL = 2"
| "code_num IPFS_READ_CONFIG_FAILED = 3"
| "code_num IPFS_CREATE_REPO_FAILED = 4"
| "code_num IPFS_OPEN_REPO_FAILED = 5"
| "code_num IPFS_PLUGINS_FAILED = 6"
| "code_num IPFS_API_ACCESS_FAILED = 7"
| "code_num IPFS_START_NODE_FAILED = 8"
| "code_num IPFS_MPROME_INJECT_FAILED = 9"
| "code_num IPFS_FLATFS_FAILED = 10"
| "code_num IPFS_LEVELDS_FAILED = 11"
| "code_num IPFS_NO_NODE = 12"
| "code_num IPFS_RESOLVE_FAILED = 13"
| "code_num IPFS_ADD_FAILED = 14"
| "code_num IPFS_CAT_FAILED = 15"
| "code_num IPFS_READ_FAILED = 16"
| "code_num IPFS_PUBLISH_FAILED = 17"
| "code_num IPFS_PIN_FAILED = 18"
| "code_num IPFS_UNPIN_FAILED = 19"
| "code_num IPFS_GC_FAILED = 20"
| "code_num IPFS_API_FAILED = 21"
| "code_num IPFS_GATEWAY_FAILED = 22"
| "code_num IPFS_MFSPIN_FAILED = 23"
| "code_num IPFS_BUILD_ENV_FAILED = 24"
| "code_num IPFS_CALC_CID_FAILED = 25"

text \<open>\<open>ipfs_category::message\<close>: a switch on the integer, in the order of the source.\<close>

definition message :: "int \<Rightarrow> string" where
  "message e =
     (if e = code_num IPFS_SUCCESS then ''success''
      else if e = code_num IPFS_NODE_EXISTS then ''node aleady exists''
      else if e = code_num IPFS_PARSE_CONFIG_FAIL then ''failed to parse IPFS config''
      else if e = code_num IPFS_READ_CONFIG_FAILED then ''failed to read config from IPFS respo''
      else if e = code_num IPFS_CREATE_REPO_FAILED then ''failed to create IPFS repository''
      else if e = code_num IPFS_API_ACCESS_FAILED then ''failed to access core API''
      else if e = code_num IPFS_START_NODE_FAILED then ''failed to start IPFS node''
      else if e = code_num IPFS_MPROME_INJECT_FAILED then ''failed to inject mprome''
      else if e = code_num IPFS_FLATFS_FAILED then ''failt to launch flatfs plugin''
      else if e = code_num IPFS_LEVELDS_FAILED then ''failt to launch lefelds plugin''
      else if e = code_num IPFS_NO_NODE then ''failed to find a node''
      else if e = code_num IPFS_RESOLVE_FAILED then ''failed to resolve IPNS entry''
      else if e = code_num IPFS_CALC_CID_FAILED then ''failed to calculate CID''
      else if e = code_num IPFS_ADD_FAILED then ''failed to add data''
      else if e = code_num IPFS_CAT_FAILED then ''failed to get data reader''
      else if e = code_num IPFS_READ_FAILED then ''failed to read data''
      else if e = code_num IPFS_PUBLISH_FAILED then ''failed to publish CID''
      else if e = code_num IPFS_PIN_FAILED then ''failed to pin''
      else if e = code_num IPFS_UNPIN_FAILED then ''failed to unpin''
      else if e = code_num IPFS_GC_FAILED then ''failed to garbage collect''
      else if e = code_num IPFS_API_FAILED then ''failed to start API''
      else if e = code_num IPFS_GATEWAY_FAILED then ''failed to start Gateway''
      else if e = code_num IPFS_MFSPIN_FAILED then ''failes to start MFS pin service''
      else if e = code_num IPFS_BUILD_ENV_FAILED then ''failed to build initital environment''
      else if e = code_num IPFS_OPEN_REPO_FAILED then ''failed to open repo''
      else if e = code_num IPFS_PLUGINS_FAILED then ''failed to start plugins''
      else ''unknown ipfs error'')"

text \<open>The second category, for errors of the C++ side, and the codes of both.\<close>

datatype error_t = db_download_failed | invalid_db_format | malformed_db_entry | missing_ipfs_link

primrec error_num :: "error_t \<Rightarrow> int" where
  "error_num db_download_failed = 1"
| "error_num invalid_db_format = 2"
| "error_num malformed_db_entry = 3"
| "error_num missing_ipfs_link = 4"

definition asio_ipfs_message :: "int \<Rightarrow> string" where
  "asio_ipfs_message e =
     (if e = error_num db_download_failed then ''database download failed''
      else if e = error_num invalid_db_format then ''invalid database format''
      else if e = error_num malformed_db_entry then ''malformed database entry''
      else if e = error_num missing_ipfs_link then ''missing IPFS link to content''
      else ''unknown asio_ipfs error'')"

datatype error_category = ipfs_category | asio_ipfs_category

record error_code =
  ec_value :: int
  ec_category :: error_category

definition make_error_code :: "int \<Rightarrow> error_code" where
  "make_error_code error_number = \<lparr>ec_value = error_number, ec_category = ipfs_category\<rparr>"

definition make_error_code_t :: "error_t \<Rightarrow> error_code" where
  "make_error_code_t e = \<lparr>ec_value = error_num e, ec_category = asio_ipfs_category\<rparr>"

definition ec_message :: "error_code \<Rightarrow> string" where
  "ec_message ec =
     (case ec_category ec of ipfs_category \<Rightarrow> message (ec_value ec) | asio_ipfs_category \<Rightarrow> asio_ipfs_message (ec_value ec))"

lemma code_num_inj: "code_num a = code_num b \<Longrightarrow> a = b"
  by (cases a; cases b) simp_all

lemma code_num_range: "0 \<le> code_num c \<and> code_num c \<le> 25"
  by (cases c) simp_all

lemma code_num_surj: "0 \<le> e \<Longrightarrow> e \<le> 25 \<Longrightarrow> \<exists>c. code_num c = e"
proof -
  assume "0 \<le> e" "e \<le> 25"
  then have "e \<in> set (map code_num
    [IPFS_SUCCESS, IPFS_NODE_EXISTS, IPFS_PARSE_CONFIG_FAIL, IPFS_READ_CONFIG_FAILED,
     IPFS_CREATE_REPO_FAILED, IPFS_OPEN_REPO_FAILED, IPFS_PLUGINS_FAILED, IPFS_API_ACCESS_FAILED,
     IPFS_START_NODE_FAILED, IPFS_MPROME_INJECT_FAILED, IPFS_FLATFS_FAILED, IPFS_LEVELDS_FAILED,
     IPFS_NO_NODE, IPFS_RESOLVE_FAILED, IPFS_ADD_FAILED, IPFS_CAT_FAILED, IPFS_READ_FAILED,
     IPFS_PUBLISH_FAILED, IPFS_PIN_FAILED, IPFS_UNPIN_FAILED, IPFS_GC_FAILED, IPFS_API_FAILED,
     IPFS_GATEWAY_FAILED, IPFS_MFSPIN_FAILED, IPFS_BUILD_ENV_FAILED, IPFS_CALC_CID_FAILED])"
    by simp presburger
  then show ?thesis unfolding set_map by (elim imageE) (rule exI, rule sym)
qed

lemma message_unknown: "e < 0 \<or> 25 < e \<Longrightarrow> message e = ''unknown ipfs error''"
  by (auto simp: message_def)

lemma message_known: "message (code_num c) \<noteq> ''unknown ipfs error''"
  by (cases c) (simp_all add: message_def)

lemma message_inj: "message (code_num a) = message (code_num b) \<Longrightarrow> a = b"
  by (cases a; cases b) (simp_all add: message_def)

text \<open>
  The error codes are the numbers from 0 to 25 without gaps or repetitions, and each has a
  message of its own, which is not the one for unknown numbers.
\<close>

theorem error_codes_have_own_messages:
  "bij_betw code_num UNIV {0..25} \<and> inj (\<lambda>c. message (code_num c)) \<and>
   (\<forall>e. message e = ''unknown ipfs error'' \<longleftrightarrow> e \<notin> {0..25})"
proof (intro conjI allI)
  have "range code_num = {0..25}" using code_num_range code_num_surj by fastforce
  then show "bij_betw code_num UNIV {0..25}" by (auto simp: bij_betw_def inj_def intro: code_num_inj)
  show "inj (\<lambda>c. message (code_num c))" by (auto simp: inj_def intro: message_inj)
  fix e
  show "message e = ''unknown ipfs error'' \<longleftrightarrow> e \<notin> {0..25}"
    using message_unknown [of e] message_known code_num_surj [of e] by force
qed

text \<open>
  The two categories do not meet: the text of an error says which category and which code it has.
\<close>

theorem error_message_identifies_error:
  "inj (\<lambda>c. ec_message (make_error_code (code_num c))) \<and> inj (\<lambda>e. ec_message (make_error_code_t e)) \<and>
   ec_message (make_error_code (code_num c)) \<noteq> ec_message (make_error_code_t e)"
proof (intro conjI)
  show "inj (\<lambda>c. ec_message (make_error_code (code_num c)))"
    by (auto simp: inj_def ec_message_def make_error_code_def intro: message_inj)
  show "inj (\<lambda>e. ec_message (make_error_code_t e))"
  proof (rule injI)
    fix x y assume "ec_message (make_error_code_t x) = ec_message (make_error_code_t y)"
    then show "x = y" by (cases x; cases y) (simp_all add: ec_message_def make_error_code_t_def asio_ipfs_message_def)
  qed
  show "ec_message (make_error_code (code_num c)) \<noteq> ec_message (make_error_code_t e)"
    by (cases c; cases e)
       (simp_all add: ec_message_def make_error_code_def make_error_code_t_def message_def asio_ipfs_message_def)
qed

end
