(* ===== verification/Go_Context.thy ===== *)
theory Go_Context
  imports Go_Prelude
begin

text \<open>
  The part of the package \<open>context\<close> the bindings use: \<open>WithCancel\<close> on the background context or on
  another context, the cancel function it returns, and whether a context is done. A context is
  named by its index in the store of contexts; its cancel function is named by the same index.
\<close>

record goctx =
  ctx_parent :: "nat option"
  ctx_cancelled :: bool

type_synonym ctx_store = "goctx list"

definition ctx_done :: "ctx_store \<Rightarrow> nat \<Rightarrow> bool" where
  "ctx_done s i \<longleftrightarrow> i < length s \<and> ctx_cancelled (s ! i)"

definition WithCancel :: "nat option \<Rightarrow> ctx_store \<Rightarrow> nat \<times> ctx_store" where
  "WithCancel p s =
     (length s,
      s @ [\<lparr>ctx_parent = p,
            ctx_cancelled = (case p of None \<Rightarrow> False | Some i \<Rightarrow> ctx_done s i)\<rparr>])"

text \<open>
  \<open>under s c i\<close>: the context \<open>i\<close> is \<open>c\<close> or was derived from it. A parent is always older than its
  child.
\<close>

fun under :: "ctx_store \<Rightarrow> nat \<Rightarrow> nat \<Rightarrow> bool" where
  "under s c i =
     (if i = c then True
      else if length s \<le> i then False
      else case ctx_parent (s ! i) of
             None \<Rightarrow> False
           | Some p \<Rightarrow> (if p < i then under s c p else False))"

declare under.simps [simp del]

text \<open>Calling a cancel function cancels the context and everything derived from it.\<close>

definition cancel_ctx :: "nat \<Rightarrow> ctx_store \<Rightarrow> ctx_store" where
  "cancel_ctx c s =
     map (\<lambda>i. if under s c i then (s ! i)\<lparr>ctx_cancelled := True\<rparr> else s ! i) [0..<length s]"

definition ctx_wf :: "ctx_store \<Rightarrow> bool" where
  "ctx_wf s \<longleftrightarrow>
     (\<forall>i < length s. \<forall>p. ctx_parent (s ! i) = Some p \<longrightarrow>
        p < i \<and> (ctx_cancelled (s ! p) \<longrightarrow> ctx_cancelled (s ! i)))"

lemma length_cancel_ctx [simp]: "length (cancel_ctx c s) = length s"
  by (simp add: cancel_ctx_def)

lemma ctx_parent_cancel_ctx [simp]:
  "i < length s \<Longrightarrow> ctx_parent (cancel_ctx c s ! i) = ctx_parent (s ! i)"
  by (simp add: cancel_ctx_def)

lemma ctx_done_cancel_ctx [simp]:
  "ctx_done (cancel_ctx c s) i \<longleftrightarrow> ctx_done s i \<or> i < length s \<and> under s c i"
  by (auto simp: ctx_done_def cancel_ctx_def)

lemma under_self [simp]: "under s c c"
  by (subst under.simps) simp

lemma under_le: "under s c i \<Longrightarrow> c \<le> i"
proof (induction s c i rule: under.induct)
  case (1 s c i)
  from "1.prems" show ?case
    by (subst (asm) under.simps) (fastforce split: if_splits option.splits dest: "1.IH")
qed

lemma under_child:
  "i < length s \<Longrightarrow> ctx_parent (s ! i) = Some p \<Longrightarrow> p < i \<Longrightarrow> under s c p \<Longrightarrow> under s c i"
  by (subst under.simps) simp

lemma under_store_cong:
  "length s \<le> length t \<Longrightarrow> (\<And>j. j < length s \<Longrightarrow> ctx_parent (t ! j) = ctx_parent (s ! j)) \<Longrightarrow>
   i < length s \<Longrightarrow> under t c i = under s c i"
proof (induction s c i rule: under.induct)
  case (1 s c i)
  show ?case
    using 1 by (subst (1 2) under.simps) (auto split: option.splits)
qed

lemma under_root:
  "c < length s \<Longrightarrow> i < length s \<Longrightarrow> ctx_parent (s ! i) = None \<Longrightarrow> under s c i \<longleftrightarrow> i = c"
  by (subst under.simps) auto

lemma ctx_wf_cancelled:
  assumes "ctx_wf s" and "i < length s" and "ctx_parent (s ! i) = Some p"
  shows "p < i" and "ctx_done s p \<Longrightarrow> ctx_done s i"
  using assms by (auto simp: ctx_wf_def ctx_done_def)

lemma ctx_wf_Nil [simp]: "ctx_wf []"
  by (simp add: ctx_wf_def)

lemma ctx_wf_cancel_ctx: "ctx_wf s \<Longrightarrow> ctx_wf (cancel_ctx c s)"
proof -
  assume wf: "ctx_wf s"
  have "ctx_cancelled (cancel_ctx c s ! i)"
    if "i < length s" "ctx_parent (s ! i) = Some p" "ctx_cancelled (cancel_ctx c s ! p)" for i p
  proof -
    from wf that have "p < i" by (simp add: ctx_wf_def)
    with that wf show ?thesis
      by (auto simp: cancel_ctx_def ctx_wf_def dest: under_child split: if_splits)
  qed
  with wf show ?thesis by (auto simp: ctx_wf_def)
qed

lemma length_WithCancel [simp]: "length (snd (WithCancel p s)) = Suc (length s)"
  by (simp add: WithCancel_def)

lemma fst_WithCancel [simp]: "fst (WithCancel p s) = length s"
  by (simp add: WithCancel_def)

lemma nth_WithCancel_old: "i < length s \<Longrightarrow> snd (WithCancel p s) ! i = s ! i"
  by (simp add: WithCancel_def nth_append)

lemma ctx_parent_WithCancel_new [simp]: "ctx_parent (snd (WithCancel p s) ! length s) = p"
  by (simp add: WithCancel_def nth_append)

lemma ctx_done_WithCancel_old [simp]:
  "i < length s \<Longrightarrow> ctx_done (snd (WithCancel p s)) i = ctx_done s i"
  by (simp add: ctx_done_def nth_WithCancel_old)

lemma ctx_done_WithCancel_new [simp]:
  "ctx_done (snd (WithCancel p s)) (length s) \<longleftrightarrow> (\<exists>i. p = Some i \<and> ctx_done s i)"
  by (auto simp: ctx_done_def WithCancel_def nth_append split: option.splits)

lemma ctx_wf_WithCancel:
  "ctx_wf s \<Longrightarrow> (\<And>i. p = Some i \<Longrightarrow> i < length s) \<Longrightarrow> ctx_wf (snd (WithCancel p s))"
  by (auto simp: ctx_wf_def WithCancel_def ctx_done_def nth_append less_Suc_eq split: option.splits)

section \<open>The interface of the package\<close>

locale ctx_package =
  fixes wf :: "'s \<Rightarrow> bool"
    and known :: "'s \<Rightarrow> nat \<Rightarrow> bool"
    and parent :: "'s \<Rightarrow> nat \<Rightarrow> nat option"
    and is_done :: "'s \<Rightarrow> nat \<Rightarrow> bool"
    and derive :: "nat option \<Rightarrow> 's \<Rightarrow> nat \<times> 's"
    and kill :: "nat \<Rightarrow> 's \<Rightarrow> 's"
  assumes derive_new: "\<not> known s (fst (derive p s))"
    and derive_known: "known (snd (derive p s)) i \<longleftrightarrow> known s i \<or> i = fst (derive p s)"
    and derive_parent: "parent (snd (derive p s)) (fst (derive p s)) = p"
    and derive_parent_old: "known s i \<Longrightarrow> parent (snd (derive p s)) i = parent s i"
    and derive_done_old: "known s i \<Longrightarrow> is_done (snd (derive p s)) i = is_done s i"
    and derive_done_new:
      "is_done (snd (derive p s)) (fst (derive p s)) \<longleftrightarrow> (\<exists>i. p = Some i \<and> is_done s i)"
    and derive_wf: "wf s \<Longrightarrow> (\<And>i. p = Some i \<Longrightarrow> known s i) \<Longrightarrow> wf (snd (derive p s))"
    and kill_known: "known (kill c s) i = known s i"
    and kill_parent: "known s i \<Longrightarrow> parent (kill c s) i = parent s i"
    and kill_wf: "wf s \<Longrightarrow> wf (kill c s)"
    and kill_mono: "is_done s i \<Longrightarrow> is_done (kill c s) i"
    and kill_self: "known s c \<Longrightarrow> is_done (kill c s) c"
    and kill_child: "wf s \<Longrightarrow> known s i \<Longrightarrow> parent s i = Some c \<Longrightarrow> is_done (kill c s) i"
    and kill_sibling:
      "wf s \<Longrightarrow> known s i \<Longrightarrow> parent s i = Some r \<Longrightarrow> parent s r = None \<Longrightarrow> i \<noteq> c \<Longrightarrow> r \<noteq> c \<Longrightarrow>
       is_done (kill c s) i = is_done s i"
    and kill_root: "known s i \<Longrightarrow> parent s i = None \<Longrightarrow> i \<noteq> c \<Longrightarrow> is_done (kill c s) i = is_done s i"
begin

text \<open>Of the contexts derived from one root, cancelling one leaves the root and the others.\<close>

lemma kill_one_of_many:
  assumes "wf s" and "known s r" and "parent s r = None"
    and "known s i" and "parent s i = Some r" and "known s j" and "parent s j = Some r" and "i \<noteq> j"
  shows "is_done (kill j s) j" and "is_done (kill j s) i = is_done s i"
    and "is_done (kill j s) r = is_done s r"
proof -
  have "r \<noteq> j" using assms(3,7) by auto
  with assms show "is_done (kill j s) j" and "is_done (kill j s) i = is_done s i"
    and "is_done (kill j s) r = is_done s r"
    by (simp_all add: kill_self kill_sibling [of s i r j] kill_root)
qed

text \<open>Cancelling the root reaches every context derived from it.\<close>

lemma kill_root_reaches:
  "wf s \<Longrightarrow> known s r \<Longrightarrow> known s i \<Longrightarrow> parent s i = Some r \<Longrightarrow> is_done (kill r s) i"
  by (rule kill_child)

end

lemma under_sibling:
  assumes "ctx_wf s" "i < length s" "ctx_parent (s ! i) = Some r" "ctx_parent (s ! r) = None"
    and "i \<noteq> c" "r \<noteq> c"
  shows "\<not> under s c i"
proof -
  from assms have "r < i" by (simp add: ctx_wf_def)
  with assms have "\<not> under s c r" by (subst under.simps) auto
  with assms \<open>r < i\<close> show ?thesis by (subst under.simps) auto
qed

interpretation ctxp: ctx_package ctx_wf "\<lambda>s i. i < length s" "\<lambda>s i. ctx_parent (s ! i)" ctx_done
  WithCancel cancel_ctx
proof (unfold_locales, goal_cases)
  case (13 s i c)
  then show ?case by (auto simp: ctx_wf_def intro: under_child)
next
  case (15 s i c)
  then show ?case by (subst ctx_done_cancel_ctx, subst under.simps) auto
qed (auto simp: nth_WithCancel_old less_Suc_eq ctx_wf_cancel_ctx under_sibling intro: ctx_wf_WithCancel)

end
