(* ===== verification/Process_State.thy ===== *)
theory Process_State
  imports Asio_Config Error_Codes Go_Context
begin

text \<open>
  The state of the process the bindings run in: the package-level variables and the \<open>Node\<close> struct
  of \<open>ipfs_node.go\<close>, the contexts, the goroutines that were started, C memory and the callbacks
  made into C, and the operating system's files. Objects that other packages own (an IPFS node, an
  API, a listener) are opaque handles. Pointers to \<open>Node\<close> structs are indices into \<open>nodes\<close>, so that
  a goroutine that captured a node keeps that node when \<open>g_node\<close> changes.
\<close>

section \<open>Objects of the libraries\<close>

text \<open>\<open>loader.PluginLoader\<close>: its first field is its state, which \<open>loadPlugins\<close> overwrites.\<close>

record PluginLoader =
  loader_state :: int
  loader_id :: handle

text \<open>
  \<open>oldcmds.Context\<close>: the closure stored in \<open>LoadConfig\<close> is given by what it captures, the repository
  root and the configuration.
\<close>

record cmds_Context =
  ConfigRoot :: string
  LoadConfig :: "(string \<times> Config) option"
  Plugins :: "PluginLoader option"
  Gateway :: bool

datatype ServeOption =
    MetricsCollectionOption string
  | MetricsOpenCensusCollectionOption
  | CheckVersionOption
  | CommandsOption cmds_Context
  | CommandsROOption cmds_Context
  | GatewayOption bool "string list"
  | VersionOption
  | DefaultMux string
  | MutexFractionOption string
  | MetricsScrapingOption string
  | LogOption
  | RedirectOption string string
  | HostnameOption
  | P2PProxyOption

section \<open>The node and the goroutines\<close>

type_synonym nodeptr = nat
type_synonym chan = nat

record Node =
  ctx :: nat
  cctx :: "cmds_Context option"
  node :: "handle option"
  api :: "handle option"
  collector :: "handle option"
  cancel :: nat
  next_cancel_signal_id :: u64
  cancel_signals :: "u64 \<rightharpoonup> nat"
  state_cb :: cptr
  state_cb_arg :: cptr
  log_cb :: cptr

text \<open>
  One constructor per \<open>go\<close> statement, with the variables its function captures. A goroutine that
  only reports a code is \<open>GoVoidCB\<close> or \<open>GoDataCB\<close>.
\<close>

datatype goroutine =
    GoVoidCB cptr ipfs_code cptr
  | GoDataCB cptr ipfs_code cptr
  | GoPublish nodeptr nat "64 word" string cptr cptr
  | GoCalcCid nodeptr nat bytes cptr cptr
  | GoAdd nodeptr nat bytes bool cptr cptr
  | GoCat nodeptr nat string cptr cptr
  | GoPin nodeptr nat string cptr cptr
  | GoUnpin nodeptr nat string cptr cptr
  | GoGC nodeptr nat cptr cptr
  | GoStart string nodeptr string cptr cptr
  | GoPeriodicGC nodeptr chan
  | GoServe "handle option" chan handle "ServeOption list"
  | GoCloser chan nat
  | GoMonitor nodeptr "chan option" "chan option" "chan option"

text \<open>
  What C sees of a callback. A data callback carries the address of the buffer and, since the
  buffer is freed when the goroutine returns, the bytes behind it at the time of the call.
\<close>

datatype callback =
    VoidCB cptr ipfs_code cptr
  | DataCB cptr ipfs_code cptr bytes nat cptr
  | StateCB cptr cptr "string option" u32
  | LogCB cptr string

section \<open>Operating system and process\<close>

datatype fentry = Dir | File bytes
datatype fsop = OpStat | OpCreate | OpWrite | OpMkdir | OpRemove

text \<open>
  The files by cleaned path; the errors the system reports for an operation on a path (permission,
  full disk), and how many bytes a failing write gets out; and \<open>world\<close>, the state that go-ipfs and
  the other libraries keep.
\<close>

record 'w os =
  files :: "string \<rightharpoonup> fentry"
  osfault :: "fsop \<Rightarrow> string \<Rightarrow> goerror option"
  oswritten :: "string \<Rightarrow> nat"
  world :: 'w

record 'w proc =
  g_mprome_injected :: bool
  g_mporme_metrics :: bool
  g_plugins_injected :: bool
  g_node :: "nodeptr option"
  nodes :: "Node list"
  ctxs :: ctx_store
  gos :: "goroutine list"
  nchans :: nat
  cmem :: "nat \<rightharpoonup> bytes"
  cbrk :: nat
  cbs :: "callback list"
  os :: "'w os"

definition upd_node :: "nodeptr \<Rightarrow> (Node \<Rightarrow> Node) \<Rightarrow> 'w proc \<Rightarrow> 'w proc" where
  "upd_node p f s = s\<lparr>nodes := (nodes s)[p := f (nodes s ! p)]\<rparr>"

definition go :: "goroutine \<Rightarrow> 'w proc \<Rightarrow> 'w proc" where
  "go g s = s\<lparr>gos := gos s @ [g]\<rparr>"

definition call_cb :: "callback \<Rightarrow> 'w proc \<Rightarrow> 'w proc" where
  "call_cb c s = s\<lparr>cbs := cbs s @ [c]\<rparr>"

definition make_chan :: "'w proc \<Rightarrow> chan \<times> 'w proc" where
  "make_chan s = (nchans s, s\<lparr>nchans := Suc (nchans s)\<rparr>)"

text \<open>
  C memory: \<open>C.CBytes\<close> and \<open>C.CString\<close> allocate, \<open>C.free\<close> releases; releasing what is not
  allocated is an error of the program, releasing nil is not.
\<close>

definition CBytes :: "bytes \<Rightarrow> 'w proc \<Rightarrow> nat \<times> 'w proc" where
  "CBytes b s = (cbrk s, s\<lparr>cmem := (cmem s)(cbrk s \<mapsto> b), cbrk := Suc (cbrk s)\<rparr>)"

definition CString :: "string \<Rightarrow> 'w proc \<Rightarrow> nat \<times> 'w proc" where
  "CString str = CBytes (str @ [CHR 0x00])"

definition C_free :: "cptr \<Rightarrow> 'w proc \<Rightarrow> 'w proc outcome" where
  "C_free p s =
     (case p of
        None \<Rightarrow> Ret s
      | Some a \<Rightarrow> (if cmem s a = None then Panic ''free(): invalid pointer''
                  else Ret (s\<lparr>cmem := (cmem s)(a := None)\<rparr>)))"

text \<open>A C reader of a string stops at the first zero byte.\<close>

definition c_str :: "bytes \<Rightarrow> string" where
  "c_str b = takeWhile (\<lambda>c. c \<noteq> CHR 0x00) b"

section \<open>Well-formed process states\<close>

text \<open>
  Addresses at or above \<open>cbrk\<close> are unused; every node has a root context of its own and its signals
  name contexts derived from it.
\<close>

definition node_wf :: "ctx_store \<Rightarrow> Node \<Rightarrow> bool" where
  "node_wf cs n \<longleftrightarrow>
     ctx n < length cs \<and> cancel n = ctx n \<and> ctx_parent (cs ! ctx n) = None \<and>
     (\<forall>k c. cancel_signals n k = Some c \<longrightarrow>
        c < length cs \<and> ctx_parent (cs ! c) = Some (ctx n))"

definition proc_wf :: "'w proc \<Rightarrow> bool" where
  "proc_wf s \<longleftrightarrow>
     ctx_wf (ctxs s) \<and> (\<forall>a \<in> dom (cmem s). a < cbrk s) \<and>
     (\<forall>n \<in> set (nodes s). node_wf (ctxs s) n) \<and>
     (\<forall>p. g_node s = Some p \<longrightarrow> p < length (nodes s))"

lemma upd_node_sel [simp]:
  "g_mprome_injected (upd_node p f s) = g_mprome_injected s"
  "g_mporme_metrics (upd_node p f s) = g_mporme_metrics s"
  "g_plugins_injected (upd_node p f s) = g_plugins_injected s"
  "g_node (upd_node p f s) = g_node s" "ctxs (upd_node p f s) = ctxs s"
  "gos (upd_node p f s) = gos s" "nchans (upd_node p f s) = nchans s"
  "cmem (upd_node p f s) = cmem s" "cbrk (upd_node p f s) = cbrk s" "cbs (upd_node p f s) = cbs s"
  "os (upd_node p f s) = os s" "length (nodes (upd_node p f s)) = length (nodes s)"
  by (simp_all add: upd_node_def)

lemma nodes_upd_node: "nodes (upd_node p f s) = (nodes s)[p := f (nodes s ! p)]"
  by (simp add: upd_node_def)

lemma nth_upd_node [simp]:
  "p < length (nodes s) \<Longrightarrow> nodes (upd_node p f s) ! p = f (nodes s ! p)"
  "q \<noteq> p \<Longrightarrow> nodes (upd_node p f s) ! q = nodes s ! q"
  by (simp_all add: upd_node_def)

lemma go_sel [simp]:
  "g_mprome_injected (go g s) = g_mprome_injected s" "g_mporme_metrics (go g s) = g_mporme_metrics s"
  "g_plugins_injected (go g s) = g_plugins_injected s" "g_node (go g s) = g_node s"
  "nodes (go g s) = nodes s" "ctxs (go g s) = ctxs s" "gos (go g s) = gos s @ [g]"
  "nchans (go g s) = nchans s" "cmem (go g s) = cmem s" "cbrk (go g s) = cbrk s"
  "cbs (go g s) = cbs s" "os (go g s) = os s"
  by (simp_all add: go_def)

lemma call_cb_sel [simp]:
  "g_node (call_cb c s) = g_node s" "nodes (call_cb c s) = nodes s" "ctxs (call_cb c s) = ctxs s"
  "gos (call_cb c s) = gos s" "nchans (call_cb c s) = nchans s" "cmem (call_cb c s) = cmem s"
  "cbrk (call_cb c s) = cbrk s" "cbs (call_cb c s) = cbs s @ [c]" "os (call_cb c s) = os s"
  by (simp_all add: call_cb_def)

lemma CBytes_free:
  assumes "\<forall>a \<in> dom (cmem s). a < cbrk s"
  shows "C_free (Some (fst (CBytes b s))) (snd (CBytes b s)) = Ret (s\<lparr>cbrk := Suc (cbrk s)\<rparr>)"
proof -
  have "cmem s (cbrk s) = None" using assms by (metis domIff less_irrefl)
  then have "(cmem s)(cbrk s := None) = cmem s" by (simp add: fun_upd_idem)
  then show ?thesis by (simp add: C_free_def CBytes_def)
qed

lemma c_str_CString: "CHR 0x00 \<notin> set str \<Longrightarrow> c_str (str @ [CHR 0x00]) = str"
  by (simp add: c_str_def takeWhile_append)

section \<open>The initial state and the creation of the node\<close>

text \<open>The package variables as the program starts.\<close>

definition init_proc :: "'w os \<Rightarrow> 'w proc" where
  "init_proc sys = \<lparr>
     g_mprome_injected = False, g_mporme_metrics = False, g_plugins_injected = False,
     g_node = None, nodes = [], ctxs = [], gos = [], nchans = 0, cmem = Map.empty, cbrk = 0,
     cbs = [], os = sys\<rparr>"

definition allocate_node :: "cptr \<Rightarrow> cptr \<Rightarrow> 'w proc \<Rightarrow> ipfs_code \<times> 'w proc" where
  "allocate_node scb scb_arg s =
     (if g_node s \<noteq> None then (IPFS_NODE_EXISTS, s)
      else
        (let (c, cs) = WithCancel None (ctxs s);
             n = \<lparr>ctx = c, cctx = None, node = None, api = None, collector = None, cancel = c,
                  next_cancel_signal_id = 0, cancel_signals = Map.empty,
                  state_cb = scb, state_cb_arg = scb_arg, log_cb = None\<rparr>
         in (IPFS_SUCCESS,
             s\<lparr>ctxs := cs, nodes := nodes s @ [n], g_node := Some (length (nodes s))\<rparr>)))"

lemma proc_wf_init_proc: "proc_wf (init_proc sys)"
  by (simp add: proc_wf_def init_proc_def)

lemma node_wf_grow:
  "node_wf cs n \<Longrightarrow> node_wf (snd (WithCancel p cs)) n"
  by (auto simp: node_wf_def nth_WithCancel_old less_Suc_eq)

lemma proc_wf_allocate_node:
  "proc_wf s \<Longrightarrow> proc_wf (snd (allocate_node cb arg s))"
  by (auto simp: allocate_node_def case_prod_beta Let_def proc_wf_def node_wf_grow
      intro: ctx_wf_WithCancel) (simp add: node_wf_def)

text \<open>A file system for the examples: the root, a home directory and nothing else.\<close>

definition demo_os :: "'w \<Rightarrow> 'w os" where
  "demo_os w = \<lparr>files = [''/'' \<mapsto> Dir, ''/home'' \<mapsto> Dir], osfault = (\<lambda>_ _. None),
     oswritten = (\<lambda>_. 0), world = w\<rparr>"

end
