(* ===== verification/Logging.thy ===== *)
theory Logging
  imports Process_State Go_Strings "HOL-Library.List_Lexorder" "HOL-Library.Char_ord"
    "HOL-Library.Multiset"
begin

text \<open>
  \<open>ipfs_log.go\<close>, \<open>redirect_logs\<close> of \<open>node.cpp\<close>, \<open>executeLogCB\<close> of \<open>ipfs_bindings.go\<close> and the printing functions of \<open>ipfs_node.go\<close>: the
  package \<open>log\<close> writes each message as one line to its output, which the C side can redirect to a
  callback. Texts that the printing functions log are lists of lines.
\<close>

unbundle bit_operations_syntax

section \<open>The package log\<close>

text \<open>
  The logger's flags and its output. Of the flags only the date and time bits matter here; the text
  they put in front of a message is a parameter, since it is read off the clock.
\<close>

datatype log_output = Stderr | CustomLog cptr

record logger =
  lg_flags :: "32 word"
  lg_out :: log_output

definition Ldate :: "32 word" where "Ldate = 1"
definition Ltime :: "32 word" where "Ltime = 2"

definition log_header :: "string \<Rightarrow> 32 word \<Rightarrow> string" where
  "log_header stamp flags = (if flags AND (Ldate OR Ltime) \<noteq> 0 then stamp else [])"

text \<open>A line ends with a newline, which is added when the message does not have one.\<close>

definition log_line :: "string \<Rightarrow> string" where
  "log_line msg = (if msg = [] \<or> last msg \<noteq> CHR 0x0A then msg @ [CHR 0x0A] else msg)"

section \<open>Redirection\<close>

definition executeLogCB :: "cptr \<Rightarrow> bytes \<Rightarrow> 'w proc \<Rightarrow> 'w proc outcome" where
  "executeLogCB fn data s =
     (if data = [] then Panic ''slice bounds out of range [:-1]''
      else
        (let (cstr, s) = CString (butlast data) s;
             txt = c_str (the (cmem s cstr))
         in C_free (Some cstr) (call_cb (LogCB fn txt) s)))"

definition CustomLog_Write :: "cptr \<Rightarrow> bytes \<Rightarrow> 'w proc \<Rightarrow> (nat \<times> 'w proc) outcome" where
  "CustomLog_Write lcb data s =
     (if lcb = None then Panic ''CustomLog.Write called while logcb is nil''
      else bind_outcome (executeLogCB lcb data s) (\<lambda>s. Ret (length data, s)))"

definition go_asio_ipfs_redirect_logs :: "cptr \<Rightarrow> logger \<Rightarrow> logger" where
  "go_asio_ipfs_redirect_logs lcb l =
     (let l = (if lcb = None
               then l\<lparr>lg_flags := lg_flags l OR Ldate OR Ltime, lg_out := Stderr\<rparr> else l)
      in l\<lparr>lg_flags := lg_flags l AND NOT (Ldate OR Ltime), lg_out := CustomLog lcb\<rparr>)"

text \<open>Logging a message: what goes to the standard error stream is returned as a list of lines.\<close>

definition log_Output :: "string \<Rightarrow> logger \<Rightarrow> string \<Rightarrow> 'w proc \<Rightarrow> (string list \<times> 'w proc) outcome" where
  "log_Output stamp l msg s =
     (let buf = log_header stamp (lg_flags l) @ log_line msg
      in case lg_out l of
           Stderr \<Rightarrow> Ret ([buf], s)
         | CustomLog lcb \<Rightarrow> bind_outcome (CustomLog_Write lcb buf s) (\<lambda>(n, s). Ret ([], s)))"

text \<open>
  The C++ side keeps the program's function in a static variable; what it registers is the function
  \<open>logCB\<close>, or nothing when the program gives none.
\<close>

definition logCB_ptr :: cptr where "logCB_ptr = Some 1"

definition redirect_logs :: "nat option \<Rightarrow> logger \<Rightarrow> nat option \<times> logger" where
  "redirect_logs logcb l =
     (logcb, if logcb \<noteq> None then go_asio_ipfs_redirect_logs logCB_ptr l else go_asio_ipfs_redirect_logs None l)"

definition logCB :: "nat option \<Rightarrow> string \<Rightarrow> (nat \<times> string) outcome" where
  "logCB user_cb err = (case user_cb of None \<Rightarrow> Panic ''assertion failed: log_cb'' | Some f \<Rightarrow> Ret (f, err))"

section \<open>Printed texts\<close>

definition printVersion :: "string \<Rightarrow> string \<Rightarrow> int \<Rightarrow> string \<Rightarrow> string \<Rightarrow> string \<Rightarrow> string list" where
  "printVersion CurrentVersionNumber CurrentCommit RepoVersion GOARCH GOOS Version =
     (let v = CurrentVersionNumber @ (if CurrentCommit \<noteq> [] then ''-'' @ CurrentCommit else [])
      in [''go-ipfs version: '' @ v, ''Repo version: '' @ FormatInt10 RepoVersion,
          ''System version: '' @ GOARCH @ ''/'' @ GOOS, ''Golang version: '' @ Version])"

definition printPeers :: "goerror + (string \<times> string) list \<Rightarrow> string list" where
  "printPeers r =
     (case r of
        Inl err \<Rightarrow> [''Failed to read swarm peers: '' @ etext err]
      | Inr peers \<Rightarrow>
          (if peers = [] then [''WARNING: IPFS was unable to connect to peers'']
           else map (\<lambda>(i, a). ''IPFS Peer '' @ i @ '' '' @ a) peers))"

definition printSwarmAddrs :: "bool \<Rightarrow> string list \<times> goerror option \<Rightarrow> string list \<Rightarrow> string list" where
  "printSwarmAddrs IsOnline listen Addrs =
     (if \<not> IsOnline then [''Swarm listening disabled, running in offline mode.'']
      else
        (let (ifaceAddrs, err) = listen;
             warn = (case err of None \<Rightarrow> []
               | Some e \<Rightarrow> [''WARNING: failed to read listening addresses: '' @ etext e]);
             lisAddrs = sort ifaceAddrs;
             addrs = sort Addrs
         in warn @ map (\<lambda>a. ''Swarm listening on '' @ a) lisAddrs
              @ map (\<lambda>a. ''Swarm announcing '' @ a) addrs))"

section \<open>Facts\<close>

lemma executeLogCB_eq:
  assumes "\<forall>a \<in> dom (cmem s). a < cbrk s" and "data \<noteq> []"
  shows "executeLogCB fn data s =
    Ret (s\<lparr>cbrk := Suc (cbrk s), cbs := cbs s @ [LogCB fn (c_str (butlast data @ [CHR 0x00]))]\<rparr>)"
proof -
  have "cmem s (cbrk s) = None" using assms(1) by (metis domIff less_irrefl)
  then have "(cmem s)(cbrk s := None) = cmem s" by (simp add: fun_upd_idem)
  with assms(2) show ?thesis
    by (simp add: executeLogCB_def CString_def CBytes_def C_free_def call_cb_def)
qed

lemma flags_cleared: "((x :: 32 word) AND NOT a AND NOT b) AND (a OR b) = 0"
  by (rule bit_eqI) (auto simp: bit_simps)

lemma redirect_header: "log_header stamp (lg_flags (go_asio_ipfs_redirect_logs lcb l)) = []"
  by (simp add: log_header_def go_asio_ipfs_redirect_logs_def Let_def flags_cleared)

lemma redirect_out: "lg_out (go_asio_ipfs_redirect_logs lcb l) = CustomLog lcb"
  by (simp add: go_asio_ipfs_redirect_logs_def Let_def)

lemma log_line_ne [simp]: "log_line msg \<noteq> []"
  by (simp add: log_line_def)

section \<open>Properties\<close>

lemma redirected_log:
  assumes "proc_wf s" and "lcb \<noteq> None"
  shows "log_Output stamp (go_asio_ipfs_redirect_logs lcb l) msg s =
    Ret ([], s\<lparr>cbrk := Suc (cbrk s), cbs := cbs s @ [LogCB lcb
      (c_str ((if msg \<noteq> [] \<and> last msg = CHR 0x0A then butlast msg else msg) @ [CHR 0x00]))]\<rparr>)"
proof -
  have "\<forall>a \<in> dom (cmem s). a < cbrk s" using assms(1) by (simp add: proc_wf_def)
  note cb = executeLogCB_eq [OF this log_line_ne, of lcb msg]
  have "butlast (log_line msg) = (if msg \<noteq> [] \<and> last msg = CHR 0x0A then butlast msg else msg)"
    by (simp add: log_line_def)
  with assms(2) cb show ?thesis
    by (auto simp: log_Output_def redirect_out redirect_header CustomLog_Write_def Let_def)
qed

text \<open>
  C40: with the logs redirected to a function of the program every message reaches it once, through
  the callback of the Go side, without date and time and without its final newline, and up to its
  first zero byte; nothing goes to the standard error stream and no C memory is left behind.
\<close>

theorem redirected_log_reaches_callback:
  assumes "proc_wf s" and "redirect_logs (Some f) l = (user_cb, l')"
  shows "\<exists>t txt. log_Output stamp l' msg s = Ret ([], t) \<and> cmem t = cmem s \<and> cbs t = cbs s @ [LogCB logCB_ptr txt] \<and>
    logCB user_cb txt = Ret (f, txt) \<and>
    txt = c_str ((if msg \<noteq> [] \<and> last msg = CHR 0x0A then butlast msg else msg) @ [CHR 0x00])"
  using assms redirected_log [of s logCB_ptr stamp l msg] by (auto simp: redirect_logs_def logCB_def logCB_ptr_def)

theorem redirected_log_reaches_callback_witness:
  "\<exists>t txt. log_Output ''2024'' (snd (redirect_logs (Some 7) \<lparr>lg_flags = 3, lg_out = Stderr\<rparr>))
      ''ready'' (init_proc (demo_os ())) = Ret ([], t) \<and> cbs t = [LogCB logCB_ptr ''ready''] \<and>
      logCB (Some 7) ''ready'' = Ret (7, ''ready'')"
proof -
  have "c_str (''ready'' @ [CHR 0x00]) = ''ready''" by (rule c_str_CString) simp
  moreover have "redirect_logs (Some 7) l = (Some 7, snd (redirect_logs (Some 7) l))" for l
    by (simp add: redirect_logs_def)
  ultimately show ?thesis
    using redirected_log_reaches_callback [OF proc_wf_init_proc [of "demo_os ()"], of 7 _ "Some 7" _ "''2024''" "''ready''"]
    by (fastforce simp: init_proc_def)
qed

text \<open>
  Undoing the redirection does not work. After redirecting to nil the output is not the standard
  error stream but a log with a nil callback, and the next message of any kind panics.
\<close>

theorem redirect_to_nil_panics:
  "is_panic (log_Output stamp (snd (redirect_logs None l)) msg s) \<and> lg_out (snd (redirect_logs None l)) \<noteq> Stderr"
  by (simp add: redirect_logs_def log_Output_def redirect_out CustomLog_Write_def)

text \<open>
  The addresses of a node that is online are printed completely and in sorted order, first the
  ones it listens on and then the ones it announces; an error in reading the former is printed and
  does not hide the rest.
\<close>

theorem swarm_addresses_printed_sorted:
  "\<exists>ls as w. printSwarmAddrs True (ifs, err) addrs =
      w @ map (\<lambda>a. ''Swarm listening on '' @ a) ls @ map (\<lambda>a. ''Swarm announcing '' @ a) as \<and>
    sorted ls \<and> mset ls = mset ifs \<and> sorted as \<and> mset as = mset addrs \<and>
    (w = [] \<longleftrightarrow> err = None)"
proof -
  let ?w = "case err of None \<Rightarrow> [] | Some e \<Rightarrow> [''WARNING: failed to read listening addresses: '' @ etext e]"
  have "printSwarmAddrs True (ifs, err) addrs = ?w @ map (\<lambda>a. ''Swarm listening on '' @ a) (sort ifs)
      @ map (\<lambda>a. ''Swarm announcing '' @ a) (sort addrs)"
    by (simp add: printSwarmAddrs_def Let_def)
  moreover have "?w = [] \<longleftrightarrow> err = None" by (cases err) simp_all
  ultimately show ?thesis by (intro exI [of _ "sort ifs"] exI [of _ "sort addrs"] exI [of _ ?w]) simp
qed

end
