(* ===== verification/Repo.thy ===== *)
theory Repo
  imports Process_State
begin

text \<open>
  \<open>ipfs_repo.go\<close> and the file operations of \<open>ipfs_config.go\<close>: the lock file that freezes the stored
  configuration, the swarm key file, the writability check, and creating and opening a repository.
  The calls of the package \<open>os\<close> act on the modelled files; go-ipfs's own functions are parameters,
  collected in \<open>repo_lib\<close>, which extends the parameters of the configuration code.
\<close>

section \<open>The package os\<close>

text \<open>
  Paths are resolved lexically, against one fixed working directory and without symbolic links. A
  fault that the system reports for an operation on a path takes precedence; otherwise the
  operation does what it says. \<open>os_Remove\<close> is called on a file that was just created, so removing
  directories is left out.
\<close>

definition err_noent :: "string \<Rightarrow> string \<Rightarrow> goerror" where
  "err_noent opn p = \<lparr>ekind = KNotExist, etext = opn @ '' '' @ p @ '': no such file or directory''\<rparr>"

definition err_os :: "string \<Rightarrow> string \<Rightarrow> string \<Rightarrow> goerror" where
  "err_os opn p msg = \<lparr>ekind = KOther, etext = opn @ '' '' @ p @ '': '' @ msg\<rparr>"

definition os_Stat :: "string \<Rightarrow> 'w os \<Rightarrow> goerror option" where
  "os_Stat p sys =
     (if p = [] then Some (err_noent ''stat'' p)
      else case osfault sys OpStat (Clean p) of
             Some e \<Rightarrow> Some e
           | None \<Rightarrow>
               (if files sys (Clean p) \<noteq> None then None
                else case files sys (parent_dir (Clean p)) of
                       Some (File b) \<Rightarrow> Some (err_os ''stat'' p ''not a directory'')
                     | _ \<Rightarrow> Some (err_noent ''stat'' p)))"

text \<open>What stops an entry from being made in the directory it would lie in.\<close>

definition parent_err :: "string \<Rightarrow> string \<Rightarrow> 'w os \<Rightarrow> goerror option" where
  "parent_err opn p sys =
     (case files sys (parent_dir (Clean p)) of
        None \<Rightarrow> Some (err_noent opn p)
      | Some (File b) \<Rightarrow> Some (err_os opn p ''not a directory'')
      | Some Dir \<Rightarrow> None)"

definition os_Create :: "string \<Rightarrow> 'w os \<Rightarrow> (goerror + string) \<times> 'w os" where
  "os_Create p sys =
     (if p = [] then (Inl (err_noent ''open'' p), sys)
      else case osfault sys OpCreate (Clean p) of
             Some e \<Rightarrow> (Inl e, sys)
           | None \<Rightarrow>
               (if files sys (Clean p) = Some Dir then (Inl (err_os ''open'' p ''is a directory''), sys)
                else case parent_err ''open'' p sys of
                       Some e \<Rightarrow> (Inl e, sys)
                     | None \<Rightarrow> (Inr (Clean p), sys\<lparr>files := (files sys)(Clean p \<mapsto> File [])\<rparr>)))"

definition os_Write :: "string \<Rightarrow> bytes \<Rightarrow> 'w os \<Rightarrow> goerror option \<times> 'w os" where
  "os_Write f b sys =
     (let old = (case files sys f of Some (File x) \<Rightarrow> x | _ \<Rightarrow> [])
      in case osfault sys OpWrite f of
           Some e \<Rightarrow> (Some e, sys\<lparr>files := (files sys)(f \<mapsto> File (old @ take (oswritten sys f) b))\<rparr>)
         | None \<Rightarrow> (None, sys\<lparr>files := (files sys)(f \<mapsto> File (old @ b))\<rparr>))"

definition os_Mkdir :: "string \<Rightarrow> 'w os \<Rightarrow> goerror option \<times> 'w os" where
  "os_Mkdir p sys =
     (if p = [] then (Some (err_noent ''mkdir'' p), sys)
      else case osfault sys OpMkdir (Clean p) of
             Some e \<Rightarrow> (Some e, sys)
           | None \<Rightarrow>
               (if files sys (Clean p) \<noteq> None then (Some (err_os ''mkdir'' p ''file exists''), sys)
                else case parent_err ''mkdir'' p sys of
                       Some e \<Rightarrow> (Some e, sys)
                     | None \<Rightarrow> (None, sys\<lparr>files := (files sys)(Clean p \<mapsto> Dir)\<rparr>)))"

definition os_Remove :: "string \<Rightarrow> 'w os \<Rightarrow> goerror option \<times> 'w os" where
  "os_Remove p sys =
     (case osfault sys OpRemove (Clean p) of
        Some e \<Rightarrow> (Some e, sys)
      | None \<Rightarrow>
          (case files sys (Clean p) of
             None \<Rightarrow> (Some (err_noent ''remove'' p), sys)
           | Some Dir \<Rightarrow> (Some (err_os ''remove'' p ''directory not empty''), sys)
           | Some (File b) \<Rightarrow> (None, sys\<lparr>files := (files sys)(Clean p := None)\<rparr>)))"

section \<open>Files in the repository\<close>

definition configLock :: string where
  "configLock = ''config.lock''"

definition configUnlocked :: "string \<Rightarrow> 'w os \<Rightarrow> bool" where
  "configUnlocked repoRoot sys =
     (case os_Stat (formRepoPath repoRoot configLock) sys of
        Some err \<Rightarrow> ekind err = KNotExist
      | None \<Rightarrow> False)"

definition updateRepo :: "string \<Rightarrow> AsioConfig \<Rightarrow> 'w os \<Rightarrow> goerror option \<times> 'w os" where
  "updateRepo repoRoot acfg sys =
     (if SwarmKey acfg = [] then (None, sys)
      else
        (let spath = formRepoPath repoRoot ''swarm.key''
         in case os_Create spath sys of
              (Inl err, sys) \<Rightarrow> (Some err, sys)
            | (Inr f, sys) \<Rightarrow> os_Write f (SwarmKey acfg) sys))"

definition checkWritable :: "string \<Rightarrow> 'w os \<Rightarrow> goerror option \<times> 'w os" where
  "checkWritable dir sys =
     (case os_Stat dir sys of
        None \<Rightarrow>
          (let testfile = Join [dir, ''test'']
           in case os_Create testfile sys of
                (Inl err, sys) \<Rightarrow>
                  (Some (if ekind err = KPermission
                         then Errorf (dir @ '' is not writeable by the current user'')
                         else Errorf (''unexpected error while checking writeablility of repo root: ''
                                      @ etext err)), sys)
              | (Inr fi, sys) \<Rightarrow> os_Remove testfile sys)
      | Some err \<Rightarrow>
          (if ekind err = KNotExist then os_Mkdir dir sys
           else if ekind err = KPermission
           then (Some (Errorf (''cannot write to '' @ etext err @ '', incorrect permissions'')), sys)
           else (Some err, sys)))"

section \<open>Creating and opening a repository\<close>

record 'w repo_lib = cfg_lib +
  config_CreateIdentity :: "'w os \<Rightarrow> (goerror + handle) \<times> 'w os"
  config_InitWithIdentity :: "handle \<Rightarrow> goerror + Config"
  config_Profiles :: "string \<Rightarrow> (Config \<Rightarrow> Config \<times> goerror option) option"
  config_Clone :: "Config \<Rightarrow> goerror + Config"
  fsrepo_IsInitialized :: "string \<Rightarrow> 'w os \<Rightarrow> bool"
  fsrepo_Init :: "string \<Rightarrow> Config \<Rightarrow> 'w os \<Rightarrow> goerror option \<times> 'w os"
  fsrepo_Open :: "string \<Rightarrow> 'w os \<Rightarrow> (goerror + handle) \<times> 'w os"
  repo_Config :: "handle \<Rightarrow> 'w os \<Rightarrow> goerror + Config"
  repo_SetConfig :: "handle \<Rightarrow> Config \<Rightarrow> 'w os \<Rightarrow> goerror option \<times> 'w os"

text \<open>The default profile, when the settings name one.\<close>

definition applyProfile ::
  "('w, 'z) repo_lib_scheme \<Rightarrow> AsioConfig \<Rightarrow> Config \<Rightarrow> goerror + Config" where
  "applyProfile lib asiocfg conf =
     (if DefaultProfile asiocfg = [] then Inr conf
      else case config_Profiles lib (DefaultProfile asiocfg) of
             None \<Rightarrow> Inl (Errorf ''Unable to find default server profile.'')
           | Some transform \<Rightarrow>
               (case transform conf of (conf, Some err) \<Rightarrow> Inl err | (conf, None) \<Rightarrow> Inr conf))"

definition initRepo ::
  "('w, 'z) repo_lib_scheme \<Rightarrow> string \<Rightarrow> AsioConfig \<Rightarrow> 'w os \<Rightarrow> goerror option \<times> 'w os" where
  "initRepo lib repoRoot asiocfg sys =
     (case config_CreateIdentity lib sys of
        (Inl err, sys) \<Rightarrow> (Some err, sys)
      | (Inr identity, sys) \<Rightarrow>
     (case config_InitWithIdentity lib identity of
        Inl err \<Rightarrow> (Some err, sys)
      | Inr conf \<Rightarrow>
     (case checkWritable repoRoot sys of
        (Some err, sys) \<Rightarrow> (Some err, sys)
      | (None, sys) \<Rightarrow>
     (if fsrepo_IsInitialized lib repoRoot sys
      then (Some (Errorf (''Repo already exists at '' @ repoRoot)), sys)
      else
     (case applyProfile lib asiocfg conf of
        Inl err \<Rightarrow> (Some err, sys)
      | Inr conf \<Rightarrow>
     (case updateConfig lib conf asiocfg of
        (conf, Some err) \<Rightarrow> (Some err, sys)
      | (conf, None) \<Rightarrow>
     (case fsrepo_Init lib repoRoot conf sys of
        (Some err, sys) \<Rightarrow> (Some err, sys)
      | (None, sys) \<Rightarrow> updateRepo repoRoot asiocfg sys)))))))"

definition openRepo ::
  "('w, 'z) repo_lib_scheme \<Rightarrow> string \<Rightarrow> AsioConfig \<Rightarrow> 'w os \<Rightarrow> (goerror + handle) \<times> 'w os" where
  "openRepo lib repoRoot asiocfg sys =
     (case fsrepo_Open lib repoRoot sys of
        (Inl err, sys) \<Rightarrow> (Inl err, sys)
      | (Inr repo, sys) \<Rightarrow>
     (case repo_Config lib repo sys of
        Inl err \<Rightarrow> (Inl err, sys)
      | Inr conf \<Rightarrow>
     (case config_Clone lib conf of
        Inl err \<Rightarrow> (Inl err, sys)
      | Inr conf \<Rightarrow>
     (if \<not> configUnlocked repoRoot sys then (Inr repo, sys)
      else
     (case updateConfig lib conf asiocfg of
        (conf, Some err) \<Rightarrow> (Inl err, sys)
      | (conf, None) \<Rightarrow>
     (case repo_SetConfig lib repo conf sys of
        (Some err, sys) \<Rightarrow> (Inl err, sys)
      | (None, sys) \<Rightarrow>
     (case updateRepo repoRoot asiocfg sys of
        (Some err, sys) \<Rightarrow> (Inl err, sys)
      | (None, sys) \<Rightarrow> (Inr repo, sys))))))))"

section \<open>Facts\<close>

lemma plain_swarm_key [simp]: "plain_name ''swarm.key''" "plain_name ''config.lock''" "plain_name ''test''"
  by (simp_all add: plain_name_def)

lemma parent_err_None: "parent_err opn p sys = None \<longleftrightarrow> files sys (parent_dir (Clean p)) = Some Dir"
  by (simp add: parent_err_def split: option.split fentry.split)

lemma os_Create_Inr:
  "os_Create p sys = (Inr f, sys') \<Longrightarrow>
   f = Clean p \<and> sys' = sys\<lparr>files := (files sys)(Clean p \<mapsto> File [])\<rparr> \<and>
   files sys (parent_dir (Clean p)) = Some Dir \<and> files sys (Clean p) \<noteq> Some Dir"
  by (auto simp: os_Create_def parent_err_None split: if_splits option.splits)

lemma os_Create_Inl: "os_Create p sys = (Inl e, sys') \<Longrightarrow> sys' = sys"
  by (auto simp: os_Create_def split: if_splits option.splits)

lemma os_Mkdir_effect:
  "os_Mkdir p sys = (r, sys') \<Longrightarrow>
   sys' = (if r = None then sys\<lparr>files := (files sys)(Clean p \<mapsto> Dir)\<rparr> else sys)"
  by (auto simp: os_Mkdir_def split: if_splits option.splits)

lemma os_Mkdir_None: "os_Mkdir p sys = (None, sys') \<Longrightarrow> files sys (Clean p) = None"
  by (auto simp: os_Mkdir_def split: if_splits option.splits)

lemma os_Stat_None: "os_Stat p sys = None \<Longrightarrow> files sys (Clean p) \<noteq> None"
  by (auto simp: os_Stat_def split: if_splits option.splits fentry.splits)

lemma os_Write_None:
  "os_Write f b sys = (None, sys') \<Longrightarrow>
   sys' = sys\<lparr>files := (files sys)(f \<mapsto> File ((case files sys f of Some (File x) \<Rightarrow> x | _ \<Rightarrow> []) @ b))\<rparr>"
  by (auto simp: os_Write_def Let_def split: option.splits)

lemma os_Write_other:
  "os_Write f b sys = (r, sys') \<Longrightarrow> q \<noteq> f \<Longrightarrow> files sys' q = files sys q"
  by (auto simp: os_Write_def Let_def split: option.splits)

lemma os_Remove_None:
  "os_Remove p sys = (None, sys') \<Longrightarrow> sys' = sys\<lparr>files := (files sys)(Clean p := None)\<rparr>"
  by (auto simp: os_Remove_def split: option.splits fentry.splits)

lemma updateRepo_success:
  assumes "updateRepo repoRoot acfg sys = (None, sys')"
  shows "sys' = (if SwarmKey acfg = [] then sys
    else sys\<lparr>files := (files sys)(formRepoPath repoRoot ''swarm.key'' \<mapsto> File (SwarmKey acfg))\<rparr>)"
  using assms
  by (auto simp: updateRepo_def Let_def split: if_splits prod.splits sum.splits
      dest!: os_Create_Inr os_Write_None)

lemma updateRepo_others:
  assumes "updateRepo repoRoot acfg sys = (r, sys')" and "q \<noteq> formRepoPath repoRoot ''swarm.key''"
  shows "files sys' q = files sys q"
  using assms
  by (auto simp: updateRepo_def Let_def split: if_splits prod.splits sum.splits
      dest!: os_Create_Inr os_Create_Inl dest: os_Write_other)

lemma initRepo_success:
  assumes "initRepo lib repoRoot asiocfg sys = (None, sys')"
  obtains identity s1 conf0 s2 conf1 conf s3 where
    "config_CreateIdentity lib sys = (Inr identity, s1)"
    "config_InitWithIdentity lib identity = Inr conf0"
    "checkWritable repoRoot s1 = (None, s2)" "\<not> fsrepo_IsInitialized lib repoRoot s2"
    "applyProfile lib asiocfg conf0 = Inr conf1" "updateConfig lib conf1 asiocfg = (conf, None)"
    "fsrepo_Init lib repoRoot conf s2 = (None, s3)" "updateRepo repoRoot asiocfg s3 = (None, sys')"
  using assms unfolding initRepo_def
  by (auto split: prod.splits sum.splits option.splits if_splits)

lemma openRepo_success:
  assumes "openRepo lib repoRoot asiocfg sys = (Inr repo, sys')"
  obtains (locked) s1 where "fsrepo_Open lib repoRoot sys = (Inr repo, s1)"
      "\<not> configUnlocked repoRoot s1" "sys' = s1"
  | (unlocked) s1 conf0 conf1 conf s2 where "fsrepo_Open lib repoRoot sys = (Inr repo, s1)"
      "configUnlocked repoRoot s1" "repo_Config lib repo s1 = Inr conf0"
      "config_Clone lib conf0 = Inr conf1" "updateConfig lib conf1 asiocfg = (conf, None)"
      "repo_SetConfig lib repo conf s1 = (None, s2)" "updateRepo repoRoot asiocfg s2 = (None, sys')"
  using assms unfolding openRepo_def
  by (auto split: prod.splits sum.splits option.splits if_splits)

lemma applyProfile_Inr:
  "applyProfile lib c conf0 = Inr conf1 \<Longrightarrow> DefaultProfile c = [] \<and> conf1 = conf0 \<or>
     DefaultProfile c \<noteq> [] \<and> (\<exists>transform. config_Profiles lib (DefaultProfile c) = Some transform \<and>
       transform conf0 = (conf1, None))"
  by (auto simp: applyProfile_def split: if_splits option.splits prod.splits)

text \<open>The lock file decides, unless asking for it fails.\<close>

lemma lock_path: "formRepoPath repoRoot ''config.lock'' = Join [Clean repoRoot, ''config.lock'']"
  by (simp add: formRepoPath_def)

lemma lock_file_locks:
  assumes "files sys (Join [Clean repoRoot, ''config.lock'']) \<noteq> None"
    and "\<forall>e. osfault sys OpStat (Join [Clean repoRoot, ''config.lock'']) = Some e \<longrightarrow> ekind e \<noteq> KNotExist"
  shows "\<not> configUnlocked repoRoot sys"
  using assms [folded lock_path]
  by (auto simp: configUnlocked_def configLock_def os_Stat_def formRepoPath_eq Clean_ne Clean_idem
      split: option.split)

lemma no_lock_file_unlocks:
  assumes "files sys (Clean repoRoot) = Some Dir"
    and "files sys (Join [Clean repoRoot, ''config.lock'']) = None"
    and "osfault sys OpStat (Join [Clean repoRoot, ''config.lock'']) = None"
  shows "configUnlocked repoRoot sys"
  using assms [folded lock_path]
  by (simp add: configUnlocked_def configLock_def os_Stat_def err_noent_def parent_dir_formRepoPath)

text \<open>
  What go-ipfs documents. A clone of a configuration is equal to it. An open repository keeps the
  configuration in memory, so that what was set is what is read, whatever happens to the files. A
  repository that was initialised is opened with the configuration it was initialised with, and the
  swarm key is not part of that.
\<close>

definition clone_ok :: "('w, 'z) repo_lib_scheme \<Rightarrow> bool" where
  "clone_ok lib \<longleftrightarrow> (\<forall>conf conf'. config_Clone lib conf = Inr conf' \<longrightarrow> conf' = conf)"

definition repo_memory_ok :: "('w, 'z) repo_lib_scheme \<Rightarrow> bool" where
  "repo_memory_ok lib \<longleftrightarrow>
     (\<forall>repo conf sys sys' fs. repo_SetConfig lib repo conf sys = (None, sys') \<longrightarrow>
        repo_Config lib repo (sys'\<lparr>files := fs\<rparr>) = Inr conf)"

definition init_ok :: "('w, 'z) repo_lib_scheme \<Rightarrow> bool" where
  "init_ok lib \<longleftrightarrow>
     (\<forall>root conf sys sys' fs repo sys''. \<not> fsrepo_IsInitialized lib root sys \<and>
        fsrepo_Init lib root conf sys = (None, sys') \<and>
        (\<forall>q. q \<noteq> formRepoPath root ''swarm.key'' \<longrightarrow> fs q = files sys' q) \<and>
        fsrepo_Open lib root (sys'\<lparr>files := fs\<rparr>) = (Inr repo, sys'') \<longrightarrow>
        repo_Config lib repo sys'' = Inr conf)"

lemma stored_config_is_read:
  assumes "repo_memory_ok lib" and "repo_SetConfig lib repo conf sys = (None, s2)"
    and "updateRepo repoRoot c s2 = (None, sys')"
  shows "repo_Config lib repo sys' = Inr conf"
proof -
  have "sys' = s2\<lparr>files := files sys'\<rparr>" using updateRepo_success [OF assms(3)] by simp
  with assms(1,2) show ?thesis unfolding repo_memory_ok_def by metis
qed

section \<open>A library for the examples\<close>

text \<open>The stored configuration of the one repository is the state of the libraries.\<close>

definition demo_repo_lib :: "Config option repo_lib" where
  "demo_repo_lib = cfg_lib.extend demo_lib (repo_lib.fields
     (\<lambda>sys. (Inr 7, sys))
     (\<lambda>identity. Inr demo_conf)
     [''server'' \<mapsto> (\<lambda>c. (c\<lparr>Bootstrap_Peers := []\<rparr>, None))]
     Inr
     (\<lambda>root sys. files sys (formRepoPath root ''config'') \<noteq> None)
     (\<lambda>root conf sys. (None, sys\<lparr>files := (files sys)(formRepoPath root ''config'' \<mapsto> File []),
        world := Some conf\<rparr>))
     (\<lambda>root sys. (if world sys = None then Inl (Errorf ''no repo'') else Inr 1, sys))
     (\<lambda>r sys. case world sys of None \<Rightarrow> Inl (Errorf ''no config'') | Some c \<Rightarrow> Inr c)
     (\<lambda>r conf sys. (None, sys\<lparr>world := Some conf\<rparr>)))"

definition demo_used_os :: "Config option os" where
  "demo_used_os = (demo_os None)\<lparr>files := [''/'' \<mapsto> Dir, ''/home'' \<mapsto> Dir](''/home/config'' \<mapsto> File ''old'')\<rparr>"

definition demo_locked_os :: "Config \<Rightarrow> Config option os" where
  "demo_locked_os conf = (demo_os (Some conf))\<lparr>files :=
     [''/'' \<mapsto> Dir, ''/home'' \<mapsto> Dir](''/home/config.lock'' \<mapsto> File [])\<rparr>"

section \<open>Properties\<close>

text \<open>
  The only traces a successful \<open>checkWritable\<close> leaves are a directory at the given path when
  there was nothing there, and otherwise the absence of an entry \<open>test\<close> in it; every other file is
  as it was.
\<close>

theorem checkWritable_effect:
  assumes "checkWritable dir sys = (None, sys')"
  shows "sys' = sys\<lparr>files :=
    (if files sys (Clean dir) = None then (files sys)(Clean dir \<mapsto> Dir)
     else (files sys)(Clean (Join [dir, ''test'']) := None))\<rparr>"
proof (cases "os_Stat dir sys")
  case None
  with assms obtain f s1 where "os_Create (Join [dir, ''test'']) sys = (Inr f, s1)"
    "os_Remove (Join [dir, ''test'']) s1 = (None, sys')"
    by (auto simp: checkWritable_def Let_def split: prod.splits sum.splits)
  with None show ?thesis
    by (auto dest!: os_Create_Inr os_Remove_None os_Stat_None)
next
  case (Some e)
  with assms have "os_Mkdir dir sys = (None, sys')"
    by (auto simp: checkWritable_def split: if_splits)
  then show ?thesis by (auto dest: os_Mkdir_effect os_Mkdir_None)
qed

theorem checkWritable_effect_witness:
  "files (snd (checkWritable ''/home/repo'' (demo_os ()))) ''/home/repo'' = Some Dir"
proof -
  have "checkWritable ''/home/repo'' (demo_os ())
      = (None, snd (checkWritable ''/home/repo'' (demo_os ())))"
    by (simp add: prod_eq_iff) code_simp
  note effect = checkWritable_effect [OF this]
  have "Clean ''/home/repo'' = ''/home/repo''" by code_simp
  moreover from this have "files (demo_os ()) (Clean ''/home/repo'') = None"
    by (simp add: demo_os_def)
  ultimately show ?thesis by (simp add: effect)
qed

text \<open>
  C28: the writability check destroys data: a file \<open>test\<close> that the user already had in the
  repository directory is truncated and deleted, and the check reports success.
\<close>

theorem checkWritable_deletes_test:
  assumes "dir \<noteq> []" and "files sys (Clean dir) = Some Dir"
    and "files sys (Join [dir, ''test'']) = Some (File b)" and "osfault sys = (\<lambda>_ _. None)"
  shows "fst (checkWritable dir sys) = None \<and>
    files (snd (checkWritable dir sys)) (Join [dir, ''test'']) = None"
proof -
  let ?t = "Join [dir, ''test'']"
  have t: "Clean ?t = ?t" "?t \<noteq> []"
    using assms(1) fpath.join_is_clean [of dir "''test''"] Clean_ne [of "?t"] by auto
  have "parent_dir ?t = Clean dir"
    using assms(1) by (simp add: fpath.join_clean parent_dir_entry)
  with assms t show ?thesis
    by (simp add: checkWritable_def os_Stat_def os_Create_def os_Remove_def parent_err_def)
qed

theorem checkWritable_deletes_test_witness:
  "files (snd (checkWritable ''/home'' ((demo_os ())\<lparr>files := (files (demo_os ()))(''/home/test'' \<mapsto> File ''data'')\<rparr>)))
     ''/home/test'' = None"
proof -
  have "Join [''/home'', ''test''] = ''/home/test''" "Clean ''/home'' = ''/home''" by code_simp+
  with checkWritable_deletes_test [of "''/home''"
      "(demo_os ())\<lparr>files := (files (demo_os ()))(''/home/test'' \<mapsto> File ''data'')\<rparr>" "''data''"]
  show ?thesis by (simp add: demo_os_def)
qed

text \<open>
  C27: \<open>updateRepo\<close> stores the swarm key, whole, in \<open>swarm.key\<close> directly in the repository directory;
  without a key it touches nothing, and in every case, errors included, it touches no other file.
\<close>

theorem updateRepo_stores_key:
  assumes "updateRepo repoRoot acfg sys = (r, sys')"
  shows "(\<forall>q. q \<noteq> formRepoPath repoRoot ''swarm.key'' \<longrightarrow> files sys' q = files sys q) \<and>
    parent_dir (formRepoPath repoRoot ''swarm.key'') = Clean repoRoot \<and>
    (SwarmKey acfg = [] \<longrightarrow> r = None \<and> sys' = sys) \<and>
    (r = None \<and> SwarmKey acfg \<noteq> [] \<longrightarrow>
       files sys' (formRepoPath repoRoot ''swarm.key'') = Some (File (SwarmKey acfg)))"
proof -
  have "r = None \<and> sys' = sys" if "SwarmKey acfg = []"
    using assms that by (simp add: updateRepo_def)
  then show ?thesis
    using assms updateRepo_success [of repoRoot acfg sys sys'] updateRepo_others [OF assms]
    by (auto simp: parent_dir_formRepoPath)
qed

theorem updateRepo_stores_key_witness:
  "files (snd (updateRepo ''/home/'' demo_settings (demo_os ()))) ''/home/swarm.key'' = Some (File ''key'')"
proof -
  have "updateRepo ''/home/'' demo_settings (demo_os ())
      = (None, snd (updateRepo ''/home/'' demo_settings (demo_os ())))"
    by (simp add: prod_eq_iff) code_simp
  moreover have "formRepoPath ''/home/'' ''swarm.key'' = ''/home/swarm.key''" by code_simp
  ultimately show ?thesis
    using updateRepo_stores_key [of "''/home/''" demo_settings "demo_os ()"]
    by (simp add: demo_settings_def)
qed

text \<open>
  \<open>initRepo\<close> never initialises a repository that is already initialised: it then reports an
  error, and the only effects are those of creating an identity and of the writability check.
\<close>

theorem initRepo_keeps_existing:
  assumes "config_CreateIdentity lib sys = (Inr identity, s1)"
    and "checkWritable repoRoot s1 = (r, s2)" and "fsrepo_IsInitialized lib repoRoot s2"
  shows "\<exists>err. initRepo lib repoRoot asiocfg sys = (Some err, s1) \<or>
    initRepo lib repoRoot asiocfg sys = (Some err, s2)"
  using assms by (auto simp: initRepo_def split: sum.splits option.splits)

theorem initRepo_keeps_existing_witness:
  "\<exists>err. initRepo demo_repo_lib ''/home'' demo_settings demo_used_os = (Some err, demo_used_os) \<or>
     initRepo demo_repo_lib ''/home'' demo_settings demo_used_os
       = (Some err, snd (checkWritable ''/home'' demo_used_os))"
proof (rule initRepo_keeps_existing)
  show "config_CreateIdentity demo_repo_lib demo_used_os = (Inr 7, demo_used_os)"
    by (simp add: demo_repo_lib_def cfg_lib.defs repo_lib.defs)
  show "checkWritable ''/home'' demo_used_os = (fst (checkWritable ''/home'' demo_used_os),
      snd (checkWritable ''/home'' demo_used_os))"
    by simp
  show "fsrepo_IsInitialized demo_repo_lib ''/home'' (snd (checkWritable ''/home'' demo_used_os))"
    by code_simp
qed

text \<open>
  C26: a repository that \<open>initRepo\<close> created was not initialised before, and opening it gives the
  configuration of a freshly created identity, changed by the default profile when the settings name
  one and then by every setting; the swarm key is in its file when there is one.
\<close>

theorem initRepo_stores_settings:
  assumes "init_ok lib" and "initRepo lib repoRoot c sys = (None, sys')"
    and "fsrepo_Open lib repoRoot sys' = (Inr repo, sys'')"
  shows "\<exists>identity sys1 conf0 conf1 conf.
    config_CreateIdentity lib sys = (Inr identity, sys1) \<and>
    config_InitWithIdentity lib identity = Inr conf0 \<and>
    \<not> fsrepo_IsInitialized lib repoRoot (snd (checkWritable repoRoot sys1)) \<and>
    (DefaultProfile c = [] \<and> conf1 = conf0 \<or>
      DefaultProfile c \<noteq> [] \<and> (\<exists>transform. config_Profiles lib (DefaultProfile c) = Some transform \<and>
        transform conf0 = (conf1, None))) \<and>
    updateConfig lib conf1 c = (conf, None) \<and> repo_Config lib repo sys'' = Inr conf \<and>
    (SwarmKey c = [] \<or> files sys' (Join [Clean repoRoot, ''swarm.key'']) = Some (File (SwarmKey c)))"
proof -
  from assms(2) obtain identity sys1 conf0 s2 conf1 conf s3 where
    *: "config_CreateIdentity lib sys = (Inr identity, sys1)" "config_InitWithIdentity lib identity = Inr conf0"
    "checkWritable repoRoot sys1 = (None, s2)" "\<not> fsrepo_IsInitialized lib repoRoot s2"
    "applyProfile lib c conf0 = Inr conf1" "updateConfig lib conf1 c = (conf, None)"
    "fsrepo_Init lib repoRoot conf s2 = (None, s3)" "updateRepo repoRoot c s3 = (None, sys')"
    by (rule initRepo_success)
  have "sys' = s3\<lparr>files := files sys'\<rparr>" using updateRepo_success [OF *(8)] by simp
  moreover have "\<forall>q. q \<noteq> formRepoPath repoRoot ''swarm.key'' \<longrightarrow> files sys' q = files s3 q"
    using updateRepo_others [OF *(8)] by simp
  ultimately have "repo_Config lib repo sys'' = Inr conf"
    using assms(1,3) *(4,7) unfolding init_ok_def by metis
  moreover have "SwarmKey c = [] \<or> files sys' (Join [Clean repoRoot, ''swarm.key'']) = Some (File (SwarmKey c))"
    using updateRepo_success [OF *(8)] by (simp add: formRepoPath_def)
  ultimately show ?thesis using * applyProfile_Inr [OF *(5)] by auto
qed

lemma demo_init_ok: "init_ok demo_repo_lib"
  by (auto simp: init_ok_def demo_repo_lib_def cfg_lib.defs repo_lib.defs)

theorem initRepo_stores_settings_witness:
  "\<exists>conf0 conf1 conf sys'. config_InitWithIdentity demo_repo_lib 7 = Inr conf0 \<and>
    initRepo demo_repo_lib ''/home/r'' demo_settings (demo_os None) = (None, sys') \<and>
    updateConfig demo_repo_lib conf1 demo_settings = (conf, None) \<and>
    repo_Config demo_repo_lib 1 sys' = Inr conf \<and> Routing_Type conf = ''dht'' \<and>
    files sys' ''/home/r/swarm.key'' = Some (File ''key'')"
proof -
  let ?s = "snd (initRepo demo_repo_lib ''/home/r'' demo_settings (demo_os None))"
  have i: "initRepo demo_repo_lib ''/home/r'' demo_settings (demo_os None) = (None, ?s)"
    by (simp add: prod_eq_iff) code_simp
  have "world ?s \<noteq> None" by code_simp
  then have "fsrepo_Open demo_repo_lib ''/home/r'' ?s = (Inr 1, ?s)"
    by (simp add: demo_repo_lib_def cfg_lib.defs repo_lib.defs)
  moreover have "Join [Clean ''/home/r'', ''swarm.key''] = ''/home/r/swarm.key''" by code_simp
  moreover have "config_CreateIdentity demo_repo_lib (demo_os None) = (Inr 7, demo_os None)"
    by (simp add: demo_repo_lib_def cfg_lib.defs repo_lib.defs)
  ultimately obtain conf0 conf1 conf where "config_InitWithIdentity demo_repo_lib 7 = Inr conf0"
    "updateConfig demo_repo_lib conf1 demo_settings = (conf, None)" "repo_Config demo_repo_lib 1 ?s = Inr conf"
    "files ?s ''/home/r/swarm.key'' = Some (File ''key'')"
    using initRepo_stores_settings [OF demo_init_ok i] by (auto simp: demo_settings_def)
  moreover have "Routing_Type conf = ''dht''"
    using calculation updateConfig_stored(1) by (fastforce simp: demo_settings_def)
  ultimately show ?thesis using i by blast
qed

text \<open>
  C24: with a file \<open>config.lock\<close> in the repository directory, on every path through \<open>openRepo\<close>,
  nothing is written after the repository was opened: neither the stored configuration nor the swarm
  key changes. What is returned does not depend on the settings, and it is the repository that was
  opened, with the configuration it had.
\<close>

theorem openRepo_locked_writes_nothing:
  assumes "fsrepo_Open lib repoRoot sys = (r, s1)"
    and "files s1 (Join [Clean repoRoot, ''config.lock'']) \<noteq> None"
    and "\<forall>e. osfault s1 OpStat (Join [Clean repoRoot, ''config.lock'']) = Some e \<longrightarrow> ekind e \<noteq> KNotExist"
  shows "snd (openRepo lib repoRoot c sys) = s1 \<and>
    openRepo lib repoRoot c' sys = openRepo lib repoRoot c sys \<and>
    (\<forall>repo conf conf'. r = Inr repo \<and> repo_Config lib repo s1 = Inr conf \<and>
       config_Clone lib conf = Inr conf' \<longrightarrow> fst (openRepo lib repoRoot c sys) = Inr repo)"
proof -
  have "\<not> configUnlocked repoRoot s1" using assms(2,3) by (rule lock_file_locks)
  with assms(1) show ?thesis by (auto simp: openRepo_def split: sum.split)
qed

theorem openRepo_locked_writes_nothing_witness:
  "openRepo demo_repo_lib ''/home'' demo_settings (demo_locked_os demo_conf)
   = (Inr 1, demo_locked_os demo_conf)"
proof -
  have o: "fsrepo_Open demo_repo_lib ''/home'' (demo_locked_os demo_conf) = (Inr 1, demo_locked_os demo_conf)"
    and "repo_Config demo_repo_lib 1 (demo_locked_os demo_conf) = Inr demo_conf"
    and "config_Clone demo_repo_lib demo_conf = Inr demo_conf"
    by (simp_all add: demo_repo_lib_def cfg_lib.defs repo_lib.defs demo_locked_os_def demo_os_def)
  moreover have "Join [Clean ''/home'', ''config.lock''] = ''/home/config.lock''" by code_simp
  ultimately show ?thesis
    using openRepo_locked_writes_nothing [OF o, of demo_settings]
    by (simp add: prod_eq_iff demo_locked_os_def demo_os_def)
qed

text \<open>
  C25: without a file \<open>config.lock\<close> in the repository directory, a repository that \<open>openRepo\<close> returns
  has as its configuration the one it was opened with, updated with the settings, and nothing else
  was stored through \<open>SetConfig\<close>; the swarm key is in its file when there is one.
\<close>

theorem openRepo_unlocked_stores_settings:
  assumes "repo_memory_ok lib" and "clone_ok lib" and "openRepo lib repoRoot c sys = (Inr repo, sys')"
    and "fsrepo_Open lib repoRoot sys = (Inr repo', s1)" and "files s1 (Clean repoRoot) = Some Dir"
    and "files s1 (Join [Clean repoRoot, ''config.lock'']) = None"
    and "osfault s1 OpStat (Join [Clean repoRoot, ''config.lock'']) = None"
  shows "repo' = repo \<and> (\<exists>conf0 conf s2. repo_Config lib repo s1 = Inr conf0 \<and>
    updateConfig lib conf0 c = (conf, None) \<and> repo_SetConfig lib repo conf s1 = (None, s2) \<and>
    repo_Config lib repo sys' = Inr conf \<and>
    sys' = (if SwarmKey c = [] then s2
      else s2\<lparr>files := (files s2)(Join [Clean repoRoot, ''swarm.key''] \<mapsto> File (SwarmKey c))\<rparr>))"
  using assms(3)
proof (cases rule: openRepo_success)
  case (locked s1')
  with assms(4) no_lock_file_unlocks [OF assms(5-7)] show ?thesis by simp
next
  case (unlocked s1' conf0 conf1 conf s2)
  have "conf1 = conf0" using assms(2) unlocked(4) by (simp add: clone_ok_def)
  moreover have "repo_Config lib repo sys' = Inr conf"
    using assms(1) unlocked(6,7) by (rule stored_config_is_read)
  moreover have "s1' = s1" "repo' = repo" using unlocked(1) assms(4) by simp_all
  ultimately show ?thesis using unlocked updateRepo_success [OF unlocked(7)]
    by (auto simp: formRepoPath_def)
qed

lemma demo_repo_memory_ok: "repo_memory_ok demo_repo_lib" "clone_ok demo_repo_lib"
  by (auto simp: repo_memory_ok_def clone_ok_def demo_repo_lib_def cfg_lib.defs repo_lib.defs)

theorem openRepo_unlocked_stores_settings_witness:
  "\<exists>conf sys'. openRepo demo_repo_lib ''/home'' demo_settings (demo_os (Some demo_conf)) = (Inr 1, sys') \<and>
     updateConfig demo_repo_lib demo_conf demo_settings = (conf, None) \<and>
     repo_Config demo_repo_lib 1 sys' = Inr conf \<and> Routing_Type conf = ''dht''"
proof -
  let ?s = "demo_os (Some demo_conf)"
  have o: "openRepo demo_repo_lib ''/home'' demo_settings ?s
      = (Inr 1, snd (openRepo demo_repo_lib ''/home'' demo_settings ?s))"
    by (simp add: prod_eq_iff) code_simp
  have f: "fsrepo_Open demo_repo_lib ''/home'' ?s = (Inr 1, ?s)"
    and c: "repo_Config demo_repo_lib 1 ?s = Inr demo_conf"
    by (simp_all add: demo_repo_lib_def cfg_lib.defs repo_lib.defs demo_os_def)
  have "Join [Clean ''/home'', ''config.lock''] = ''/home/config.lock''" "Clean ''/home'' = ''/home''"
    by code_simp+
  then have "files ?s (Clean ''/home'') = Some Dir"
    "files ?s (Join [Clean ''/home'', ''config.lock'']) = None"
    "osfault ?s OpStat (Join [Clean ''/home'', ''config.lock'']) = None"
    by (simp_all add: demo_os_def)
  from openRepo_unlocked_stores_settings [OF demo_repo_memory_ok o f this] c obtain conf where
    "updateConfig demo_repo_lib demo_conf demo_settings = (conf, None)"
    "repo_Config demo_repo_lib 1 (snd (openRepo demo_repo_lib ''/home'' demo_settings ?s)) = Inr conf"
    by auto
  moreover have "Routing_Type conf = ''dht''"
    using calculation(1) updateConfig_stored(1) by (fastforce simp: demo_settings_def)
  ultimately show ?thesis using o by blast
qed

end
