(* ===== verification/Services.thy ===== *)
theory Services
  imports Repo
begin

text \<open>
  The background services a node may run: periodic garbage collection (\<open>maybeRunGC\<close> of
  \<open>ipfs_gc.go\<close>) and the HTTP API and gateway servers of \<open>ipfs_api.go\<close>, with the two closures of
  \<open>ipfs_node.go\<close> they go through, \<open>LoadConfig\<close> and \<open>ConstructNode\<close>. A service that is on is a
  channel and the goroutines that report on it; a service that is off is a nil channel.
\<close>

section \<open>Parameters and closures\<close>

text \<open>
  \<open>GetConfig\<close> belongs to go-ipfs: it is given the stored \<open>LoadConfig\<close> function and the configuration
  root. A network listener is a handle.
\<close>

record 'w svc_lib = "'w repo_lib" +
  cmds_GetConfig :: "(string \<Rightarrow> (goerror + Config) outcome) option \<Rightarrow> string \<Rightarrow> (goerror + Config) outcome"
  manet_Listen :: "maddr_comp list \<Rightarrow> 'w os \<Rightarrow> (goerror + handle) \<times> 'w os"
  repo_SetAPIAddr :: "handle \<Rightarrow> handle \<Rightarrow> 'w os \<Rightarrow> goerror option \<times> 'w os"
  corehttp_WebUIPaths :: "string list"

definition LoadConfig_fn :: "string \<times> Config \<Rightarrow> string \<Rightarrow> (goerror + Config) outcome" where
  "LoadConfig_fn captured path =
     (if path \<noteq> fst captured then Panic ''n.cctx.LoadConfig repoRoot!=path''
      else Ret (Inr (snd captured)))"

definition GetConfig :: "('w, 'z) svc_lib_scheme \<Rightarrow> cmds_Context \<Rightarrow> (goerror + Config) outcome" where
  "GetConfig lib c = cmds_GetConfig lib (map_option LoadConfig_fn (LoadConfig c)) (ConfigRoot c)"

definition ConstructNode :: "Node \<Rightarrow> goerror + handle" where
  "ConstructNode n =
     (case node n of
        None \<Rightarrow> Inl (Errorf ''unexpected ConstructNode, n.node is still nil'')
      | Some h \<Rightarrow> Inr h)"

section \<open>Garbage collection\<close>

definition maybeRunGC :: "nodeptr \<Rightarrow> AsioConfig \<Rightarrow> 'w proc \<Rightarrow> (goerror + chan option) \<times> 'w proc" where
  "maybeRunGC n acfg s =
     (if \<not> RunGC acfg then (Inr None, s)
      else (let (errc, s) = make_chan s in (Inr (Some errc), go (GoPeriodicGC n errc) s)))"

section \<open>MFS pinning\<close>

text \<open>\<open>ipfs_mfs.go\<close>: the service is disabled, and asking for it is a programming error.\<close>

definition startPinMFS :: "goerror option outcome" where
  "startPinMFS = Panic ''IPFS startPinMFS is unsupported and disabled''"

section \<open>HTTP servers\<close>

text \<open>
  Both servers open one listener per configured address and stop at the first that fails, with an
  error text of their own (\<open>im\<close> for an address that cannot be read, \<open>lm\<close> for one that cannot be
  listened on).
\<close>

fun openListeners ::
  "('w, 'z) svc_lib_scheme \<Rightarrow> string \<Rightarrow> string \<Rightarrow> string list \<Rightarrow> 'w os \<Rightarrow> (goerror + handle list) \<times> 'w os" where
  "openListeners lib im lm [] sys = (Inr [], sys)"
| "openListeners lib im lm (addr # rest) sys =
     (case ma_NewMultiaddr lib addr of
        Inl err \<Rightarrow>
          (Inl (Errorf (im @ [CHR 0x22] @ addr @ [CHR 0x22] @ '' (err: '' @ etext err @ '')'')), sys)
      | Inr maddr \<Rightarrow>
          (case manet_Listen lib maddr sys of
             (Inl err, sys) \<Rightarrow> (Inl (Errorf (lm @ addr @ '') failed: '' @ etext err)), sys)
           | (Inr lis, sys) \<Rightarrow>
               (case openListeners lib im lm rest sys of
                  (Inl err, sys) \<Rightarrow> (Inl err, sys)
                | (Inr ls, sys) \<Rightarrow> (Inr (lis # ls), sys))))"

text \<open>One goroutine per listener and one that closes the channel when all have reported.\<close>

definition serveAll ::
  "handle \<Rightarrow> handle list \<Rightarrow> ServeOption list \<Rightarrow> 'w proc \<Rightarrow> chan \<times> 'w proc" where
  "serveAll h listeners opts s =
     (let (errc, s) = make_chan s;
          s = foldl (\<lambda>s lis. go (GoServe (Some h) errc lis opts) s) s listeners
      in (errc, go (GoCloser errc (length listeners)) s))"

definition defaultMux :: "string \<Rightarrow> ServeOption" where
  "defaultMux path = DefaultMux path"

definition apiOptions :: "('w, 'z) svc_lib_scheme \<Rightarrow> cmds_Context \<Rightarrow> Config \<Rightarrow> ServeOption list" where
  "apiOptions lib c cfg =
     [MetricsCollectionOption ''api'', MetricsOpenCensusCollectionOption, CheckVersionOption,
      CommandsOption c, GatewayOption False (corehttp_WebUIPaths lib), VersionOption,
      defaultMux ''/debug/vars'', defaultMux ''/debug/pprof/'',
      MutexFractionOption ''/debug/pprof-mutex/'',
      MetricsScrapingOption ''/debug/metrics/prometheus'', LogOption]
     @ (if Gateway_RootRedirect cfg = [] then [] else [RedirectOption '''' (Gateway_RootRedirect cfg)])"

definition maybeServeHTTPApi ::
  "('w, 'z) svc_lib_scheme \<Rightarrow> nodeptr \<Rightarrow> AsioConfig \<Rightarrow> 'w proc \<Rightarrow> ((goerror + chan option) \<times> 'w proc) outcome" where
  "maybeServeHTTPApi lib n acfg s =
     (if APIAddress acfg = [] then Ret (Inr None, s)
      else case cctx (nodes s ! n) of
        None \<Rightarrow> Panic ''nil pointer dereference''
      | Some c \<Rightarrow>
     (case GetConfig lib c of
        Panic m \<Rightarrow> Panic m
      | Ret (Inl err) \<Rightarrow>
          Ret (Inl (Errorf (''maybeServeHTTPApi: GetConfig() failed: '' @ etext err)), s)
      | Ret (Inr cfg) \<Rightarrow>
     (case openListeners lib ''maybeServeHTTPApi: invalid API address: ''
             ''serveHTTPApi: manet.Listen('' (Addresses_API cfg) (os s) of
        (Inl err, sys) \<Rightarrow> Ret (Inl err, s\<lparr>os := sys\<rparr>)
      | (Inr listeners, sys) \<Rightarrow>
     (let s = s\<lparr>os := sys\<rparr>; opts = apiOptions lib c cfg
      in case node (nodes s ! n) of
           None \<Rightarrow> Panic ''nil pointer dereference''
         | Some h \<Rightarrow>
     (case listeners of
        [] \<Rightarrow> Panic ''index out of range [0] with length 0''
      | lis # _ \<Rightarrow>
     (case repo_SetAPIAddr lib h lis (os s) of
        (Some err, sys) \<Rightarrow>
          Ret (Inl (Errorf (''serveHTTPApi: SetAPIAddr() failed: '' @ etext err)), s\<lparr>os := sys\<rparr>)
      | (None, sys) \<Rightarrow>
     (let (errc, s) = serveAll h listeners opts (s\<lparr>os := sys\<rparr>) in Ret (Inr (Some errc), s))))))))"

definition gatewayOptions :: "cmds_Context \<Rightarrow> Config \<Rightarrow> ServeOption list" where
  "gatewayOptions c cfg =
     [MetricsCollectionOption ''gateway'', HostnameOption,
      GatewayOption (Gateway_Writable cfg) [''/ipfs'', ''/ipns''], VersionOption, CheckVersionOption,
      CommandsROOption (c\<lparr>Gateway := True\<rparr>)]
     @ (if Experimental_P2pHttpProxy cfg then [P2PProxyOption] else [])
     @ (if Gateway_RootRedirect cfg = [] then [] else [RedirectOption '''' (Gateway_RootRedirect cfg)])"

definition maybeServeHTTPGateway ::
  "('w, 'z) svc_lib_scheme \<Rightarrow> nodeptr \<Rightarrow> AsioConfig \<Rightarrow> 'w proc \<Rightarrow> ((goerror + chan option) \<times> 'w proc) outcome" where
  "maybeServeHTTPGateway lib n acfg s =
     (if GatewayAddress acfg = [] then Ret (Inr None, s)
      else case cctx (nodes s ! n) of
        None \<Rightarrow> Panic ''nil pointer dereference''
      | Some c \<Rightarrow>
     (case GetConfig lib c of
        Panic m \<Rightarrow> Panic m
      | Ret (Inl err) \<Rightarrow>
          Ret (Inl (Errorf (''maybeServeHTTPGateway: GetConfig() failed: '' @ etext err)), s)
      | Ret (Inr cfg) \<Rightarrow>
     (case openListeners lib ''maybeServeHTTPGateway: invalid gateway address: ''
             ''maybeServeHTTPGateway: manet.Listen('' (Addresses_Gateway cfg) (os s) of
        (Inl err, sys) \<Rightarrow> Ret (Inl err, s\<lparr>os := sys\<rparr>)
      | (Inr listeners, sys) \<Rightarrow>
     (let s = s\<lparr>os := sys\<rparr>; opts = gatewayOptions c cfg
      in case ConstructNode (nodes s ! n) of
           Inl err \<Rightarrow>
             Ret (Inl (Errorf (''maybeServeHTTPGateway: ConstructNode() failed: '' @ etext err)), s)
         | Inr h \<Rightarrow> (let (errc, s) = serveAll h listeners opts s in Ret (Inr (Some errc), s))))))"

section \<open>Facts\<close>

text \<open>What go-ipfs documents of \<open>GetConfig\<close>: it loads the configuration at the root.\<close>

definition getconfig_ok :: "('w, 'z) svc_lib_scheme \<Rightarrow> bool" where
  "getconfig_ok lib \<longleftrightarrow> (\<forall>f root. cmds_GetConfig lib (Some f) root = f root)"

lemma GetConfig_loaded:
  "getconfig_ok lib \<Longrightarrow> LoadConfig c = Some (ConfigRoot c, cfg) \<Longrightarrow> GetConfig lib c = Ret (Inr cfg)"
  by (simp add: GetConfig_def getconfig_ok_def LoadConfig_fn_def)

lemma make_chan_sel [simp]:
  "fst (make_chan s) = nchans s" "snd (make_chan s) = s\<lparr>nchans := Suc (nchans s)\<rparr>"
  by (simp_all add: make_chan_def)

lemma foldl_go: "foldl (\<lambda>s x. go (f x) s) s xs = s\<lparr>gos := gos s @ map f xs\<rparr>"
  by (induction xs arbitrary: s) (simp_all add: go_def)

lemma serveAll_eq:
  "serveAll h ls opts s = (nchans s, s\<lparr>nchans := Suc (nchans s),
     gos := gos s @ map (\<lambda>l. GoServe (Some h) (nchans s) l opts) ls
       @ [GoCloser (nchans s) (length ls)]\<rparr>)"
  unfolding serveAll_def Let_def case_prod_beta make_chan_sel foldl_go by (simp add: go_def)

text \<open>
  The listeners of a list of addresses: one for each address, in order, opened on what the address
  says, each in the state the one before it left.
\<close>

inductive listened ::
  "('w, 'z) svc_lib_scheme \<Rightarrow> string list \<Rightarrow> 'w os \<Rightarrow> handle list \<Rightarrow> 'w os \<Rightarrow> bool" for lib where
  listened_none: "listened lib [] sys [] sys"
| listened_next: "ma_NewMultiaddr lib addr = Inr maddr \<Longrightarrow> manet_Listen lib maddr sys = (Inr l, sys1) \<Longrightarrow>
    listened lib addrs sys1 ls sys2 \<Longrightarrow> listened lib (addr # addrs) sys (l # ls) sys2"

inductive_simps listened_simps: "listened lib [] sys ls sys'" "listened lib (a # addrs) sys ls sys'"

lemma listened_length: "listened lib addrs sys ls sys' \<Longrightarrow> length ls = length addrs"
  by (induction rule: listened.induct) simp_all

lemma openListeners_listened:
  "openListeners lib im lm addrs sys = (Inr ls, sys') \<Longrightarrow> listened lib addrs sys ls sys'"
  by (induction lib im lm addrs sys arbitrary: ls sys' rule: openListeners.induct)
     (auto split: sum.splits prod.splits intro: listened.intros)

lemma openListeners_length:
  "openListeners lib im lm addrs sys = (Inr ls, sys') \<Longrightarrow> length ls = length addrs"
  by (drule openListeners_listened) (rule listened_length)

lemma openListeners_Nil_iff:
  "openListeners lib im lm addrs sys = (Inr [], sys') \<longleftrightarrow> addrs = [] \<and> sys' = sys"
  using openListeners_length [of lib im lm addrs sys "[]" sys'] by auto

lemma maybeServeHTTPApi_on:
  assumes "maybeServeHTTPApi lib n acfg s = Ret (Inr (Some errc), s')"
  obtains c cfg h l ls sys sys' where
    "APIAddress acfg \<noteq> []" "cctx (nodes s ! n) = Some c" "GetConfig lib c = Ret (Inr cfg)"
    "node (nodes s ! n) = Some h" "listened lib (Addresses_API cfg) (os s) (l # ls) sys"
    "repo_SetAPIAddr lib h l sys = (None, sys')"
    "serveAll h (l # ls) (apiOptions lib c cfg) (s\<lparr>os := sys'\<rparr>) = (errc, s')"
  using assms unfolding maybeServeHTTPApi_def Let_def
  by (auto split: if_splits option.splits outcome.splits sum.splits prod.splits list.splits
      dest!: openListeners_listened)

lemma maybeServeHTTPGateway_on:
  assumes "maybeServeHTTPGateway lib n acfg s = Ret (Inr (Some errc), s')"
  obtains c cfg h ls sys where
    "GatewayAddress acfg \<noteq> []" "cctx (nodes s ! n) = Some c" "GetConfig lib c = Ret (Inr cfg)"
    "node (nodes s ! n) = Some h" "listened lib (Addresses_Gateway cfg) (os s) ls sys"
    "serveAll h ls (gatewayOptions c cfg) (s\<lparr>os := sys\<rparr>) = (errc, s')"
  using assms unfolding maybeServeHTTPGateway_def ConstructNode_def Let_def
  by (auto split: if_splits option.splits outcome.splits sum.splits prod.splits
      dest!: openListeners_listened)

lemma maybeServeHTTPApi_panics_iff:
  assumes "getconfig_ok lib" and "cctx (nodes s ! n) = Some c"
    and "LoadConfig c = Some (ConfigRoot c, cfg)" and "node (nodes s ! n) = Some h"
  shows "is_panic (maybeServeHTTPApi lib n acfg s) \<longleftrightarrow> APIAddress acfg \<noteq> [] \<and> Addresses_API cfg = []"
proof -
  obtain r sys where r: "openListeners lib ''maybeServeHTTPApi: invalid API address: ''
      ''serveHTTPApi: manet.Listen('' (Addresses_API cfg) (os s) = (r, sys)" by force
  show ?thesis
  proof (cases r)
    case (Inl e)
    with r assms show ?thesis
      by (auto simp: maybeServeHTTPApi_def GetConfig_loaded)
  next
    case (Inr ls)
    then have "ls = [] \<longleftrightarrow> Addresses_API cfg = []" using r openListeners_length by fastforce
    with Inr r assms show ?thesis
      by (cases ls) (auto simp: maybeServeHTTPApi_def GetConfig_loaded serveAll_eq Let_def
          split: prod.splits option.splits)
  qed
qed

section \<open>A library for the examples\<close>

definition demo_svc_lib :: "Config option svc_lib" where
  "demo_svc_lib = repo_lib.extend demo_repo_lib (svc_lib.fields
     (\<lambda>f root. case f of None \<Rightarrow> Ret (Inl (Errorf ''nil LoadConfig'')) | Some g \<Rightarrow> g root)
     (\<lambda>m sys. (Inr (length m), sys))
     (\<lambda>h l sys. (None, sys))
     [''/ipfs/webui''])"

definition demo_cctx :: "Config \<Rightarrow> cmds_Context" where
  "demo_cctx cfg = \<lparr>ConfigRoot = ''/home'', LoadConfig = Some (''/home'', cfg), Plugins = None,
     Gateway = False\<rparr>"

text \<open>A process with one node that has reached the point where the services are started.\<close>

definition demo_running :: "Config \<Rightarrow> Config option proc" where
  "demo_running cfg = upd_node 0 (\<lambda>x. x\<lparr>cctx := Some (demo_cctx cfg), node := Some 5\<rparr>)
     (snd (allocate_node (Some 1) (Some 2) (init_proc (demo_os (Some cfg)))))"

lemma demo_getconfig_ok: "getconfig_ok demo_svc_lib"
  by (simp add: getconfig_ok_def demo_svc_lib_def repo_lib.defs svc_lib.defs)

lemma demo_running_node:
  "cctx (nodes (demo_running cfg) ! 0) = Some (demo_cctx cfg)"
  "node (nodes (demo_running cfg) ! 0) = Some 5"
  by (simp_all add: demo_running_def allocate_node_def init_proc_def Let_def case_prod_beta)

section \<open>Properties\<close>

text \<open>
  Starting the API server panics in exactly one situation: an API address was asked for but the
  configuration read from the repository lists none, so that the first listener does not exist. (An
  unlocked repository has just had the address written to it; one with a lock file has not.)
\<close>

theorem api_panics_iff_no_stored_address:
  assumes "getconfig_ok lib" and "cctx (nodes s ! n) = Some c"
    and "LoadConfig c = Some (ConfigRoot c, cfg)" and "node (nodes s ! n) = Some h"
  shows "is_panic (maybeServeHTTPApi lib n acfg s) \<longleftrightarrow> APIAddress acfg \<noteq> [] \<and> Addresses_API cfg = []"
  using assms by (rule maybeServeHTTPApi_panics_iff)

theorem api_panics_iff_no_stored_address_witness:
  "is_panic (maybeServeHTTPApi demo_svc_lib 0 demo_settings (demo_running demo_conf)) \<and>
   \<not> is_panic (maybeServeHTTPApi demo_svc_lib 0 demo_settings
      (demo_running (demo_conf\<lparr>Addresses_API := [''/ip4/127.0.0.1/tcp/6100'']\<rparr>)))"
proof -
  have "is_panic (maybeServeHTTPApi demo_svc_lib 0 demo_settings (demo_running cfg)) \<longleftrightarrow>
      Addresses_API cfg = []" for cfg
    using api_panics_iff_no_stored_address [OF demo_getconfig_ok demo_running_node(1) _ demo_running_node(2)]
    by (simp add: demo_cctx_def demo_settings_def)
  then show ?thesis by (simp add: demo_conf_def)
qed

text \<open>
  C31: an API server that is started serves the API addresses of the configuration: one listener was
  opened on each of them, in order, and there is one goroutine for each of these listeners, all
  reporting on one new channel that a last goroutine closes. The first listener was announced as the
  address of the API. Every goroutine offers the full command set, and none a writable gateway.
\<close>

theorem api_serves_configured_addresses:
  assumes "maybeServeHTTPApi lib n acfg s = Ret (Inr (Some errc), s')"
    and "cctx (nodes s ! n) = Some c" and "GetConfig lib c = Ret (Inr cfg)"
  shows "errc = nchans s \<and> nchans s' = Suc errc \<and>
    (\<exists>h ls sys. node (nodes s ! n) = Some h \<and> listened lib (Addresses_API cfg) (os s) ls sys \<and>
       repo_SetAPIAddr lib h (hd ls) sys = (None, os s') \<and> ls \<noteq> [] \<and>
       gos s' = gos s @ map (\<lambda>l. GoServe (Some h) errc l (apiOptions lib c cfg)) ls
         @ [GoCloser errc (length ls)]) \<and>
    CommandsOption c \<in> set (apiOptions lib c cfg) \<and>
    GatewayOption False (corehttp_WebUIPaths lib) \<in> set (apiOptions lib c cfg) \<and>
    (\<forall>w ps. GatewayOption w ps \<in> set (apiOptions lib c cfg) \<longrightarrow> \<not> w)"
proof -
  have "CommandsOption c \<in> set (apiOptions lib c cfg)"
    and "GatewayOption False (corehttp_WebUIPaths lib) \<in> set (apiOptions lib c cfg)"
    and "\<forall>w ps. GatewayOption w ps \<in> set (apiOptions lib c cfg) \<longrightarrow> \<not> w"
    by (auto simp: apiOptions_def defaultMux_def split: if_splits)
  moreover from assms(1) obtain c' cfg' h l ls sys sys' where
    "cctx (nodes s ! n) = Some c'" "GetConfig lib c' = Ret (Inr cfg')" "node (nodes s ! n) = Some h"
    "listened lib (Addresses_API cfg') (os s) (l # ls) sys" "repo_SetAPIAddr lib h l sys = (None, sys')"
    "serveAll h (l # ls) (apiOptions lib c' cfg') (s\<lparr>os := sys'\<rparr>) = (errc, s')"
    by (rule maybeServeHTTPApi_on)
  ultimately show ?thesis using assms(2,3)
    by (auto simp: serveAll_eq intro!: exI [of _ "l # ls"] exI [of _ sys])
qed

theorem api_serves_configured_addresses_witness:
  "\<exists>s'. maybeServeHTTPApi demo_svc_lib 0 demo_settings
      (demo_running (demo_conf\<lparr>Addresses_API := [''/ip4/127.0.0.1/tcp/6100'', ''/ip4/127.0.0.1/udp/6101/quic'']\<rparr>))
      = Ret (Inr (Some 0), s') \<and> map (\<lambda>g. case g of GoServe h e l opts \<Rightarrow> l | _ \<Rightarrow> 0) (gos s') = [2, 3, 0]"
proof -
  let ?as = "[''/ip4/127.0.0.1/tcp/6100'', ''/ip4/127.0.0.1/udp/6101/quic'']"
  let ?cfg = "demo_conf\<lparr>Addresses_API := ?as\<rparr>"
  have "(case maybeServeHTTPApi demo_svc_lib 0 demo_settings (demo_running ?cfg) of
      Ret (Inr (Some e), s') \<Rightarrow> e = 0 | _ \<Rightarrow> False)"
    by code_simp
  then obtain s' where s': "maybeServeHTTPApi demo_svc_lib 0 demo_settings (demo_running ?cfg)
      = Ret (Inr (Some 0), s')"
    by (auto split: outcome.splits prod.splits sum.splits option.splits)
  have "GetConfig demo_svc_lib (demo_cctx ?cfg) = Ret (Inr ?cfg)"
    by (rule GetConfig_loaded [OF demo_getconfig_ok]) (simp add: demo_cctx_def)
  from api_serves_configured_addresses [OF s' demo_running_node(1) this] obtain h ls sys where
    "listened demo_svc_lib (Addresses_API ?cfg) (os (demo_running ?cfg)) ls sys"
    "gos s' = gos (demo_running ?cfg) @ map (\<lambda>l. GoServe (Some h) 0 l (apiOptions demo_svc_lib (demo_cctx ?cfg) ?cfg)) ls
         @ [GoCloser 0 (length ls)]"
    by auto
  moreover have "gos (demo_running ?cfg) = []"
    by (simp add: demo_running_def allocate_node_def init_proc_def Let_def case_prod_beta)
  moreover have "map_sum id length (ma_NewMultiaddr demo_svc_lib ''/ip4/127.0.0.1/tcp/6100'') = Inr 2"
    "map_sum id length (ma_NewMultiaddr demo_svc_lib ''/ip4/127.0.0.1/udp/6101/quic'') = Inr 3"
    by code_simp+
  moreover have "manet_Listen demo_svc_lib m sys = (Inr (length m), sys)" for m sys
    by (simp add: demo_svc_lib_def repo_lib.defs svc_lib.defs)
  ultimately show ?thesis using s' by (auto simp: listened_simps)
qed

text \<open>
  C32: a gateway server that is started serves the gateway addresses of the configuration, one
  goroutine for the listener of each; it is writable exactly when the configuration says so, and it
  offers read-only commands and no others.
\<close>

theorem gateway_readonly_unless_configured:
  assumes "maybeServeHTTPGateway lib n acfg s = Ret (Inr (Some errc), s')"
    and "cctx (nodes s ! n) = Some c" and "GetConfig lib c = Ret (Inr cfg)"
  shows "errc = nchans s \<and> nchans s' = Suc errc \<and>
    (\<exists>h ls. node (nodes s ! n) = Some h \<and> length ls = length (Addresses_Gateway cfg) \<and>
       listened lib (Addresses_Gateway cfg) (os s) ls (os s') \<and>
       gos s' = gos s @ map (\<lambda>l. GoServe (Some h) errc l (gatewayOptions c cfg)) ls
         @ [GoCloser errc (length ls)]) \<and>
    GatewayOption (Gateway_Writable cfg) [''/ipfs'', ''/ipns''] \<in> set (gatewayOptions c cfg) \<and>
    (\<forall>w ps. GatewayOption w ps \<in> set (gatewayOptions c cfg) \<longrightarrow> w = Gateway_Writable cfg) \<and>
    (\<forall>d. CommandsOption d \<notin> set (gatewayOptions c cfg)) \<and>
    CommandsROOption (c\<lparr>Gateway := True\<rparr>) \<in> set (gatewayOptions c cfg)"
proof -
  have "\<forall>w ps. GatewayOption w ps \<in> set (gatewayOptions c cfg) \<longrightarrow> w = Gateway_Writable cfg"
    and "GatewayOption (Gateway_Writable cfg) [''/ipfs'', ''/ipns''] \<in> set (gatewayOptions c cfg)"
    and "\<forall>d. CommandsOption d \<notin> set (gatewayOptions c cfg)"
    and "CommandsROOption (c\<lparr>Gateway := True\<rparr>) \<in> set (gatewayOptions c cfg)"
    by (auto simp: gatewayOptions_def split: if_splits)
  moreover from assms(1) obtain c' cfg' h ls sys where "cctx (nodes s ! n) = Some c'"
    "GetConfig lib c' = Ret (Inr cfg')" "node (nodes s ! n) = Some h"
    "listened lib (Addresses_Gateway cfg') (os s) ls sys"
    "serveAll h ls (gatewayOptions c' cfg') (s\<lparr>os := sys\<rparr>) = (errc, s')"
    by (rule maybeServeHTTPGateway_on)
  ultimately show ?thesis using assms(2,3)
    by (auto simp: serveAll_eq listened_length intro!: exI [of _ ls])
qed

theorem gateway_readonly_unless_configured_witness:
  "\<exists>s'. maybeServeHTTPGateway demo_svc_lib 0 (demo_settings\<lparr>GatewayAddress := ''on''\<rparr>)
      (demo_running (demo_conf\<lparr>Addresses_Gateway := [''/ip4/127.0.0.1/tcp/6200'']\<rparr>))
      = Ret (Inr (Some 0), s') \<and> nchans s' = Suc 0"
proof -
  let ?cfg = "demo_conf\<lparr>Addresses_Gateway := [''/ip4/127.0.0.1/tcp/6200'']\<rparr>"
    and ?a = "demo_settings\<lparr>GatewayAddress := ''on''\<rparr>"
  have "(case maybeServeHTTPGateway demo_svc_lib 0 ?a (demo_running ?cfg) of
      Ret (Inr (Some e), s') \<Rightarrow> e = 0 | _ \<Rightarrow> False)"
    by code_simp
  then obtain s' where s': "maybeServeHTTPGateway demo_svc_lib 0 ?a (demo_running ?cfg)
      = Ret (Inr (Some 0), s')"
    by (auto split: outcome.splits prod.splits sum.splits option.splits)
  have "GetConfig demo_svc_lib (demo_cctx ?cfg) = Ret (Inr ?cfg)"
    by (rule GetConfig_loaded [OF demo_getconfig_ok]) (simp add: demo_cctx_def)
  from gateway_readonly_unless_configured [OF s' demo_running_node(1) this] s' show ?thesis by blast
qed

end
