(* ===== verification/Cancel.thy ===== *)
theory Cancel
  imports Process_State
begin

text \<open>
  \<open>ipfs_cancel.go\<close>: every asynchronous call is given a signal number; the number is mapped to the
  cancel function of the context the call runs under. The map and the counter belong to the node.
\<close>

section \<open>Operations\<close>

definition withCancel :: "nodeptr \<Rightarrow> u64 \<Rightarrow> 'w proc \<Rightarrow> nat \<times> 'w proc" where
  "withCancel n cancel_signal s =
     (let (c, cs) = WithCancel (Some (ctx (nodes s ! n))) (ctxs s)
      in (c, upd_node n (\<lambda>x. x\<lparr>cancel_signals := (cancel_signals x)(cancel_signal \<mapsto> c)\<rparr>)
            (s\<lparr>ctxs := cs\<rparr>)))"

definition go_asio_ipfs_cancellation_allocate :: "'w proc \<Rightarrow> u64 \<times> 'w proc" where
  "go_asio_ipfs_cancellation_allocate s =
     (case g_node s of
        None \<Rightarrow> (of_nat (2 ^ 64 - 1), s)
      | Some n \<Rightarrow>
          (let ret = next_cancel_signal_id (nodes s ! n)
           in (ret, upd_node n (\<lambda>x. x\<lparr>next_cancel_signal_id := next_cancel_signal_id x + 1\<rparr>) s)))"

definition go_asio_ipfs_cancellation_free :: "u64 \<Rightarrow> 'w proc \<Rightarrow> 'w proc" where
  "go_asio_ipfs_cancellation_free cancel_signal s =
     (case g_node s of
        None \<Rightarrow> s
      | Some n \<Rightarrow> upd_node n (\<lambda>x. x\<lparr>cancel_signals := (cancel_signals x)(cancel_signal := None)\<rparr>) s)"

definition go_asio_ipfs_cancel :: "u64 \<Rightarrow> 'w proc \<Rightarrow> 'w proc" where
  "go_asio_ipfs_cancel cancel_signal s =
     (case g_node s of
        None \<Rightarrow> s
      | Some n \<Rightarrow>
          (case cancel_signals (nodes s ! n) cancel_signal of
             None \<Rightarrow> s
           | Some c \<Rightarrow> s\<lparr>ctxs := cancel_ctx c (ctxs s)\<rparr>))"

section \<open>The registry as clients see it\<close>

text \<open>
  The contract of a registry of signals: registering a signal makes a fresh live context under the
  root, firing a registered signal ends its context and no other, releasing a signal only forgets
  it.
\<close>

locale signal_registry =
  fixes good :: "'s \<Rightarrow> bool"
    and signals :: "'s \<Rightarrow> u64 \<Rightarrow> nat option"
    and root :: "'s \<Rightarrow> nat"
    and is_done :: "'s \<Rightarrow> nat \<Rightarrow> bool"
    and register :: "u64 \<Rightarrow> 's \<Rightarrow> nat \<times> 's"
    and release :: "u64 \<Rightarrow> 's \<Rightarrow> 's"
    and fire :: "u64 \<Rightarrow> 's \<Rightarrow> 's"
  assumes register_good: "good s \<Longrightarrow> good (snd (register k s))"
    and register_signals: "good s \<Longrightarrow> signals (snd (register k s)) = (signals s)(k \<mapsto> fst (register k s))"
    and register_fresh: "good s \<Longrightarrow> signals s j = Some c \<Longrightarrow> c \<noteq> fst (register k s)"
    and register_done_old: "good s \<Longrightarrow> signals s j = Some c \<Longrightarrow>
      is_done (snd (register k s)) c = is_done s c"
    and register_done_new: "good s \<Longrightarrow>
      is_done (snd (register k s)) (fst (register k s)) = is_done s (root s)"
    and release_good: "good s \<Longrightarrow> good (release k s)"
    and release_signals: "good s \<Longrightarrow> signals (release k s) = (signals s)(k := None)"
    and release_done: "is_done (release k s) = is_done s"
    and fire_good: "good s \<Longrightarrow> good (fire k s)"
    and fire_signals: "signals (fire k s) = signals s"
    and fire_hit: "good s \<Longrightarrow> signals s k = Some c \<Longrightarrow> is_done (fire k s) c"
    and fire_miss: "signals s k = None \<Longrightarrow> fire k s = s"
    and fire_other: "good s \<Longrightarrow> signals s k = Some c \<Longrightarrow> signals s j = Some d \<Longrightarrow> d \<noteq> c \<Longrightarrow>
      is_done (fire k s) d = is_done s d"
    and fire_root: "good s \<Longrightarrow> is_done (fire k s) (root s) = is_done s (root s)"
begin

lemma registered_then_fired:
  "good s \<Longrightarrow> is_done (fire k (snd (register k s))) (fst (register k s))"
  by (rule fire_hit) (simp_all add: register_good register_signals)

lemma fire_spares_others:
  assumes "good s" and "signals s j = Some c" and "j \<noteq> k"
  shows "is_done (fire k (snd (register k s))) c = is_done s c"
  using assms register_fresh [OF assms(1,2), of k]
  by (subst fire_other [of _ k "fst (register k s)" j c])
     (simp_all add: register_good register_signals register_done_old)

lemma released_fire: "good s \<Longrightarrow> fire k (release k s) = release k s"
  by (rule fire_miss) (simp add: release_signals)

end

section \<open>The registry of the current node\<close>

definition cur :: "'w proc \<Rightarrow> Node" where
  "cur s = nodes s ! the (g_node s)"

definition cur_register :: "u64 \<Rightarrow> 'w proc \<Rightarrow> nat \<times> 'w proc" where
  "cur_register k s = withCancel (the (g_node s)) k s"

definition live_proc :: "'w proc \<Rightarrow> bool" where
  "live_proc s \<longleftrightarrow> proc_wf s \<and> g_node s \<noteq> None"

lemma live_proc_node:
  assumes "live_proc s"
  shows "the (g_node s) < length (nodes s)" and "node_wf (ctxs s) (cur s)" and "ctx_wf (ctxs s)"
  using assms by (auto simp: live_proc_def proc_wf_def cur_def)

lemma withCancel_simps [simp]:
  "fst (withCancel n k s) = length (ctxs s)"
  "ctxs (snd (withCancel n k s)) = snd (WithCancel (Some (ctx (nodes s ! n))) (ctxs s))"
  "g_node (snd (withCancel n k s)) = g_node s" "gos (snd (withCancel n k s)) = gos s"
  "cmem (snd (withCancel n k s)) = cmem s" "cbrk (snd (withCancel n k s)) = cbrk s"
  "cbs (snd (withCancel n k s)) = cbs s" "os (snd (withCancel n k s)) = os s"
  "length (nodes (snd (withCancel n k s))) = length (nodes s)"
  by (simp_all add: withCancel_def case_prod_beta Let_def)

lemma nodes_withCancel:
  "nodes (snd (withCancel n k s)) = (nodes s)[n := (nodes s ! n)\<lparr>cancel_signals :=
     (cancel_signals (nodes s ! n))(k \<mapsto> length (ctxs s))\<rparr>]"
  by (simp add: withCancel_def case_prod_beta Let_def nodes_upd_node)

lemma node_wf_register:
  "node_wf cs n \<Longrightarrow>
   node_wf (snd (WithCancel (Some (ctx n)) cs)) (n\<lparr>cancel_signals := (cancel_signals n)(k \<mapsto> length cs)\<rparr>)"
  by (auto simp: node_wf_def nth_WithCancel_old less_Suc_eq)

lemma node_wf_cancel_ctx: "node_wf cs n \<Longrightarrow> node_wf (cancel_ctx c cs) n"
  by (simp add: node_wf_def)

lemma ball_set_list_update:
  "\<forall>x \<in> set xs. P x \<Longrightarrow> P y \<Longrightarrow> \<forall>x \<in> set (xs[i := y]). P x"
  by (auto dest: set_update_subset_insert [THEN subsetD])

lemma proc_wf_withCancel:
  assumes "proc_wf s" and "n < length (nodes s)"
  shows "proc_wf (snd (withCancel n k s))"
proof -
  have n: "node_wf (ctxs s) (nodes s ! n)" using assms by (simp add: proc_wf_def)
  have "ctx_wf (snd (WithCancel (Some (ctx (nodes s ! n))) (ctxs s)))"
    using assms n by (intro ctx_wf_WithCancel) (auto simp: proc_wf_def node_wf_def)
  moreover have "\<forall>x \<in> set (nodes (snd (withCancel n k s))).
      node_wf (snd (WithCancel (Some (ctx (nodes s ! n))) (ctxs s))) x"
    unfolding nodes_withCancel using assms(1) n
    by (intro ball_set_list_update) (auto simp: proc_wf_def node_wf_grow node_wf_register)
  ultimately show ?thesis using assms by (simp add: proc_wf_def)
qed

lemma cur_withCancel:
  "live_proc s \<Longrightarrow> cur (snd (cur_register k s)) =
     (cur s)\<lparr>cancel_signals := (cancel_signals (cur s))(k \<mapsto> length (ctxs s))\<rparr>"
  by (simp add: cur_def cur_register_def nodes_withCancel live_proc_node)

lemma proc_wf_upd_signals:
  assumes "proc_wf s" and "n < length (nodes s)"
    and "\<And>x. ctx (f x) = ctx x \<and> cancel (f x) = cancel x"
    and "\<And>x k c. cancel_signals (f x) k = Some c \<Longrightarrow> cancel_signals x k = Some c"
  shows "proc_wf (upd_node n f s)"
proof -
  have "\<forall>x \<in> set ((nodes s)[n := f (nodes s ! n)]). node_wf (ctxs s) x"
  proof (rule ball_set_list_update)
    show "\<forall>x \<in> set (nodes s). node_wf (ctxs s) x" using assms(1) by (simp add: proc_wf_def)
    with assms(2) have "node_wf (ctxs s) (nodes s ! n)" by simp
    then show "node_wf (ctxs s) (f (nodes s ! n))"
      using assms(3,4) [of "nodes s ! n"] by (simp add: node_wf_def) blast
  qed
  then show ?thesis using assms(1,2) by (simp add: proc_wf_def nodes_upd_node)
qed

text \<open>What each operation does when a node exists.\<close>

lemma allocate_live:
  "live_proc s \<Longrightarrow> fst (go_asio_ipfs_cancellation_allocate s) = next_cancel_signal_id (cur s) \<and>
   cur (snd (go_asio_ipfs_cancellation_allocate s)) =
     (cur s)\<lparr>next_cancel_signal_id := next_cancel_signal_id (cur s) + 1\<rparr> \<and>
   ctxs (snd (go_asio_ipfs_cancellation_allocate s)) = ctxs s \<and>
   live_proc (snd (go_asio_ipfs_cancellation_allocate s))"
  by (auto simp: go_asio_ipfs_cancellation_allocate_def live_proc_def cur_def Let_def
      intro!: proc_wf_upd_signals) (auto simp: proc_wf_def)

lemma free_live:
  assumes "live_proc s"
  shows "cur (go_asio_ipfs_cancellation_free k s) =
      (cur s)\<lparr>cancel_signals := (cancel_signals (cur s))(k := None)\<rparr>"
    and "ctxs (go_asio_ipfs_cancellation_free k s) = ctxs s"
    and "live_proc (go_asio_ipfs_cancellation_free k s)"
proof -
  obtain n where n: "g_node s = Some n" using assms by (auto simp: live_proc_def)
  with assms have "n < length (nodes s)" using live_proc_node(1) by fastforce
  with n assms show "cur (go_asio_ipfs_cancellation_free k s) =
      (cur s)\<lparr>cancel_signals := (cancel_signals (cur s))(k := None)\<rparr>"
    and "ctxs (go_asio_ipfs_cancellation_free k s) = ctxs s"
    and "live_proc (go_asio_ipfs_cancellation_free k s)"
    by (auto simp: go_asio_ipfs_cancellation_free_def cur_def live_proc_def
        intro!: proc_wf_upd_signals split: if_splits)
qed

lemma cancel_live:
  assumes "live_proc s"
  shows "go_asio_ipfs_cancel k s =
      (case cancel_signals (cur s) k of None \<Rightarrow> s | Some c \<Rightarrow> s\<lparr>ctxs := cancel_ctx c (ctxs s)\<rparr>)"
    and "cur (go_asio_ipfs_cancel k s) = cur s"
    and "live_proc (go_asio_ipfs_cancel k s)"
  using assms
  by (auto simp: go_asio_ipfs_cancel_def cur_def live_proc_def proc_wf_def ctx_wf_cancel_ctx
      node_wf_cancel_ctx split: option.splits)

interpretation reg: signal_registry live_proc "\<lambda>s. cancel_signals (cur s)" "\<lambda>s. ctx (cur s)"
  "\<lambda>s. ctx_done (ctxs s)" cur_register go_asio_ipfs_cancellation_free go_asio_ipfs_cancel
proof (unfold_locales, goal_cases)
  case (1 s k)
  then show ?case
    by (auto simp: live_proc_def cur_register_def proc_wf_def [of s] intro!: proc_wf_withCancel)
next
  case (2 s k)
  then show ?case by (simp add: cur_withCancel) (simp add: cur_register_def)
next
  case (3 s j c k)
  then show ?case using live_proc_node(2) [of s] by (auto simp: cur_register_def node_wf_def)
next
  case (4 s j c k)
  then show ?case using live_proc_node(2) [of s] by (simp add: cur_register_def node_wf_def)
next
  case (5 s k)
  then show ?case using live_proc_node(2) [of s] by (auto simp: cur_register_def node_wf_def cur_def)
next
  case (8 k s)
  show ?case by (simp add: go_asio_ipfs_cancellation_free_def split: option.split)
next
  case (10 k s)
  show ?case by (simp add: go_asio_ipfs_cancel_def cur_def split: option.split)
next
  case (11 s k c)
  then show ?case using live_proc_node(2) [of s] by (simp add: cancel_live node_wf_def)
next
  case (12 s k)
  then show ?case by (auto simp: go_asio_ipfs_cancel_def cur_def split: option.split)
next
  case (13 s k c j d)
  then have wf: "ctx_wf (ctxs s)" and n: "node_wf (ctxs s) (cur s)" by (auto dest: live_proc_node)
  from 13 n have *: "c < length (ctxs s)" "ctx_parent (ctxs s ! c) = Some (ctx (cur s))"
    "d < length (ctxs s)" "ctx_parent (ctxs s ! d) = Some (ctx (cur s))"
    "ctx (cur s) < length (ctxs s)" "ctx_parent (ctxs s ! ctx (cur s)) = None"
    by (auto simp: node_wf_def)
  with ctxp.kill_one_of_many(2) [OF wf, of "ctx (cur s)" d c] 13 show ?case
    by (simp add: cancel_live)
next
  case (14 s k)
  then have n: "node_wf (ctxs s) (cur s)" by (rule live_proc_node)
  show ?case
  proof (cases "cancel_signals (cur s) k")
    case (Some c)
    with n have "ctx (cur s) \<noteq> c" by (auto simp: node_wf_def)
    with Some n 14 show ?thesis
      using ctxp.kill_root [of "ctx (cur s)" "ctxs s" c] by (simp add: cancel_live node_wf_def)
  qed (simp add: cancel_live 14)
qed (simp_all add: free_live cancel_live(3))

section \<open>Sessions\<close>

text \<open>
  How the C side uses the registry: every call takes a number and is registered under it (\<open>call\<close>);
  resolving takes a number and registers nothing (\<open>reserve\<close>); a finished call releases its number,
  and a number may be fired at any time. The state is paired with the number of events so far.
\<close>

datatype sig_event = CallEv u64 nat | ReserveEv u64 | FreeEv u64 | CancelEv u64

inductive sig_step :: "nat \<times> 'w proc \<Rightarrow> sig_event \<Rightarrow> nat \<times> 'w proc \<Rightarrow> bool" where
  call: "go_asio_ipfs_cancellation_allocate s = (k, s1) \<Longrightarrow> cur_register k s1 = (c, t) \<Longrightarrow>
    sig_step (n, s) (CallEv k c) (Suc n, t)"
| reserve: "go_asio_ipfs_cancellation_allocate s = (k, t) \<Longrightarrow>
    sig_step (n, s) (ReserveEv k) (Suc n, t)"
| free: "sig_step (n, s) (FreeEv k) (Suc n, go_asio_ipfs_cancellation_free k s)"
| cancel: "sig_step (n, s) (CancelEv k) (Suc n, go_asio_ipfs_cancel k s)"

inductive_cases sig_step_callE: "sig_step (n, s) (CallEv k c) t"

definition sig_start :: "nat \<times> 'w proc \<Rightarrow> bool" where
  "sig_start x \<longleftrightarrow> (case x of (n, s) \<Rightarrow> n = 0 \<and> live_proc s \<and>
     next_cancel_signal_id (cur s) = 0 \<and> cancel_signals (cur s) = Map.empty)"

text \<open>
  As long as fewer than \<open>2 ^ 64\<close> events have happened the counter has not wrapped around, so every
  registered number is below it, and two numbers never share a context.
\<close>

definition sig_inv :: "nat \<times> 'w proc \<Rightarrow> bool" where
  "sig_inv x \<longleftrightarrow> (case x of (n, s) \<Rightarrow> live_proc s \<and>
     (n < 2 ^ 64 \<longrightarrow>
        unat (next_cancel_signal_id (cur s)) \<le> n \<and>
        (\<forall>k \<in> dom (cancel_signals (cur s)). k < next_cancel_signal_id (cur s)) \<and>
        inj_on (cancel_signals (cur s)) (dom (cancel_signals (cur s)))))"

lemma u64_Suc_no_wrap:
  "unat (x :: u64) \<le> n \<Longrightarrow> Suc n < 2 ^ 64 \<Longrightarrow> unat (x + 1) = Suc (unat x)"
  by (subst unat_word_ariths) (simp add: unat_1)

lemma less_succ_no_wrap:
  fixes k x :: u64
  assumes "unat x \<le> n" and "Suc n < 2 ^ 64" and "k < x \<or> k = x"
  shows "k < x + 1"
  using assms u64_Suc_no_wrap [OF assms(1,2)] by (auto simp: word_less_nat_alt)

lemma inj_on_map_upd:
  "inj_on m (dom m) \<Longrightarrow> (\<And>j. m j \<noteq> Some c) \<Longrightarrow> inj_on (m(k \<mapsto> c)) (insert k (dom m))"
  by (auto simp: inj_on_def)

lemma inj_on_map_del: "inj_on m (dom m) \<Longrightarrow> inj_on (m(k := None)) (dom m - {k})"
  by (auto simp: inj_on_def)

lemma sig_inv_allocate:
  assumes "sig_inv (n, s)" and "go_asio_ipfs_cancellation_allocate s = (k, t)"
  shows "sig_inv (Suc n, t)" and "k = next_cancel_signal_id (cur s)"
    and "cancel_signals (cur t) = cancel_signals (cur s)"
    and "Suc n < 2 ^ 64 \<Longrightarrow> k < next_cancel_signal_id (cur t)"
proof -
  have live: "live_proc s" using assms(1) by (simp add: sig_inv_def)
  from allocate_live [OF live] assms(2)
  have t: "cur t = (cur s)\<lparr>next_cancel_signal_id := k + 1\<rparr>" "live_proc t"
    and k: "k = next_cancel_signal_id (cur s)" by auto
  show "k = next_cancel_signal_id (cur s)" by (rule k)
  show "cancel_signals (cur t) = cancel_signals (cur s)" using t by simp
  show "Suc n < 2 ^ 64 \<Longrightarrow> k < next_cancel_signal_id (cur t)"
    using assms(1) t k less_succ_no_wrap [of k n k] by (simp add: sig_inv_def)
  show "sig_inv (Suc n, t)"
    using assms(1) t k u64_Suc_no_wrap [of k n] less_succ_no_wrap [of k n]
    by (auto simp: sig_inv_def)
qed

lemma sig_inv_register:
  assumes "sig_inv (n, s)" and "n < 2 ^ 64 \<Longrightarrow> k < next_cancel_signal_id (cur s)"
  shows "sig_inv (n, snd (cur_register k s))"
proof -
  have live: "live_proc s" using assms(1) by (simp add: sig_inv_def)
  have "n < 2 ^ 64 \<Longrightarrow> inj_on ((cancel_signals (cur s))(k \<mapsto> length (ctxs s)))
      (insert k (dom (cancel_signals (cur s))))"
    using assms(1) reg.register_fresh [OF live]
    by (intro inj_on_map_upd) (auto simp: sig_inv_def cur_register_def)
  with assms live show ?thesis
    by (auto simp: sig_inv_def reg.register_good cur_withCancel)
qed

lemma sig_inv_step: "sig_step x e y \<Longrightarrow> sig_inv x \<Longrightarrow> sig_inv y"
proof (induction rule: sig_step.induct)
  case (call s k s1 c t n)
  have "sig_inv (Suc n, snd (cur_register k s1))"
    using sig_inv_allocate [OF call.prems call.hyps(1)] by (intro sig_inv_register) auto
  with call.hyps(2) show ?case by simp
next
  case (reserve s k t n)
  from reserve.prems reserve.hyps show ?case by (rule sig_inv_allocate(1))
next
  case (free n s k)
  then have live: "live_proc s" by (simp add: sig_inv_def)
  with free show ?case
    by (auto simp: sig_inv_def free_live dom_fun_upd inj_on_map_del)
next
  case (cancel n s k)
  then show ?case by (auto simp: sig_inv_def cancel_live(2,3))
qed

interpretation sess: inv_system sig_start sig_step sig_inv
proof
  show "sig_start s \<Longrightarrow> sig_inv s" for s :: "nat \<times> 'w proc"
    by (auto simp: sig_start_def sig_inv_def)
  show "sig_step s e t \<Longrightarrow> sig_inv s \<Longrightarrow> sig_inv t" for s t :: "nat \<times> 'w proc" and e
    by (rule sig_inv_step)
qed

section \<open>An example session\<close>

definition sig_call :: "'w proc \<Rightarrow> u64 \<times> nat \<times> 'w proc" where
  "sig_call s =
     (let (k, s1) = go_asio_ipfs_cancellation_allocate s; (c, t) = cur_register k s1 in (k, c, t))"

lemma sig_step_call: "sig_step (n, s) (CallEv (fst (sig_call s)) (fst (snd (sig_call s))))
    (Suc n, snd (snd (sig_call s)))"
  by (rule sig_step.call [where ?s1.0 = "snd (go_asio_ipfs_cancellation_allocate s)"])
     (simp_all add: sig_call_def case_prod_beta Let_def prod_eq_iff)

definition demo_fresh :: "unit proc" where
  "demo_fresh = snd (allocate_node (Some 1) (Some 2) (init_proc (demo_os ())))"

text \<open>Two calls on a fresh node.\<close>

definition demo_session :: "unit proc" where
  "demo_session = snd (snd (sig_call (snd (snd (sig_call demo_fresh)))))"

lemma demo_session_start: "sig_start (0, demo_fresh)"
  using proc_wf_allocate_node [OF proc_wf_init_proc, of "Some 1" "Some 2" "demo_os ()"]
  by (simp add: sig_start_def live_proc_def cur_def demo_fresh_def allocate_node_def init_proc_def
      Let_def case_prod_beta)

lemma demo_session_run:
  "sess.run (0, demo_fresh)
     [CallEv (fst (sig_call demo_fresh)) (fst (snd (sig_call demo_fresh))),
      CallEv (fst (sig_call (snd (snd (sig_call demo_fresh)))))
        (fst (snd (sig_call (snd (snd (sig_call demo_fresh))))))] (2, demo_session)"
  unfolding demo_session_def numeral_2_eq_2
  by (rule sess.run_cons [OF sig_step_call] sess.run_nil)+

section \<open>Properties\<close>

text \<open>
  C13: in every session of fewer than \<open>2 ^ 64\<close> events on a fresh node, the number given to the next
  call is not registered, so no running call loses its cancel function to it; and two running calls
  never share a context.
\<close>

theorem signal_numbers_never_collide:
  assumes "sig_start (0, s0)" and "sess.run (0, s0) es (n, s)" and "n < 2 ^ 64"
  shows "cancel_signals (cur s) (fst (go_asio_ipfs_cancellation_allocate s)) = None \<and>
    inj_on (cancel_signals (cur s)) (dom (cancel_signals (cur s)))"
proof -
  have inv: "sig_inv (n, s)" using assms(1,2) by (rule sess.run_from_start)
  then have "fst (go_asio_ipfs_cancellation_allocate s) = next_cancel_signal_id (cur s)"
    using allocate_live by (auto simp: sig_inv_def)
  with inv assms(3) show ?thesis by (auto simp: sig_inv_def)
qed

theorem signal_numbers_never_collide_witness:
  "cancel_signals (cur demo_session) (fst (go_asio_ipfs_cancellation_allocate demo_session)) = None \<and>
   inj_on (cancel_signals (cur demo_session)) (dom (cancel_signals (cur demo_session)))"
  using signal_numbers_never_collide [OF demo_session_start demo_session_run] by simp

text \<open>
  In every session, firing the number of a running call ends that call's context and leaves the
  contexts of all other running calls and the node's own context as they were.
\<close>

theorem cancel_hits_one_call:
  assumes "sig_start (0, s0)" and "sess.run (0, s0) es (n, s)" and "n < 2 ^ 64"
    and "cancel_signals (cur s) k = Some c"
  shows "ctx_done (ctxs (go_asio_ipfs_cancel k s)) c \<and>
    (\<forall>j d. j \<noteq> k \<longrightarrow> cancel_signals (cur s) j = Some d \<longrightarrow>
       ctx_done (ctxs (go_asio_ipfs_cancel k s)) d = ctx_done (ctxs s) d) \<and>
    ctx_done (ctxs (go_asio_ipfs_cancel k s)) (ctx (cur s)) = ctx_done (ctxs s) (ctx (cur s))"
proof -
  have inv: "sig_inv (n, s)" using assms(1,2) by (rule sess.run_from_start)
  then have live: "live_proc s" by (simp add: sig_inv_def)
  have other: "d \<noteq> c" if "j \<noteq> k" "cancel_signals (cur s) j = Some d" for j d
    using inv assms(3,4) that by (auto simp: sig_inv_def inj_on_def dom_def)
  have "ctx_done (ctxs (go_asio_ipfs_cancel k s)) d = ctx_done (ctxs s) d"
    if "j \<noteq> k" "cancel_signals (cur s) j = Some d" for j d
    using reg.fire_other [OF live assms(4) that(2) other [OF that]] .
  with reg.fire_hit [OF live assms(4)] reg.fire_root [OF live] show ?thesis by blast
qed

theorem cancel_hits_one_call_witness:
  "ctx_done (ctxs (go_asio_ipfs_cancel 0 demo_session)) 1 \<and>
   \<not> ctx_done (ctxs (go_asio_ipfs_cancel 0 demo_session)) 2"
proof -
  have reg: "cancel_signals (cur demo_session) 0 = Some 1" "cancel_signals (cur demo_session) 1 = Some 2"
    and live: "\<not> ctx_done (ctxs demo_session) 2"
    by code_simp+
  from cancel_hits_one_call [OF demo_session_start demo_session_run _ reg(1)]
  have "ctx_done (ctxs (go_asio_ipfs_cancel 0 demo_session)) 1"
    and "\<forall>j d. j \<noteq> 0 \<longrightarrow> cancel_signals (cur demo_session) j = Some d \<longrightarrow>
      ctx_done (ctxs (go_asio_ipfs_cancel 0 demo_session)) d = ctx_done (ctxs demo_session) d"
    by simp_all
  with reg(2) live show ?thesis by (metis one_neq_zero)
qed

text \<open>
  Releasing a number does not end its context and takes away the only way to end it before the
  node is freed: firing the number afterwards changes nothing. (The context stays a child of the
  node's context, so each finished call leaves one behind.)
\<close>

theorem released_call_is_not_cancelled:
  assumes "live_proc s"
  shows "ctxs (go_asio_ipfs_cancellation_free k s) = ctxs s \<and>
    go_asio_ipfs_cancel k (go_asio_ipfs_cancellation_free k s) = go_asio_ipfs_cancellation_free k s"
  using assms by (simp add: free_live reg.released_fire)

theorem released_call_is_not_cancelled_witness:
  "ctxs (go_asio_ipfs_cancellation_free 0 demo_session) = ctxs demo_session \<and>
   go_asio_ipfs_cancel 0 (go_asio_ipfs_cancellation_free 0 demo_session)
     = go_asio_ipfs_cancellation_free 0 demo_session"
proof (rule released_call_is_not_cancelled)
  have "sig_inv (2, demo_session)"
    using demo_session_start demo_session_run by (rule sess.run_from_start)
  then show "live_proc demo_session" by (simp add: sig_inv_def)
qed

end
