(* ===== verification/Monitor.thy ===== *)
theory Monitor
  imports Process_State
begin

text \<open>
  The goroutine that \<open>start_node\<close> launches to watch the services (\<open>ipfs_node.go\<close>, from the
  declaration of \<open>totalPeers\<close> to the end of its \<open>for\<close> loop) as a state machine: each \<open>select\<close> takes
  one event, and the choice between ready events is open. It is then composed with the goroutines
  of \<open>maybeRunGC\<close>, \<open>maybeServeHTTPApi\<close> and \<open>maybeServeHTTPGateway\<close>, which report to it over
  unbuffered channels.
\<close>

section \<open>The monitor\<close>

text \<open>
  The three channel variables of the loop, each nil or not (\<open>m_errc\<close>); the locals \<open>pcnt\<close> and
  \<open>lasterr\<close>; whether the node's context is done; whether the goroutine has returned; and the
  sequence of calls of the state callback (error text and peer count).
\<close>

datatype channel = gcErrc | apiErrc | gwErrc

record monitor =
  m_errc :: "channel \<Rightarrow> bool"
  m_pcnt :: u32
  m_lasterr :: "goerror option"
  m_done :: bool
  m_stopped :: bool
  m_out :: "(string option \<times> u32) list"

text \<open>
  The events: a value received from a channel (nil also when the channel is closed), the timer
  together with the peer counts the collector has then, the context being done; and, from outside
  the goroutine, the cancellation of the node.
\<close>

datatype mon_event =
    Recv channel "goerror option"
  | Timer "nat list"
  | CtxDone
  | NodeCancelled

text \<open>
  The peer counts per transport come from the metrics collector; they are whole numbers, summed up
  and converted to \<open>uint32\<close>.
\<close>

definition totalPeers :: "nat list \<Rightarrow> u32" where
  "totalPeers vals = of_nat (foldl (+) 0 vals)"

definition stateCB :: "goerror option \<Rightarrow> u32 \<Rightarrow> monitor \<Rightarrow> monitor" where
  "stateCB err peercnt m = m\<lparr>m_out := m_out m @ [(map_option etext err, peercnt)]\<rparr>"

definition mon_launch :: "(channel \<Rightarrow> bool) \<Rightarrow> bool \<Rightarrow> nat list \<Rightarrow> monitor" where
  "mon_launch errcs isdone vals =
     (let pcnt = totalPeers vals
      in stateCB None pcnt
           \<lparr>m_errc = errcs, m_pcnt = pcnt, m_lasterr = None, m_done = isdone,
            m_stopped = False, m_out = []\<rparr>)"

text \<open>The statement after the \<open>select\<close>: a recorded error makes the monitor cancel the node's context.\<close>

definition after_select :: "monitor \<Rightarrow> monitor" where
  "after_select m = (if m_lasterr m \<noteq> None then m\<lparr>m_done := True\<rparr> else m)"

fun mon_select :: "mon_event \<Rightarrow> monitor \<Rightarrow> monitor" where
  "mon_select (Recv ch err) m =
     after_select
       (if err \<noteq> None then m\<lparr>m_lasterr := err\<rparr> else m\<lparr>m_errc := (m_errc m)(ch := False)\<rparr>)"
| "mon_select (Timer vals) m =
     after_select
       (if m_pcnt m \<noteq> totalPeers vals
        then stateCB None (totalPeers vals) (m\<lparr>m_pcnt := totalPeers vals\<rparr>) else m)"
| "mon_select CtxDone m = (stateCB (m_lasterr m) 0 m)\<lparr>m_stopped := True\<rparr>"
| "mon_select NodeCancelled m = m\<lparr>m_done := True\<rparr>"

text \<open>
  When an event can happen: a nil channel is never ready, the context must be done, and a monitor
  that has returned takes no event.
\<close>

fun mon_ready :: "mon_event \<Rightarrow> monitor \<Rightarrow> bool" where
  "mon_ready (Recv ch err) m = (\<not> m_stopped m \<and> m_errc m ch)"
| "mon_ready (Timer vals) m = (\<not> m_stopped m)"
| "mon_ready CtxDone m = (\<not> m_stopped m \<and> m_done m)"
| "mon_ready NodeCancelled m = True"

inductive mon_step :: "monitor \<Rightarrow> mon_event \<Rightarrow> monitor \<Rightarrow> bool" where
  mon_stepI: "mon_ready e m \<Longrightarrow> mon_step m e (mon_select e m)"

inductive_simps mon_step_iff: "mon_step m e m'"

definition mon_start :: "monitor \<Rightarrow> bool" where
  "mon_start m \<longleftrightarrow> (\<exists>errcs isdone vals. m = mon_launch errcs isdone vals)"

section \<open>The invariant of the monitor\<close>

text \<open>
  The callback history is a sequence of peer counts, no two in a row equal and the last one the
  current count, each reported without an error; a monitor that has returned has added one last
  report of the last error with a count of zero. A recorded error means the context is done.
\<close>

definition reports :: "monitor \<Rightarrow> u32 list \<Rightarrow> bool" where
  "reports m cs \<longleftrightarrow> cs \<noteq> [] \<and> distinct_adj cs \<and> last cs = m_pcnt m \<and>
     m_out m = map (Pair None) cs @
       (if m_stopped m then [(map_option etext (m_lasterr m), 0)] else [])"

definition mon_inv :: "monitor \<Rightarrow> bool" where
  "mon_inv m \<longleftrightarrow> (\<exists>cs. reports m cs) \<and>
     (m_lasterr m \<noteq> None \<longrightarrow> m_done m) \<and> (m_stopped m \<longrightarrow> m_done m)"

lemma distinct_adj_snoc:
  "distinct_adj (xs @ [x]) \<longleftrightarrow> distinct_adj xs \<and> (xs \<noteq> [] \<longrightarrow> last xs \<noteq> x)"
  by (induction xs rule: induct_list012) auto

lemma after_select_sel [simp]:
  "m_errc (after_select m) = m_errc m" "m_pcnt (after_select m) = m_pcnt m"
  "m_lasterr (after_select m) = m_lasterr m" "m_stopped (after_select m) = m_stopped m"
  "m_out (after_select m) = m_out m"
  "m_done (after_select m) \<longleftrightarrow> m_done m \<or> m_lasterr m \<noteq> None"
  by (auto simp: after_select_def)

lemma stateCB_sel [simp]:
  "m_errc (stateCB e c m) = m_errc m" "m_pcnt (stateCB e c m) = m_pcnt m"
  "m_lasterr (stateCB e c m) = m_lasterr m" "m_stopped (stateCB e c m) = m_stopped m"
  "m_done (stateCB e c m) = m_done m" "m_out (stateCB e c m) = m_out m @ [(map_option etext e, c)]"
  by (simp_all add: stateCB_def)

lemma reports_launch: "reports (mon_launch errcs isdone vals) [totalPeers vals]"
  by (simp add: reports_def mon_launch_def Let_def)

lemma reports_select:
  assumes "mon_ready e m" and "reports m cs"
  shows "\<exists>cs'. reports (mon_select e m) cs'"
proof (cases e)
  case (Timer vals)
  let ?n = "totalPeers vals"
  show ?thesis
  proof (cases "m_pcnt m = ?n")
    case True
    with Timer assms show ?thesis by (auto simp: reports_def)
  next
    case False
    with Timer assms have "reports (mon_select e m) (cs @ [?n])"
      by (simp add: reports_def distinct_adj_snoc)
    then show ?thesis ..
  qed
qed (use assms in \<open>auto simp: reports_def\<close>)

lemma mon_inv_launch: "mon_start m \<Longrightarrow> mon_inv m"
  using reports_launch
  by (auto simp: mon_start_def mon_inv_def) (simp_all add: mon_launch_def Let_def)

lemma mon_inv_step:
  assumes "mon_step m e m'" and "mon_inv m"
  shows "mon_inv m'"
proof -
  from assms have r: "mon_ready e m" and m': "m' = mon_select e m" by (auto simp: mon_step_iff)
  from assms(2) r have "\<exists>cs. reports m' cs" unfolding m' mon_inv_def by (blast intro: reports_select)
  with assms(2) r show ?thesis unfolding m' by (cases e) (auto simp: mon_inv_def)
qed

interpretation mon: inv_system mon_start mon_step mon_inv
  by unfold_locales (blast intro: mon_inv_launch mon_inv_step)+

text \<open>An error once recorded stays recorded, although a later one may replace it.\<close>

lemma mon_error_stays: "mon_step m e m' \<Longrightarrow> m_lasterr m \<noteq> None \<Longrightarrow> m_lasterr m' \<noteq> None"
  by (cases e) (auto simp: mon_step_iff)

lemma mon_run_error_stays: "mon.run m es m' \<Longrightarrow> m_lasterr m \<noteq> None \<Longrightarrow> m_lasterr m' \<noteq> None"
  by (induction rule: mon.run.induct) (blast dest: mon_error_stays)+

lemma mon_stopped_stays: "mon_step m e m' \<Longrightarrow> m_stopped m \<Longrightarrow> m_stopped m' \<and> m_out m' = m_out m"
  by (cases e) (auto simp: mon_step_iff)

lemma mon_run_stopped_stays:
  "mon.run m es m' \<Longrightarrow> m_stopped m \<Longrightarrow> m_stopped m' \<and> m_out m' = m_out m"
  by (induction rule: mon.run.induct) (auto dest: mon_stopped_stays)

lemma mon_channel_stays_nil: "mon_step m e m' \<Longrightarrow> \<not> m_errc m ch \<Longrightarrow> \<not> m_errc m' ch"
  by (cases e) (auto simp: mon_step_iff)

text \<open>After an error the context is done and stays done, until the monitor has returned.\<close>

lemma mon_error_stop_ready:
  assumes "mon_inv m" and "m_lasterr m \<noteq> None" and "\<not> m_stopped m"
  shows "mon_step m CtxDone (mon_select CtxDone m)"
  by (rule mon_stepI) (use assms in \<open>simp add: mon_inv_def\<close>)

section \<open>The services beside the monitor\<close>

text \<open>
  The goroutines behind one channel: how many still work, the results of those that wait at the
  send statement \<open>errc <- ...\<close> (an unbuffered send completes only with a receive), and whether the
  \<open>close(errc)\<close> that follows the last send is still to come. A service that is off has no goroutine
  and its channel variable is nil.
\<close>

record service =
  sv_running :: nat
  sv_sending :: "goerror option list"
  sv_closer :: bool

record system =
  sys_mon :: monitor
  sys_svc :: "channel \<Rightarrow> service"

datatype sys_event =
    SvFinish channel "goerror option"
  | SvDeliver channel nat
  | SvClose channel
  | SvDrained channel
  | MonEv mon_event

definition upd_svc :: "channel \<Rightarrow> (service \<Rightarrow> service) \<Rightarrow> system \<Rightarrow> system" where
  "upd_svc ch f y = y\<lparr>sys_svc := (sys_svc y)(ch := f (sys_svc y ch))\<rparr>"

definition sys_launch :: "(channel \<Rightarrow> nat option) \<Rightarrow> bool \<Rightarrow> nat list \<Rightarrow> system" where
  "sys_launch n isdone vals = \<lparr>
     sys_mon = mon_launch (\<lambda>ch. n ch \<noteq> None) isdone vals,
     sys_svc = (\<lambda>ch. case n ch of
        None \<Rightarrow> \<lparr>sv_running = 0, sv_sending = [], sv_closer = False\<rparr>
      | Some k \<Rightarrow> \<lparr>sv_running = k, sv_sending = [], sv_closer = True\<rparr>)\<rparr>"

fun sys_ready :: "sys_event \<Rightarrow> system \<Rightarrow> bool" where
  "sys_ready (SvFinish ch r) y = (0 < sv_running (sys_svc y ch))"
| "sys_ready (SvDeliver ch i) y =
     (i < length (sv_sending (sys_svc y ch)) \<and>
      mon_ready (Recv ch (sv_sending (sys_svc y ch) ! i)) (sys_mon y))"
| "sys_ready (SvClose ch) y =
     (sv_running (sys_svc y ch) = 0 \<and> sv_sending (sys_svc y ch) = [] \<and> sv_closer (sys_svc y ch))"
| "sys_ready (SvDrained ch) y =
     (\<not> sv_closer (sys_svc y ch) \<and> mon_ready (Recv ch None) (sys_mon y))"
| "sys_ready (MonEv (Recv ch r)) y = False"
| "sys_ready (MonEv e) y = mon_ready e (sys_mon y)"

fun sys_exec :: "sys_event \<Rightarrow> system \<Rightarrow> system" where
  "sys_exec (SvFinish ch r) y =
     upd_svc ch (\<lambda>v. v\<lparr>sv_running := sv_running v - 1, sv_sending := sv_sending v @ [r]\<rparr>) y"
| "sys_exec (SvDeliver ch i) y =
     upd_svc ch (\<lambda>v. v\<lparr>sv_sending := take i (sv_sending v) @ drop (Suc i) (sv_sending v)\<rparr>)
       (y\<lparr>sys_mon := mon_select (Recv ch (sv_sending (sys_svc y ch) ! i)) (sys_mon y)\<rparr>)"
| "sys_exec (SvClose ch) y = upd_svc ch (\<lambda>v. v\<lparr>sv_closer := False\<rparr>) y"
| "sys_exec (SvDrained ch) y = y\<lparr>sys_mon := mon_select (Recv ch None) (sys_mon y)\<rparr>"
| "sys_exec (MonEv e) y = y\<lparr>sys_mon := mon_select e (sys_mon y)\<rparr>"

inductive sys_step :: "system \<Rightarrow> sys_event \<Rightarrow> system \<Rightarrow> bool" where
  sys_stepI: "sys_ready e y \<Longrightarrow> sys_step y e (sys_exec e y)"

inductive_simps sys_step_iff: "sys_step y e y'"

definition sys_start :: "system \<Rightarrow> bool" where
  "sys_start y \<longleftrightarrow> (\<exists>n isdone vals. y = sys_launch n isdone vals)"

text \<open>The monitor listens on a channel while it runs and the variable is not nil.\<close>

definition listening :: "channel \<Rightarrow> monitor \<Rightarrow> bool" where
  "listening ch m \<longleftrightarrow> \<not> m_stopped m \<and> m_errc m ch"

text \<open>The goroutines of a service that have not got past their send.\<close>

definition unsent :: "channel \<Rightarrow> system \<Rightarrow> nat" where
  "unsent ch y = sv_running (sys_svc y ch) + length (sv_sending (sys_svc y ch))"

definition sys_inv :: "system \<Rightarrow> bool" where
  "sys_inv y \<longleftrightarrow> mon_inv (sys_mon y) \<and>
     (\<forall>ch. \<not> sv_closer (sys_svc y ch) \<longrightarrow> unsent ch y = 0)"

lemma upd_svc_sel [simp]:
  "sys_mon (upd_svc ch f y) = sys_mon y" "sys_svc (upd_svc ch f y) ch = f (sys_svc y ch)"
  "ch' \<noteq> ch \<Longrightarrow> sys_svc (upd_svc ch f y) ch' = sys_svc y ch'"
  by (simp_all add: upd_svc_def)

text \<open>The monitor's part of a step of the system is a step of the monitor, or nothing.\<close>

fun mon_part :: "sys_event \<Rightarrow> system \<Rightarrow> mon_event option" where
  "mon_part (SvDeliver ch i) y = Some (Recv ch (sv_sending (sys_svc y ch) ! i))"
| "mon_part (SvDrained ch) y = Some (Recv ch None)"
| "mon_part (MonEv e) y = Some e"
| "mon_part _ y = None"

lemma sys_step_mon:
  assumes "sys_step y e y'"
  shows "(mon_part e y = None \<and> sys_mon y' = sys_mon y) \<or>
    (\<exists>me. mon_part e y = Some me \<and> mon_step (sys_mon y) me (sys_mon y'))"
  using assms
  by (cases "(e, y)" rule: sys_ready.cases)
     (auto simp: sys_step_iff mon_step_iff simp del: mon_select.simps mon_ready.simps)

lemma sys_inv_launch: "sys_start y \<Longrightarrow> sys_inv y"
proof -
  assume "sys_start y"
  then obtain n isdone vals where y: "y = sys_launch n isdone vals" by (auto simp: sys_start_def)
  have "mon_inv (sys_mon y)" by (rule mon_inv_launch) (auto simp: y sys_launch_def mon_start_def)
  then show ?thesis by (simp add: y sys_inv_def sys_launch_def unsent_def split: option.split)
qed

lemma sys_inv_step:
  assumes "sys_step y e y'" and "sys_inv y"
  shows "sys_inv y'"
proof -
  have "mon_inv (sys_mon y')"
    using sys_step_mon [OF assms(1)] assms(2) mon_inv_step unfolding sys_inv_def by auto
  moreover have "\<not> sv_closer (sys_svc y' ch) \<longrightarrow> unsent ch y' = 0" for ch
  proof -
    have "\<not> sv_closer (sys_svc y ch) \<longrightarrow> unsent ch y = 0" using assms(2) by (simp add: sys_inv_def)
    then show ?thesis
      using assms(1)
      by (cases e) (auto simp: sys_step_iff unsent_def upd_svc_def)
  qed
  ultimately show ?thesis by (simp add: sys_inv_def)
qed

interpretation sys: inv_system sys_start sys_step sys_inv
  by unfold_locales (blast intro: sys_inv_launch sys_inv_step)+

text \<open>
  A channel the monitor has stopped listening on stays that way, and then the goroutines behind it
  stay where they are.
\<close>

lemma not_listening_step: "mon_step m e m' \<Longrightarrow> \<not> listening ch m \<Longrightarrow> \<not> listening ch m'"
  unfolding listening_def by (blast dest: mon_stopped_stays mon_channel_stays_nil)

lemma stuck_step:
  assumes "sys_step y e y'" and "\<not> listening ch (sys_mon y)"
  shows "\<not> listening ch (sys_mon y') \<and> unsent ch y' = unsent ch y \<and>
    (0 < unsent ch y \<longrightarrow> sv_closer (sys_svc y' ch) = sv_closer (sys_svc y ch))"
proof -
  have "\<not> listening ch (sys_mon y')"
    using sys_step_mon [OF assms(1)] assms(2) not_listening_step by metis
  moreover have "unsent ch y' = unsent ch y"
    using assms by (cases e) (auto simp: sys_step_iff unsent_def listening_def upd_svc_def)
  moreover have "0 < unsent ch y \<longrightarrow> sv_closer (sys_svc y' ch) = sv_closer (sys_svc y ch)"
    using assms by (cases e) (auto simp: sys_step_iff unsent_def upd_svc_def)
  ultimately show ?thesis by simp
qed

lemma stuck_run:
  assumes "sys.run y es y'" and "\<not> listening ch (sys_mon y)" and "0 < unsent ch y"
  shows "\<not> listening ch (sys_mon y') \<and> unsent ch y' = unsent ch y \<and>
    sv_closer (sys_svc y' ch) = sv_closer (sys_svc y ch)"
  using assms
proof (induction rule: sys.run.induct)
  case (run_cons y e t es u)
  from stuck_step [OF run_cons.hyps(1) run_cons.prems(1)] run_cons.IH run_cons.prems
  show ?case by simp
qed simp

text \<open>Without a channel to listen on, no error is recorded any more.\<close>

lemma deaf_step:
  assumes "sys_step y e y'" and "\<forall>ch. \<not> listening ch (sys_mon y)"
  shows "(\<forall>ch. \<not> listening ch (sys_mon y')) \<and> m_lasterr (sys_mon y') = m_lasterr (sys_mon y)"
proof
  show "\<forall>ch. \<not> listening ch (sys_mon y')" using stuck_step [OF assms(1)] assms(2) by blast
  show "m_lasterr (sys_mon y') = m_lasterr (sys_mon y)"
    using assms by (cases "(e, y)" rule: sys_ready.cases) (auto simp: sys_step_iff listening_def)
qed

lemma deaf_run:
  "sys.run y es y' \<Longrightarrow> \<forall>ch. \<not> listening ch (sys_mon y) \<Longrightarrow>
   m_lasterr (sys_mon y') = m_lasterr (sys_mon y)"
proof (induction rule: sys.run.induct)
  case (run_cons y e t es u)
  from deaf_step [OF run_cons.hyps(1) run_cons.prems] run_cons.IH show ?case by simp
qed simp

text \<open>Executing a list of events, as a check that it is a run.\<close>

fun sys_play :: "sys_event list \<Rightarrow> system \<Rightarrow> system option" where
  "sys_play [] y = Some y"
| "sys_play (e # es) y = (if sys_ready e y then sys_play es (sys_exec e y) else None)"

lemma sys_play_run: "sys_play es y = Some y' \<Longrightarrow> sys.run y es y'"
  by (induction es y rule: sys_play.induct)
     (auto split: if_splits intro: sys.run.intros sys_stepI)

fun mon_play :: "mon_event list \<Rightarrow> monitor \<Rightarrow> monitor option" where
  "mon_play [] m = Some m"
| "mon_play (e # es) m = (if mon_ready e m then mon_play es (mon_select e m) else None)"

lemma mon_play_run: "mon_play es m = Some m' \<Longrightarrow> mon.run m es m'"
  by (induction es m rule: mon_play.induct)
     (auto split: if_splits intro: mon.run.intros mon_stepI)

section \<open>Properties\<close>

text \<open>
  C10: the state callback is told the peer count when the monitor starts and then only when it has
  changed, never with an error; it gets one last report, with the last error and a count of zero,
  when the monitor returns, and none after it. Whatever the order of events.
\<close>

theorem monitor_callback_history:
  assumes "mon.run (mon_launch errcs isdone vals) es m"
  shows "(\<exists>cs. cs \<noteq> [] \<and> distinct_adj cs \<and> last cs = m_pcnt m \<and>
      m_out m = map (Pair None) cs @
        (if m_stopped m then [(map_option etext (m_lasterr m), 0)] else [])) \<and>
    (m_stopped m \<longrightarrow> (\<forall>es' m'. mon.run m es' m' \<longrightarrow> m_out m' = m_out m))"
proof -
  have "mon_start (mon_launch errcs isdone vals)" by (auto simp: mon_start_def)
  from mon.run_from_start [OF this assms] have "mon_inv m" .
  then show ?thesis using mon_run_stopped_stays by (auto simp: mon_inv_def reports_def)
qed

definition demo_events :: "mon_event list" where
  "demo_events = [Timer [2, 1], Timer [3], Recv apiErrc (Some (Errorf ''bind'')), Timer [4], CtxDone]"

theorem monitor_callback_history_witness:
  "\<exists>m. mon.run (mon_launch (\<lambda>_. True) False [1]) demo_events m \<and> m_stopped m \<and>
     m_out m = [(None, 1), (None, 3), (None, 4), (Some ''bind'', 0)] \<and>
     (\<forall>es' m'. mon.run m es' m' \<longrightarrow> m_out m' = m_out m)"
proof -
  let ?m0 = "mon_launch (\<lambda>_. True) False [1]"
  obtain m where m: "mon_play demo_events ?m0 = Some m" "m_stopped m"
    "m_out m = [(None, 1), (None, 3), (None, 4), (Some ''bind'', 0)]"
    by (simp add: demo_events_def mon_launch_def Let_def totalPeers_def after_select_def stateCB_def)
  from mon_play_run [OF m(1)] have r: "mon.run ?m0 demo_events m" .
  from monitor_callback_history [OF r] m r show ?thesis by blast
qed

text \<open>
  C11: an error of a service is not lost while the monitor runs. After it has been received the
  node's context is done, the monitor can return at once, and whenever it returns its last report
  carries an error.
\<close>

theorem monitor_error_shuts_down:
  assumes "mon.run (mon_launch errcs isdone vals) es m" and "Recv ch (Some err) \<in> set es"
  shows "m_done m \<and>
    (\<not> m_stopped m \<longrightarrow> (\<exists>m'. mon_step m CtxDone m' \<and> m_stopped m')) \<and>
    (m_stopped m \<longrightarrow> (\<exists>txt. last (m_out m) = (Some txt, 0)))"
proof -
  have rec: "m_lasterr t \<noteq> None" if "mon.run s es t" "Recv ch (Some err) \<in> set es" for s es t
    using that
  proof (induction rule: mon.run.induct)
    case (run_cons s e t es u)
    show ?case
    proof (cases "e = Recv ch (Some err)")
      case True
      with run_cons.hyps(1) have "m_lasterr t \<noteq> None" by (simp add: mon_step_iff)
      with run_cons.hyps(2) show ?thesis by (rule mon_run_error_stays)
    qed (use run_cons in auto)
  qed simp
  have "mon_start (mon_launch errcs isdone vals)" by (auto simp: mon_start_def)
  from mon.run_from_start [OF this assms(1)] have inv: "mon_inv m" .
  from rec [OF assms] have err: "m_lasterr m \<noteq> None" .
  have "\<not> m_stopped m \<longrightarrow> (\<exists>m'. mon_step m CtxDone m' \<and> m_stopped m')"
    using mon_error_stop_ready [OF inv err] by fastforce
  with inv err show ?thesis by (auto simp: mon_inv_def reports_def)
qed

theorem monitor_error_shuts_down_witness:
  "\<exists>m. mon.run (mon_launch (\<lambda>_. True) False [1]) demo_events m \<and> m_done m \<and>
     (\<exists>txt. last (m_out m) = (Some txt, 0))"
proof -
  let ?m0 = "mon_launch (\<lambda>_. True) False [1]"
  obtain m where m: "mon_play demo_events ?m0 = Some m" "m_stopped m"
    by (simp add: demo_events_def mon_launch_def Let_def totalPeers_def after_select_def stateCB_def)
  from mon_play_run [OF m(1)] have r: "mon.run ?m0 demo_events m" .
  have "Recv apiErrc (Some (Errorf ''bind'')) \<in> set demo_events" by (simp add: demo_events_def)
  from monitor_error_shuts_down [OF r this] m r show ?thesis by blast
qed

text \<open>
  C38: a service goroutine that has not handed over its result when the monitor returns never gets
  past its send, and its channel is never closed, whatever happens later: with garbage collection
  on, stopping the node before the collector has ended leaves its goroutine behind.
\<close>

theorem unreceived_result_blocks_forever:
  assumes "sys.run (sys_launch n isdone vals) es y" and "\<not> listening ch (sys_mon y)"
    and "0 < unsent ch y" and "sys.run y es' y'"
  shows "unsent ch y' = unsent ch y \<and> sv_closer (sys_svc y' ch)"
proof -
  have "sys_start (sys_launch n isdone vals)" by (auto simp: sys_start_def)
  from sys.run_from_start [OF this assms(1)] have "sys_inv y" .
  with assms(3) have "sv_closer (sys_svc y ch)" unfolding sys_inv_def by fastforce
  with stuck_run [OF assms(4,2,3)] show ?thesis by simp
qed

theorem unreceived_result_blocks_forever_witness:
  "\<exists>y. sys.run (sys_launch [gcErrc \<mapsto> 1] False [0])
       [MonEv NodeCancelled, MonEv CtxDone, SvFinish gcErrc None] y \<and>
     (\<forall>es' y'. sys.run y es' y' \<longrightarrow> unsent gcErrc y' = 1 \<and> sv_closer (sys_svc y' gcErrc))"
proof -
  let ?y0 = "sys_launch [gcErrc \<mapsto> 1] False [0]"
    and ?es = "[MonEv NodeCancelled, MonEv CtxDone, SvFinish gcErrc None]"
  obtain y where y: "sys_play ?es ?y0 = Some y" "\<not> listening gcErrc (sys_mon y)" "unsent gcErrc y = 1"
    by (simp add: sys_launch_def mon_launch_def Let_def listening_def unsent_def upd_svc_def)
  from sys_play_run [OF y(1)] have r: "sys.run ?y0 ?es y" .
  from unreceived_result_blocks_forever [OF r y(2)] y r show ?thesis by auto
qed

text \<open>
  A server that ends without an error makes the monitor drop the channel that all servers of
  that kind share. When it is the only service, nothing the remaining servers report is received
  from then on: their errors are neither reported nor acted on, and their goroutines stay blocked.
\<close>

theorem clean_exit_mutes_other_servers:
  assumes "sys.run (sys_launch [ch \<mapsto> k] False vals) es y" and "\<not> m_errc (sys_mon y) ch"
    and "m_lasterr (sys_mon y) = None" and "0 < unsent ch y" and "sys.run y es' y'"
  shows "m_lasterr (sys_mon y') = None \<and> unsent ch y' = unsent ch y"
proof -
  have nil: "\<not> m_errc (sys_mon y) c" if "sys.run x es y" "\<not> m_errc (sys_mon x) c" for x es y c
    using that
  proof (induction rule: sys.run.induct)
    case (run_cons s e t es u)
    then have "\<not> m_errc (sys_mon t) c" using sys_step_mon mon_channel_stays_nil by metis
    then show ?case by (rule run_cons.IH)
  qed
  have "\<not> m_errc (sys_mon y) c" for c
  proof (cases "c = ch")
    case False
    then show ?thesis
      by (intro nil [OF assms(1)]) (simp add: sys_launch_def mon_launch_def Let_def)
  qed (use assms(2) in simp)
  then have deaf: "\<forall>c. \<not> listening c (sys_mon y)" by (simp add: listening_def)
  with deaf_run [OF assms(5) deaf] stuck_run [OF assms(5) _ assms(4)] assms(3) show ?thesis by simp
qed

theorem clean_exit_mutes_other_servers_witness:
  "\<exists>y. sys.run (sys_launch [apiErrc \<mapsto> 2] False [0])
       [SvFinish apiErrc None, SvDeliver apiErrc 0, SvFinish apiErrc (Some (Errorf ''accept''))] y \<and>
     sv_sending (sys_svc y apiErrc) = [Some (Errorf ''accept'')] \<and>
     (\<forall>es' y'. sys.run y es' y' \<longrightarrow> m_lasterr (sys_mon y') = None \<and> unsent apiErrc y' = 1)"
proof -
  let ?y0 = "sys_launch [apiErrc \<mapsto> 2] False [0]"
    and ?es = "[SvFinish apiErrc None, SvDeliver apiErrc 0, SvFinish apiErrc (Some (Errorf ''accept''))]"
  obtain y where y: "sys_play ?es ?y0 = Some y" "\<not> m_errc (sys_mon y) apiErrc"
    "sv_sending (sys_svc y apiErrc) = [Some (Errorf ''accept'')]" "unsent apiErrc y = 1"
    "m_lasterr (sys_mon y) = None"
    by (simp add: sys_launch_def mon_launch_def Let_def unsent_def upd_svc_def after_select_def
        numeral_2_eq_2)
  from sys_play_run [OF y(1)] have r: "sys.run ?y0 ?es y" .
  from clean_exit_mutes_other_servers [OF r y(2,5)] y r show ?thesis by auto
qed

end
