(* ===== verification/Go_Json.thy ===== *)
theory Go_Json
  imports Go_Strings
begin

text \<open>
  The part of \<open>encoding/json\<close> (Go 1.16) that \<open>json.Unmarshal\<close> goes through before it looks at the target
  type: scanning the text into tokens, with the unquoting of strings, and the pushdown automaton
  that accepts the tokens and builds the value.
\<close>

section \<open>Values and tokens\<close>

text \<open>A number keeps its literal, since how it is read depends on the type it is stored to.\<close>

datatype json =
    JNull
  | JBool bool
  | JNum string
  | JStr bytes
  | JArr "json list"
  | JObj "(bytes \<times> json) list"

datatype token =
    TLBrace | TRBrace | TLBrack | TRBrack | TColon | TComma
  | TNull | TTrue | TFalse
  | TNum string
  | TStr bytes

section \<open>Runes\<close>

definition char_code :: "char \<Rightarrow> nat" where
  "char_code c = of_char c"

definition is_cont :: "char \<Rightarrow> bool" where
  "is_cont c \<longleftrightarrow> 0x80 \<le> char_code c \<and> char_code c \<le> 0xBF"

text \<open>
  \<open>utf8.DecodeRune\<close>: the number of bytes of the rune a text begins with, 0 when they are no rune.
  \<open>rune_tail\<close> is what the first byte asks of the bytes after it.
\<close>

definition rune_tail :: "char \<Rightarrow> char \<Rightarrow> nat" where
  "rune_tail a b =
     (if 0xC2 \<le> char_code a \<and> char_code a \<le> 0xDF \<and> is_cont b then 2
      else if (char_code a = 0xE0 \<and> 0xA0 \<le> char_code b \<and> char_code b \<le> 0xBF) \<or>
              (char_code a = 0xED \<and> 0x80 \<le> char_code b \<and> char_code b \<le> 0x9F) \<or>
              (0xE1 \<le> char_code a \<and> char_code a \<le> 0xEF \<and> char_code a \<noteq> 0xED \<and> is_cont b) then 3
      else if (char_code a = 0xF0 \<and> 0x90 \<le> char_code b \<and> char_code b \<le> 0xBF) \<or>
              (0xF1 \<le> char_code a \<and> char_code a \<le> 0xF3 \<and> is_cont b) \<or>
              (char_code a = 0xF4 \<and> 0x80 \<le> char_code b \<and> char_code b \<le> 0x8F) then 4
      else 0)"

fun rune_len :: "string \<Rightarrow> nat" where
  "rune_len [] = 0"
| "rune_len [a] = (if char_code a < 0x80 then 1 else 0)"
| "rune_len (a # b # s) =
     (if char_code a < 0x80 then 1
      else (let n = rune_tail a b
            in if n - 2 \<le> length s \<and> (\<forall>c \<in> set (take (n - 2) s). is_cont c) then n else 0))"

text \<open>\<open>utf8.EncodeRune\<close>; surrogates and numbers that are no char_code point become U+FFFD.\<close>

definition replacement :: bytes where
  "replacement = [CHR 0xEF, CHR 0xBF, CHR 0xBD]"

definition encode_rune :: "nat \<Rightarrow> bytes" where
  "encode_rune r =
     (if r < 0x80 then [char_of r]
      else if r < 0x800 then [char_of (0xC0 + r div 0x40), char_of (0x80 + r mod 0x40)]
      else if r \<ge> 0x110000 \<or> (0xD800 \<le> r \<and> r < 0xE000) then replacement
      else if r < 0x10000 then
        [char_of (0xE0 + r div 0x1000), char_of (0x80 + r div 0x40 mod 0x40), char_of (0x80 + r mod 0x40)]
      else
        [char_of (0xF0 + r div 0x40000), char_of (0x80 + r div 0x1000 mod 0x40),
         char_of (0x80 + r div 0x40 mod 0x40), char_of (0x80 + r mod 0x40)])"

definition hex_val :: "char \<Rightarrow> nat option" where
  "hex_val c =
     (if 48 \<le> char_code c \<and> char_code c \<le> 57 then Some (char_code c - 48)
      else if 97 \<le> char_code c \<and> char_code c \<le> 102 then Some (char_code c - 87)
      else if 65 \<le> char_code c \<and> char_code c \<le> 70 then Some (char_code c - 55)
      else None)"

text \<open>Four hexadecimal digits; \<open>getu4\<close> wants the backslash and the \<open>u\<close> before them.\<close>

fun hex4 :: "string \<Rightarrow> nat option" where
  "hex4 (a # b # c # d # s) =
     (case (hex_val a, hex_val b, hex_val c, hex_val d) of
        (Some w, Some x, Some y, Some z) \<Rightarrow> Some (w * 4096 + x * 256 + y * 16 + z)
      | _ \<Rightarrow> None)"
| "hex4 _ = None"

definition getu4 :: "string \<Rightarrow> nat option" where
  "getu4 s = (case s of
     a # b # r \<Rightarrow> (if a = CHR 0x5C \<and> b = CHR ''u'' then hex4 r else None) | _ \<Rightarrow> None)"

definition is_surrogate :: "nat \<Rightarrow> bool" where
  "is_surrogate r \<longleftrightarrow> 0xD800 \<le> r \<and> r < 0xE000"

text \<open>
  The rune of an escape with the value \<open>r\<close>, and how many more bytes it takes: a high surrogate joins
  with a low one that follows it, any other surrogate is replaced.
\<close>

definition escape_rune :: "nat \<Rightarrow> string \<Rightarrow> bytes \<times> nat" where
  "escape_rune r s =
     (if \<not> is_surrogate r then (encode_rune r, 0)
      else case getu4 s of
             Some r1 \<Rightarrow>
               (if r < 0xDC00 \<and> 0xDC00 \<le> r1 \<and> r1 < 0xE000
                then (encode_rune ((r - 0xD800) * 0x400 + (r1 - 0xDC00) + 0x10000), 6)
                else (replacement, 0))
           | None \<Rightarrow> (replacement, 0))"

section \<open>Strings\<close>

definition simple_escape :: "char \<Rightarrow> char option" where
  "simple_escape e =
     (if e = CHR 0x22 then Some (CHR 0x22) else if e = CHR 0x5C then Some (CHR 0x5C)
      else if e = CHR ''/'' then Some (CHR ''/'') else if e = CHR ''b'' then Some (CHR 0x08)
      else if e = CHR ''f'' then Some (CHR 0x0C) else if e = CHR ''n'' then Some (CHR 0x0A)
      else if e = CHR ''r'' then Some (CHR 0x0D) else if e = CHR ''t'' then Some (CHR 0x09)
      else None)"

text \<open>
  One step through a string: the bytes it gives and how many bytes it takes, less one. \<open>lex_string\<close> is
  given the text after the opening quote and returns the unquoted bytes and what follows the string.
\<close>

fun lex_char :: "string \<Rightarrow> (bytes \<times> nat) option" where
  "lex_char [] = None"
| "lex_char (c # r) =
     (if c = CHR 0x5C then
        (case r of
           [] \<Rightarrow> None
         | e # r' \<Rightarrow>
             (if e = CHR ''u'' then
                (case hex4 r' of
                   None \<Rightarrow> None
                 | Some v \<Rightarrow> (case escape_rune v (drop 4 r') of (b, k) \<Rightarrow> Some (b, 5 + k)))
              else map_option (\<lambda>b. ([b], 1)) (simple_escape e)))
      else if char_code c < 0x20 then None
      else if char_code c < 0x80 then Some ([c], 0)
      else if rune_len (c # r) = 0 then Some (replacement, 0)
      else Some (take (rune_len (c # r)) (c # r), rune_len (c # r) - 1))"

function lex_string :: "string \<Rightarrow> (bytes \<times> string) option" where
  "lex_string s =
     (case s of
        [] \<Rightarrow> None
      | c # r \<Rightarrow>
          (if c = CHR 0x22 then Some ([], r)
           else case lex_char s of
                  None \<Rightarrow> None
                | Some (b, k) \<Rightarrow> map_option (apfst (append b)) (lex_string (drop (Suc k) s))))"
  by pat_completeness auto
termination
  by (relation "measure length") auto

declare lex_string.simps [simp del]

lemma lex_string_quote [simp]: "lex_string (CHR 0x22 # r) = Some ([], r)"
  by (simp add: lex_string.simps)

lemma lex_string_step:
  "c \<noteq> CHR 0x22 \<Longrightarrow> lex_char (c # r) = Some (b, k) \<Longrightarrow>
   lex_string (c # r) = map_option (apfst (append b)) (lex_string (drop k r))"
  by (subst lex_string.simps) simp

lemma lex_string_shorter: "lex_string s = Some (b, t) \<Longrightarrow> length t < length s"
proof (induction s arbitrary: b rule: lex_string.induct)
  case (1 s)
  show ?case
  proof (cases s)
    case (Cons c r)
    show ?thesis
    proof (cases "c = CHR 0x22")
      case False
      with 1(2) Cons obtain x k y where lc: "lex_char s = Some (x, k)"
        and r: "lex_string (drop (Suc k) s) = Some (y, t)"
        by (subst (asm) lex_string.simps) (auto split: option.splits simp: apfst_def map_prod_def)
      from 1(1) [OF Cons False lc refl r] Cons show ?thesis by simp
    qed (use 1(2) Cons in simp)
  qed (use 1(2) in \<open>simp add: lex_string.simps\<close>)
qed

section \<open>Numbers\<close>

definition is_digit :: "char \<Rightarrow> bool" where
  "is_digit c \<longleftrightarrow> 48 \<le> char_code c \<and> char_code c \<le> 57"

definition digits :: "string \<Rightarrow> string \<times> string" where
  "digits s = (takeWhile is_digit s, dropWhile is_digit s)"

text \<open>
  The integer part (no leading zeros), and then the fraction and the exponent, each optional; a point
  or an exponent mark without digits is an error.
\<close>

definition lex_int :: "string \<Rightarrow> (string \<times> string) option" where
  "lex_int s = (case s of
     [] \<Rightarrow> None
   | c # r \<Rightarrow> (if c = CHR ''0'' then Some ([c], r)
              else if is_digit c then Some (digits s) else None))"

definition lex_frac :: "string \<Rightarrow> (string \<times> string) option" where
  "lex_frac s = (case s of
     c # r \<Rightarrow> (if c = CHR ''.'' then
                (if fst (digits r) = [] then None else Some (c # fst (digits r), snd (digits r)))
              else Some ([], s))
   | [] \<Rightarrow> Some ([], s))"

definition lex_exp :: "string \<Rightarrow> (string \<times> string) option" where
  "lex_exp s = (case s of
     c # r \<Rightarrow>
       (if c = CHR ''e'' \<or> c = CHR ''E'' then
          (case r of
             [] \<Rightarrow> None
           | d # r' \<Rightarrow>
               (if d = CHR ''+'' \<or> d = CHR ''-'' then
                  (if fst (digits r') = [] then None else Some (c # d # fst (digits r'), snd (digits r')))
                else if fst (digits r) = [] then None else Some (c # fst (digits r), snd (digits r))))
        else Some ([], s))
   | [] \<Rightarrow> Some ([], s))"

definition lex_sign :: "string \<Rightarrow> string \<times> string" where
  "lex_sign s = (case s of c # r \<Rightarrow> (if c = CHR ''-'' then ([c], r) else ([], s)) | [] \<Rightarrow> ([], s))"

definition lex_number :: "string \<Rightarrow> (string \<times> string) option" where
  "lex_number s =
     (let (sign, s) = lex_sign s
      in case lex_int s of
           None \<Rightarrow> None
         | Some (i, s) \<Rightarrow>
             (case lex_frac s of
                None \<Rightarrow> None
              | Some (f, s) \<Rightarrow>
                  (case lex_exp s of None \<Rightarrow> None | Some (e, s) \<Rightarrow> Some (sign @ i @ f @ e, s))))"

lemma length_dropWhile_digits: "length (snd (digits s)) \<le> length s"
  by (simp add: digits_def length_dropWhile_le)

lemma lex_int_shorter: "lex_int s = Some (i, t) \<Longrightarrow> length t < length s"
  using length_dropWhile_le [of is_digit]
  by (auto simp: lex_int_def digits_def less_Suc_eq_le split: list.splits if_splits)

lemma lex_frac_shorter: "lex_frac s = Some (f, t) \<Longrightarrow> length t \<le> length s"
  using length_dropWhile_le [of is_digit]
  by (auto simp: lex_frac_def digits_def le_SucI split: list.splits if_splits)

lemma lex_exp_shorter: "lex_exp s = Some (e, t) \<Longrightarrow> length t \<le> length s"
  using length_dropWhile_le [of is_digit]
  by (auto simp: lex_exp_def digits_def le_SucI split: list.splits if_splits)

lemma lex_number_shorter: "lex_number s = Some (n, t) \<Longrightarrow> length t < length s"
  unfolding lex_number_def lex_sign_def Let_def
  by (auto split: list.splits if_splits option.splits prod.splits
      dest!: lex_int_shorter lex_frac_shorter lex_exp_shorter)

section \<open>Tokens\<close>

definition is_space :: "char \<Rightarrow> bool" where
  "is_space c \<longleftrightarrow> c = CHR '' '' \<or> c = CHR 0x09 \<or> c = CHR 0x0A \<or> c = CHR 0x0D"

text \<open>The tokens that do not depend on what follows them.\<close>

definition punctuation :: "char \<Rightarrow> token option" where
  "punctuation c =
     (if c = CHR ''{'' then Some TLBrace else if c = CHR ''}'' then Some TRBrace
      else if c = CHR ''['' then Some TLBrack else if c = CHR '']'' then Some TRBrack
      else if c = CHR '':'' then Some TColon else if c = CHR '','' then Some TComma else None)"

definition lex_word :: "string \<Rightarrow> (token \<times> string) option" where
  "lex_word s =
     (if prefix ''null'' s then Some (TNull, drop 4 s)
      else if prefix ''true'' s then Some (TTrue, drop 4 s)
      else if prefix ''false'' s then Some (TFalse, drop 5 s)
      else None)"

definition lex_token :: "string \<Rightarrow> (token \<times> string) option" where
  "lex_token s =
     (case s of
        [] \<Rightarrow> None
      | c # r \<Rightarrow>
          (case punctuation c of
             Some t \<Rightarrow> Some (t, r)
           | None \<Rightarrow>
               (if c = CHR 0x22 then map_option (apfst TStr) (lex_string r)
                else if c = CHR ''-'' \<or> is_digit c then map_option (apfst TNum) (lex_number s)
                else lex_word s)))"

lemma lex_word_shorter: "lex_word s = Some (w, t) \<Longrightarrow> length t < length s"
  by (auto simp: lex_word_def prefix_def split: if_splits)

lemma lex_token_shorter: "lex_token s = Some (w, t) \<Longrightarrow> length t < length s"
  by (auto simp: lex_token_def split: list.splits option.splits if_splits
      dest!: lex_string_shorter lex_number_shorter lex_word_shorter)

function tokenize :: "string \<Rightarrow> token list option" where
  "tokenize s =
     (case s of
        [] \<Rightarrow> Some []
      | c # r \<Rightarrow>
          (if is_space c then tokenize r
           else case lex_token s of
                  None \<Rightarrow> None
                | Some (w, t) \<Rightarrow> map_option (\<lambda>us. w # us) (tokenize t)))"
  by pat_completeness auto
termination
  by (relation "measure length") (auto dest: lex_token_shorter)

declare tokenize.simps [simp del]

lemma tokenize_Nil [simp]: "tokenize [] = Some []"
  by (simp add: tokenize.simps)

lemma tokenize_step:
  "\<not> is_space c \<Longrightarrow> lex_token (c # r) = Some (w, t) \<Longrightarrow> tokenize (c # r) = map_option (\<lambda>us. w # us) (tokenize t)"
  by (subst tokenize.simps) simp

section \<open>The automaton\<close>

text \<open>
  A frame is an array or an object that is not closed yet, with what it holds so far; an object also
  keeps the key that waits for its value.
\<close>

datatype frame = FArr "json list" | FObj "(bytes \<times> json) list" bytes

datatype mode = FirstValue | NeedValue | FirstKey | NeedKey | NeedColon | AfterValue

datatype pstate = PSt mode "frame list" | PDone json

fun deliver :: "json \<Rightarrow> frame list \<Rightarrow> pstate" where
  "deliver v [] = PDone v"
| "deliver v (FArr xs # fs) = PSt AfterValue (FArr (xs @ [v]) # fs)"
| "deliver v (FObj ms k # fs) = PSt AfterValue (FObj (ms @ [(k, v)]) k # fs)"

definition maxNestingDepth :: int where
  "maxNestingDepth = 10000"

definition push :: "mode \<Rightarrow> frame \<Rightarrow> frame list \<Rightarrow> pstate option" where
  "push m f fs = (if int (length fs) < maxNestingDepth then Some (PSt m (f # fs)) else None)"

fun begin_value :: "token \<Rightarrow> frame list \<Rightarrow> pstate option" where
  "begin_value TNull fs = Some (deliver JNull fs)"
| "begin_value TTrue fs = Some (deliver (JBool True) fs)"
| "begin_value TFalse fs = Some (deliver (JBool False) fs)"
| "begin_value (TNum n) fs = Some (deliver (JNum n) fs)"
| "begin_value (TStr b) fs = Some (deliver (JStr b) fs)"
| "begin_value TLBrack fs = push FirstValue (FArr []) fs"
| "begin_value TLBrace fs = push FirstKey (FObj [] []) fs"
| "begin_value _ fs = None"

fun pstep :: "token \<Rightarrow> pstate \<Rightarrow> pstate option" where
  "pstep t (PSt NeedValue fs) = begin_value t fs"
| "pstep TRBrack (PSt FirstValue (FArr xs # fs)) = Some (deliver (JArr xs) fs)"
| "pstep t (PSt FirstValue fs) = begin_value t fs"
| "pstep TRBrace (PSt FirstKey (FObj ms k # fs)) = Some (deliver (JObj ms) fs)"
| "pstep (TStr b) (PSt FirstKey (FObj ms k # fs)) = Some (PSt NeedColon (FObj ms b # fs))"
| "pstep (TStr b) (PSt NeedKey (FObj ms k # fs)) = Some (PSt NeedColon (FObj ms b # fs))"
| "pstep TColon (PSt NeedColon fs) = Some (PSt NeedValue fs)"
| "pstep TComma (PSt AfterValue (FArr xs # fs)) = Some (PSt NeedValue (FArr xs # fs))"
| "pstep TRBrack (PSt AfterValue (FArr xs # fs)) = Some (deliver (JArr xs) fs)"
| "pstep TComma (PSt AfterValue (FObj ms k # fs)) = Some (PSt NeedKey (FObj ms k # fs))"
| "pstep TRBrace (PSt AfterValue (FObj ms k # fs)) = Some (deliver (JObj ms) fs)"
| "pstep _ _ = None"

fun prun :: "token list \<Rightarrow> pstate \<Rightarrow> pstate option" where
  "prun [] st = Some st"
| "prun (t # ts) st = (case pstep t st of None \<Rightarrow> None | Some st \<Rightarrow> prun ts st)"

definition parse_json :: "bytes \<Rightarrow> json option" where
  "parse_json s =
     (case tokenize s of
        None \<Rightarrow> None
      | Some ts \<Rightarrow> (case prun ts (PSt NeedValue []) of Some (PDone v) \<Rightarrow> Some v | _ \<Rightarrow> None))"

section \<open>Printed values\<close>

text \<open>
  A printer of values, as a description of the texts that are read back: no spaces, and in strings
  only the quote, the backslash and control characters are escaped.
\<close>

fun comma_sep :: "token list list \<Rightarrow> token list" where
  "comma_sep [] = []"
| "comma_sep [x] = x"
| "comma_sep (x # y # ys) = x @ TComma # comma_sep (y # ys)"

fun tokens_of :: "json \<Rightarrow> token list" where
  "tokens_of JNull = [TNull]"
| "tokens_of (JBool b) = [if b then TTrue else TFalse]"
| "tokens_of (JNum n) = [TNum n]"
| "tokens_of (JStr b) = [TStr b]"
| "tokens_of (JArr xs) = TLBrack # comma_sep (map tokens_of xs) @ [TRBrack]"
| "tokens_of (JObj ms) =
     TLBrace # comma_sep (map (\<lambda>(k, v). TStr k # TColon # tokens_of v) ms) @ [TRBrace]"

fun depth_ok :: "int \<Rightarrow> json \<Rightarrow> bool" where
  "depth_ok d (JArr xs) \<longleftrightarrow> 0 < d \<and> (\<forall>x \<in> set xs. depth_ok (d - 1) x)"
| "depth_ok d (JObj ms) \<longleftrightarrow> 0 < d \<and> (\<forall>m \<in> set ms. depth_ok (d - 1) (snd m))"
| "depth_ok d _ \<longleftrightarrow> True"

lemma prun_append: "prun (xs @ ys) st = (case prun xs st of None \<Rightarrow> None | Some st \<Rightarrow> prun ys st)"
  by (induction xs st rule: prun.induct) (auto split: option.split)

text \<open>The tokens of a value make the automaton deliver it, within a depth that is left.\<close>

definition reads :: "int \<Rightarrow> json \<Rightarrow> bool" where
  "reads d v \<longleftrightarrow> (\<forall>m fs ts. m \<in> {FirstValue, NeedValue} \<longrightarrow> int (length fs) + d \<le> maxNestingDepth \<longrightarrow>
     prun (tokens_of v @ ts) (PSt m fs) = prun ts (deliver v fs))"

lemma readsD:
  "reads d v \<Longrightarrow> int (length fs) + d \<le> maxNestingDepth \<Longrightarrow> m = FirstValue \<or> m = NeedValue \<Longrightarrow>
   prun (tokens_of v @ ts) (PSt m fs) = prun ts (deliver v fs)"
  by (auto simp: reads_def)

lemma prun_elems:
  assumes "\<forall>x \<in> set xs. reads d x" and "xs \<noteq> []" and "m = FirstValue \<or> m = NeedValue"
    and d: "int (length fs) + 1 + d \<le> maxNestingDepth"
  shows "prun (comma_sep (map tokens_of xs) @ TRBrack # ts) (PSt m (FArr ys # fs)) =
    prun ts (deliver (JArr (ys @ xs)) fs)"
  using assms(1-3)
proof (induction xs arbitrary: ys m rule: induct_list012)
  case (2 x)
  then show ?case using readsD [of d x "FArr ys # fs" m] d by simp
next
  case (3 x z zs)
  then show ?case using readsD [of d x "FArr ys # fs" m] d by simp
qed simp

lemma prun_members:
  assumes "\<forall>x \<in> set ms. reads d (snd x)" and "ms \<noteq> []" and "m = FirstKey \<or> m = NeedKey"
    and d: "int (length fs) + 1 + d \<le> maxNestingDepth"
  shows "prun (comma_sep (map (\<lambda>(k, v). TStr k # TColon # tokens_of v) ms) @ TRBrace # ts)
      (PSt m (FObj ys q # fs)) = prun ts (deliver (JObj (ys @ ms)) fs)"
  using assms(1-3)
proof (induction ms arbitrary: ys q m rule: induct_list012)
  case (2 x)
  then show ?case using readsD [of d "snd x" "FObj ys (fst x) # fs" NeedValue] d
    by (cases x) auto
next
  case (3 x z zs)
  then show ?case using readsD [of d "snd x" "FObj ys (fst x) # fs" NeedValue] d
    by (cases x) auto
qed simp

lemma reads_depth_ok: "depth_ok d v \<Longrightarrow> reads d v"
proof (induction d v rule: depth_ok.induct)
  case (1 d xs)
  show ?case
    unfolding reads_def
  proof (intro allI impI)
    fix m and fs :: "frame list" and ts
    assume m: "m \<in> {FirstValue, NeedValue}" and d: "int (length fs) + d \<le> maxNestingDepth"
    have "prun (comma_sep (map tokens_of xs) @ TRBrack # ts) (PSt FirstValue (FArr [] # fs))
        = prun ts (deliver (JArr xs) fs)"
      using prun_elems [of xs "d - 1" FirstValue fs ts "[]"] 1 d by (cases "xs = []") auto
    with m d 1(2) show "prun (tokens_of (JArr xs) @ ts) (PSt m fs) = prun ts (deliver (JArr xs) fs)"
      by (auto simp: push_def)
  qed
next
  case (2 d ms)
  show ?case
    unfolding reads_def
  proof (intro allI impI)
    fix m and fs :: "frame list" and ts
    assume m: "m \<in> {FirstValue, NeedValue}" and d: "int (length fs) + d \<le> maxNestingDepth"
    have "prun (comma_sep (map (\<lambda>(k, v). TStr k # TColon # tokens_of v) ms) @ TRBrace # ts)
          (PSt FirstKey (FObj [] [] # fs)) = prun ts (deliver (JObj ms) fs)"
      using prun_members [of ms "d - 1" FirstKey fs ts "[]"] 2 d by (cases "ms = []") auto
    with m d 2(2) show "prun (tokens_of (JObj ms) @ ts) (PSt m fs) = prun ts (deliver (JObj ms) fs)"
      by (auto simp: push_def)
  qed
qed (auto simp: reads_def)

definition hex_digit :: "nat \<Rightarrow> char" where
  "hex_digit n = (if n < 10 then char_of (48 + n) else char_of (87 + n))"

definition escape_char :: "char \<Rightarrow> string" where
  "escape_char c =
     (if c = CHR 0x22 then [CHR 0x5C, c] else if c = CHR 0x5C then [CHR 0x5C, c]
      else if char_code c < 0x20 then
        [CHR 0x5C, CHR ''u'', CHR ''0'', CHR ''0'', hex_digit (char_code c div 16), hex_digit (char_code c mod 16)]
      else [c])"

definition print_string :: "bytes \<Rightarrow> string" where
  "print_string b = CHR 0x22 # concat (map escape_char b) @ [CHR 0x22]"

fun print_token :: "token \<Rightarrow> string" where
  "print_token TLBrace = ''{''"
| "print_token TRBrace = ''}''"
| "print_token TLBrack = ''[''"
| "print_token TRBrack = '']''"
| "print_token TColon = '':''"
| "print_token TComma = '',''"
| "print_token TNull = ''null''"
| "print_token TTrue = ''true''"
| "print_token TFalse = ''false''"
| "print_token (TNum n) = n"
| "print_token (TStr b) = print_string b"

definition print_json :: "json \<Rightarrow> string" where
  "print_json v = concat (map print_token (tokens_of v))"

section \<open>Reading printed strings\<close>

function utf8_valid :: "bytes \<Rightarrow> bool" where
  "utf8_valid s =
     (if s = [] then True else if rune_len s = 0 then False else utf8_valid (drop (rune_len s) s))"
  by pat_completeness auto
termination
  by (relation "measure length") auto

declare utf8_valid.simps [simp del]

lemma char_code_char_of [simp]: "char_code (char_of n) = n mod 256"
  by (simp add: char_code_def)

lemma char_of_char_code [simp]: "char_of (char_code c) = c"
  by (simp add: char_code_def)

lemma utf8_valid_step:
  "b \<noteq> [] \<Longrightarrow> utf8_valid b \<longleftrightarrow> 0 < rune_len b \<and> utf8_valid (drop (rune_len b) b)"
  by (subst utf8_valid.simps) simp

lemma rune_tail_bytes: "rune_tail a b \<noteq> 0 \<Longrightarrow> 2 \<le> rune_tail a b \<and> 0x80 \<le> char_code a \<and> 0x80 \<le> char_code b"
  by (auto simp: rune_tail_def is_cont_def split: if_splits)

lemma rune_len_multi:
  assumes "0x80 \<le> char_code a"
  shows "rune_len (a # b # s) = 0 \<or>
    (\<exists>k. rune_tail a b = Suc (Suc k) \<and> rune_len (a # b # s) = Suc (Suc k) \<and> k \<le> length s \<and>
      (\<forall>c \<in> set (take k s). is_cont c))"
proof (cases "rune_tail a b = 0")
  case True
  with assms show ?thesis by simp
next
  case False
  with rune_tail_bytes [of a b] have "rune_tail a b = Suc (Suc (rune_tail a b - 2))" by linarith
  with assms show ?thesis by (intro disjCI exI [of _ "rune_tail a b - 2"]) (auto simp: Let_def split: if_splits)
qed

lemma rune_len_append: "0 < rune_len s \<Longrightarrow> rune_len (take (rune_len s) s @ t) = rune_len s"
proof (induction s rule: rune_len.induct)
  case (2 a)
  then show ?case by (cases t) (auto split: if_splits)
next
  case (3 a b s)
  show ?case
  proof (cases "char_code a < 0x80")
    case True
    then show ?thesis by (cases t) auto
  next
    case False
    with 3 rune_len_multi [of a b s] obtain k where k: "rune_tail a b = Suc (Suc k)"
      "rune_len (a # b # s) = Suc (Suc k)" "k \<le> length s" "\<forall>c \<in> set (take k s). is_cont c"
      by (auto simp del: rune_len.simps)
    then have "take (rune_len (a # b # s)) (a # b # s) @ t = a # b # take k s @ t"
      by (simp del: rune_len.simps)
    with k False show ?thesis by simp
  qed
qed simp

lemma rune_len_le: "rune_len s \<le> length s"
proof (induction s rule: rune_len.induct)
  case (3 a b s)
  show ?case
  proof (cases "char_code a < 0x80")
    case False
    with rune_len_multi [of a b s] show ?thesis by (auto simp del: rune_len.simps)
  qed simp
qed auto

lemma rune_len_high:
  assumes "0 < rune_len s" and "0x80 \<le> char_code (hd s)" and "c \<in> set (take (rune_len s) s)"
  shows "0x80 \<le> char_code c"
proof (cases s rule: rune_len.cases)
  case (3 a b r)
  with assms rune_len_multi [of a b r] obtain k where k: "rune_tail a b = Suc (Suc k)"
      "rune_len s = Suc (Suc k)" "\<forall>c \<in> set (take k r). is_cont c"
    by (auto simp del: rune_len.simps)
  with assms(3) 3 have "c = a \<or> c = b \<or> c \<in> set (take k r)" by auto
  with rune_tail_bytes [of a b] k show ?thesis by (auto simp: is_cont_def)
qed (use assms in auto)

lemma hex_val_digit: "n < 16 \<Longrightarrow> hex_val (hex_digit n) = Some n"
  by (auto simp: hex_val_def hex_digit_def)

lemma escape_control:
  "char_code c < 0x20 \<Longrightarrow> escape_char c =
     [CHR 0x5C, CHR ''u'', CHR ''0'', CHR ''0'', hex_digit (char_code c div 16), hex_digit (char_code c mod 16)]"
  by (auto simp: escape_char_def char_code_def)

lemma escape_special: "escape_char (CHR 0x22) = [CHR 0x5C, CHR 0x22]" "escape_char (CHR 0x5C) = [CHR 0x5C, CHR 0x5C]"
  by (simp_all add: escape_char_def)

lemma escape_plain: "0x20 \<le> char_code c \<Longrightarrow> c \<noteq> CHR 0x22 \<Longrightarrow> c \<noteq> CHR 0x5C \<Longrightarrow> escape_char c = [c]"
  by (simp add: escape_char_def)

lemma lex_char_control:
  assumes "char_code c < 0x20"
  shows "lex_char (escape_char c @ s) = Some ([c], 5)"
proof -
  have "c \<noteq> CHR 0x22" "c \<noteq> CHR 0x5C" using assms by (auto simp: char_code_def)
  moreover have "hex_val (CHR ''0'') = Some 0" by (simp add: hex_val_def char_code_def)
  moreover have "char_code c div 16 < 16" "char_code c mod 16 < 16" using assms by auto
  moreover have "encode_rune (char_code c) = [c]" "\<not> is_surrogate (char_code c)"
    using assms by (simp_all add: encode_rune_def is_surrogate_def)
  ultimately show ?thesis
    using assms by (simp add: escape_char_def hex_val_digit escape_rune_def)
qed

lemma escape_char_high: "0x80 \<le> char_code c \<Longrightarrow> escape_char c = [c]"
  by (auto simp: escape_char_def char_code_def)

lemma concat_escape_high: "\<forall>c \<in> set s. 0x80 \<le> char_code c \<Longrightarrow> concat (map escape_char s) = s"
  by (induction s) (auto simp: escape_char_high)

lemma lex_string_escape:
  "utf8_valid b \<Longrightarrow> lex_string (concat (map escape_char b) @ CHR 0x22 # r) = Some (b, r)"
proof (induction b rule: utf8_valid.induct)
  case (1 b)
  show ?case
  proof (cases b)
    case (Cons c t)
    from 1(2) Cons have pos: "0 < rune_len b" and val: "utf8_valid (drop (rune_len b) b)"
      using utf8_valid_step [of b] by simp_all
    from 1(1) [OF _ _ val] Cons pos have IH: "lex_string (concat (map escape_char (drop (rune_len b) b)) @ CHR 0x22 # r)
        = Some (drop (rune_len b) b, r)" by simp
    show ?thesis
    proof (cases "char_code c < 0x80")
      case True
      with Cons have n: "rune_len b = 1" by (cases t) auto
      consider "char_code c < 0x20" | "c = CHR 0x22 \<or> c = CHR 0x5C" | "0x20 \<le> char_code c" "c \<noteq> CHR 0x22" "c \<noteq> CHR 0x5C"
        by linarith
      then show ?thesis
      proof cases
        case 1
        let ?s = "concat (map escape_char t) @ CHR 0x22 # r"
        obtain q where q: "escape_char c = CHR 0x5C # q" "length q = 5"
          using escape_control [OF 1] by auto
        have "lex_string (escape_char c @ ?s) = map_option (apfst (append [c])) (lex_string ?s)"
          using lex_string_step [of "CHR 0x5C" "q @ ?s" "[c]" 5] lex_char_control [OF 1, of ?s] q
          by (simp del: lex_char.simps)
        with IH n Cons show ?thesis by simp
      next
        case 2
        with IH n Cons show ?thesis
          by (auto simp: escape_special lex_string_step [of "CHR 0x5C"] simple_escape_def)
      next
        case 3
        with True IH n Cons show ?thesis
          by (simp add: escape_plain lex_string_step [of c _ "[c]" 0])
      qed
    next
      case False
      let ?n = "rune_len b" and ?rest = "concat (map escape_char (drop (rune_len b) b)) @ CHR 0x22 # r"
      have "concat (map escape_char b) = concat (map escape_char (take ?n b)) @ concat (map escape_char (drop ?n b))"
        by (metis append_take_drop_id concat_append map_append)
      also have "concat (map escape_char (take ?n b)) = take ?n b"
        using rune_len_high [OF pos] False Cons by (intro concat_escape_high) auto
      finally have e: "concat (map escape_char b) @ CHR 0x22 # r = take ?n b @ ?rest" by simp
      have c: "take ?n b @ ?rest = c # (take (?n - 1) t @ ?rest)"
        using Cons pos by (simp add: take_Cons' )
      have nc: "c \<noteq> CHR 0x22" "c \<noteq> CHR 0x5C" "\<not> char_code c < 0x20" using False by (auto simp: char_code_def)
      have len: "rune_len (take ?n b @ ?rest) = ?n" using rune_len_append [OF pos] .
      have le: "?n \<le> length b" by (rule rune_len_le)
      have tk: "take ?n (take ?n b @ ?rest) = take ?n b" using le by simp
      have "lex_char (c # (take (?n - 1) t @ ?rest)) = Some (take ?n b, ?n - 1)"
        using len pos nc False tk unfolding c by (simp del: rune_len.simps)
      from lex_string_step [OF nc(1) this] IH le Cons have
        "lex_string (take ?n b @ ?rest) = Some (take ?n b @ drop ?n b, r)"
        unfolding c by (simp del: append_take_drop_id)
      then show ?thesis unfolding e by simp
    qed
  qed (simp add: lex_string.simps)
qed

section \<open>Reading printed tokens\<close>

text \<open>A number ends where a byte follows that cannot continue it.\<close>

definition stops :: "string \<Rightarrow> bool" where
  "stops r = (case r of [] \<Rightarrow> True
     | c # _ \<Rightarrow> \<not> is_digit c \<and> c \<noteq> CHR ''.'' \<and> c \<noteq> CHR ''e'' \<and> c \<noteq> CHR ''E'')"

definition num_ok :: "string \<Rightarrow> bool" where
  "num_ok n \<longleftrightarrow> lex_number n = Some (n, [])"

lemma digits_append: "stops r \<Longrightarrow> digits (s @ r) = (fst (digits s), snd (digits s) @ r)"
  by (induction s) (auto simp: digits_def stops_def split: list.splits)

lemma digits_stop: "stops r \<Longrightarrow> digits r = ([], r)"
  by (auto simp: digits_def stops_def split: list.splits)

lemma lex_int_append: "lex_int s = Some (i, t) \<Longrightarrow> stops r \<Longrightarrow> lex_int (s @ r) = Some (i, t @ r)"
  using digits_append [of r s] by (auto simp: lex_int_def split: list.splits if_splits)

lemma lex_frac_append: "lex_frac s = Some (i, t) \<Longrightarrow> stops r \<Longrightarrow> lex_frac (s @ r) = Some (i, t @ r)"
  using digits_append [of r "tl s"]
  by (cases s) (auto simp: lex_frac_def stops_def split: list.splits if_splits)

lemma lex_exp_append: "lex_exp s = Some (i, t) \<Longrightarrow> stops r \<Longrightarrow> lex_exp (s @ r) = Some (i, t @ r)"
  using digits_append [of r "tl s"] digits_append [of r "tl (tl s)"]
  by (cases s rule: remdups_adj.cases) (auto simp: lex_exp_def stops_def split: list.splits if_splits)

lemma lex_number_append:
  assumes "num_ok n" and r: "stops r"
  shows "lex_number (n @ r) = Some (n, r)"
proof -
  obtain sg s where sg: "lex_sign n = (sg, s)" by (cases "lex_sign n")
  have ne: "n \<noteq> []" using assms(1) by (auto simp: num_ok_def lex_number_def lex_sign_def lex_int_def)
  then have sg': "lex_sign (n @ r) = (sg, s @ r)" using sg
    by (cases n) (auto simp: lex_sign_def)
  from assms(1) sg obtain i t f u e where
    l: "lex_int s = Some (i, t)" "lex_frac t = Some (f, u)" "lex_exp u = Some (e, [])"
    and eq: "n = sg @ i @ f @ e"
    by (auto simp: num_ok_def lex_number_def split: option.splits)
  show ?thesis
    using sg' lex_int_append [OF l(1) r] lex_frac_append [OF l(2) r] lex_exp_append [OF l(3) r] eq
    by (simp add: lex_number_def)
qed

fun token_ok :: "token \<Rightarrow> bool" where
  "token_ok (TNum n) = num_ok n"
| "token_ok (TStr b) = utf8_valid b"
| "token_ok _ = True"

lemma num_head:
  assumes "num_ok n"
  obtains c r where "n = c # r" "c = CHR ''-'' \<or> is_digit c"
  using assms
  by (cases n) (auto simp: num_ok_def lex_number_def lex_sign_def lex_int_def is_digit_def char_code_def
      split: list.splits if_splits option.splits)

lemma is_digit_chars:
  assumes "c = CHR ''-'' \<or> is_digit c"
  shows "punctuation c = None" "c \<noteq> CHR 0x22" "\<not> is_space c"
  using assms by (auto simp: punctuation_def is_digit_def char_code_def is_space_def)

lemma lex_print_token:
  assumes "token_ok w" and "stops r"
  shows "tokenize (print_token w @ r) = map_option (\<lambda>us. w # us) (tokenize r)"
proof (cases w)
  case (TNum n)
  with assms obtain c s where n: "n = c # s" "c = CHR ''-'' \<or> is_digit c" by (auto elim: num_head)
  have "lex_token (n @ r) = Some (TNum n, r)"
    using lex_number_append [of n r] assms TNum n is_digit_chars [OF n(2)] by (simp add: lex_token_def)
  with TNum n is_digit_chars [OF n(2)] show ?thesis by (simp add: tokenize_step)
next
  case (TStr b)
  with assms lex_string_escape [of b r] show ?thesis
    by (simp add: print_string_def tokenize_step lex_token_def punctuation_def is_space_def)
qed (simp_all add: tokenize_step lex_token_def punctuation_def is_space_def is_digit_def char_code_def lex_word_def)

section \<open>Reading printed values\<close>

fun json_ok :: "json \<Rightarrow> bool" where
  "json_ok (JNum n) = num_ok n"
| "json_ok (JStr b) = utf8_valid b"
| "json_ok (JArr xs) = (\<forall>x \<in> set xs. json_ok x)"
| "json_ok (JObj ms) = (\<forall>m \<in> set ms. utf8_valid (fst m) \<and> json_ok (snd m))"
| "json_ok _ = True"

abbreviation print_tokens :: "token list \<Rightarrow> string" where
  "print_tokens ts \<equiv> concat (map print_token ts)"

definition lexes :: "token list \<Rightarrow> bool" where
  "lexes ts \<longleftrightarrow> (\<forall>r. stops r \<longrightarrow> tokenize (print_tokens ts @ r) = map_option (\<lambda>us. ts @ us) (tokenize r))"

lemma lexesD: "lexes ts \<Longrightarrow> stops r \<Longrightarrow> tokenize (print_tokens ts @ r) = map_option (\<lambda>us. ts @ us) (tokenize r)"
  by (simp add: lexes_def)

text \<open>A token other than a number may be followed by anything, here by what another sequence prints.\<close>

lemma stops_punct: "p \<in> {TLBrace, TRBrace, TLBrack, TRBrack, TColon, TComma} \<Longrightarrow> stops (print_token p @ r)"
  by (auto simp: stops_def is_digit_def char_code_def)

lemma lexes_Cons_punct:
  assumes "p \<in> {TLBrace, TRBrace, TLBrack, TRBrack, TColon, TComma}" and "lexes ts"
  shows "lexes (p # ts)"
  unfolding lexes_def
proof (intro allI impI)
  fix r assume "stops r"
  have "tokenize (print_token p @ x) = map_option (\<lambda>us. p # us) (tokenize x)" for x
    using assms(1) by (auto simp: tokenize_step lex_token_def punctuation_def is_space_def)
  with lexesD [OF assms(2) \<open>stops r\<close>]
  show "tokenize (print_tokens (p # ts) @ r) = map_option (\<lambda>us. (p # ts) @ us) (tokenize r)"
    by (simp add: option.map_comp o_def)
qed

lemma lexes_single: "token_ok w \<Longrightarrow> lexes [w]"
  using lex_print_token by (auto simp: lexes_def)

lemma lexes_append_punct:
  assumes "lexes xs" and "lexes (p # ts)" and "p \<in> {TLBrace, TRBrace, TLBrack, TRBrack, TColon, TComma}"
  shows "lexes (xs @ p # ts)"
  unfolding lexes_def
proof (intro allI impI)
  fix r assume r: "stops r"
  have "tokenize (print_tokens (xs @ p # ts) @ r) = tokenize (print_tokens xs @ print_token p @ print_tokens ts @ r)"
    by simp
  also have "\<dots> = map_option (\<lambda>us. xs @ us) (tokenize (print_tokens (p # ts) @ r))"
    using lexesD [OF assms(1) stops_punct [OF assms(3)]] by simp
  finally show "tokenize (print_tokens (xs @ p # ts) @ r) = map_option (\<lambda>us. (xs @ p # ts) @ us) (tokenize r)"
    using lexesD [OF assms(2) r] by (simp add: option.map_comp o_def)
qed

lemma lexes_close:
  assumes "lexes xs" and "p = TRBrack \<or> p = TRBrace"
  shows "lexes (xs @ [p])"
  using assms lexes_append_punct [OF assms(1) lexes_single [of p]] by auto

lemma lexes_Nil: "lexes []"
  by (simp add: lexes_def option.map_ident)

lemma lexes_comma_sep: "\<forall>x \<in> set xs. lexes x \<Longrightarrow> lexes (comma_sep xs)"
  by (induction xs rule: comma_sep.induct)
     (auto simp: lexes_Nil intro!: lexes_append_punct lexes_Cons_punct [of TComma])

lemma lexes_tokens_of: "json_ok v \<Longrightarrow> lexes (tokens_of v)"
proof (induction v rule: json_ok.induct)
  case (3 xs)
  then show ?case by (auto intro!: lexes_Cons_punct lexes_close lexes_comma_sep)
next
  case (4 ms)
  have "lexes (TStr k # TColon # tokens_of x)" if "(k, x) \<in> set ms" for k x
    using 4 that lexes_append_punct [of "[TStr k]" TColon "tokens_of x"] lexes_single [of "TStr k"]
      lexes_Cons_punct [of TColon "tokens_of x"] by fastforce
  then have "lexes (comma_sep (map (\<lambda>(k, v). TStr k # TColon # tokens_of v) ms))"
    by (intro lexes_comma_sep) auto
  then show ?case by (auto intro!: lexes_Cons_punct lexes_close)
qed (auto intro: lexes_single)

theorem parse_print_json:
  assumes "json_ok v" and "depth_ok maxNestingDepth v"
  shows "parse_json (print_json v) = Some v"
proof -
  have "tokenize (print_json v) = Some (tokens_of v)"
    using lexesD [OF lexes_tokens_of [OF assms(1)], of "[]"]
    by (simp add: print_json_def stops_def)
  moreover have "prun (tokens_of v) (PSt NeedValue []) = Some (PDone v)"
    using readsD [OF reads_depth_ok [OF assms(2)], of "[]" NeedValue "[]"] by simp
  ultimately show ?thesis by (simp add: parse_json_def)
qed

end
