(* ===== verification/Settings_Json.thy ===== *)
theory Settings_Json
  imports Go_Json Asio_Config "HOL-Library.Char_ord" "HOL-Library.List_Lexorder"
begin

text \<open>
  The way of the settings from the embedding program to \<open>start_node\<close>: the C++ structure \<open>config\<close>
  (\<open>include/ipfs_config.h\<close>), the text \<open>config_to_json\<close> (\<open>node.cpp\<close>) makes of it, and the decoding of
  that text into \<open>AsioConfig\<close> by \<open>json.Unmarshal\<close> (Go 1.16) with the tags of the structure. The C++
  JSON library that prints the text is a parameter.
\<close>

section \<open>strconv.ParseInt\<close>

definition digits_value :: "string \<Rightarrow> int" where
  "digits_value ds = foldl (\<lambda>a c. a * 10 + (int (char_code c) - 48)) 0 ds"

definition fits_int64 :: "int \<Rightarrow> bool" where
  "fits_int64 i \<longleftrightarrow> - (2 ^ 63) \<le> i \<and> i < 2 ^ 63"

definition ParseInt64 :: "string \<Rightarrow> int option" where
  "ParseInt64 s =
     (let neg = (s \<noteq> [] \<and> hd s = CHR ''-'');
          ds = (if s \<noteq> [] \<and> (hd s = CHR ''-'' \<or> hd s = CHR ''+'') then tl s else s);
          i = (if neg then - digits_value ds else digits_value ds)
      in if ds \<noteq> [] \<and> list_all is_digit ds \<and> fits_int64 i then Some i else None)"

section \<open>Storing a JSON value\<close>

text \<open>
  \<open>literalStore\<close> and \<open>array\<close> of the decoder for the kinds of field the structure has: the old content
  goes in, the new one comes out, \<open>None\<close> when the value does not fit the kind. A \<open>null\<close> leaves an
  integer, a string or a Boolean as it is and makes a slice nil.
\<close>

fun store_int :: "json \<Rightarrow> int \<Rightarrow> int option" where
  "store_int JNull i = Some i"
| "store_int (JNum n) i = ParseInt64 n"
| "store_int _ i = None"

fun store_string :: "json \<Rightarrow> string \<Rightarrow> string option" where
  "store_string JNull s = Some s"
| "store_string (JStr b) s = Some b"
| "store_string _ s = None"

fun store_bool :: "json \<Rightarrow> bool \<Rightarrow> bool option" where
  "store_bool JNull b = Some b"
| "store_bool (JBool c) b = Some c"
| "store_bool _ b = None"

text \<open>
  The elements of an array go to the backing array of the slice, which grows by half when it is full;
  what is beyond the length stays there, and a \<open>null\<close> element shows it again.
\<close>

definition grow :: "string list \<Rightarrow> string list" where
  "grow buf = buf @ replicate (max 4 (length buf + length buf div 2) - length buf) []"

fun store_elems :: "json list \<Rightarrow> nat \<Rightarrow> string list \<Rightarrow> string list option" where
  "store_elems [] i buf = Some buf"
| "store_elems (v # vs) i buf =
     (let buf = (if length buf \<le> i then grow buf else buf)
      in case store_string v (buf ! i) of
           None \<Rightarrow> None
         | Some x \<Rightarrow> store_elems vs (Suc i) (buf[i := x]))"

text \<open>A slice is what it shows and the rest of its backing array.\<close>

type_synonym slice = "string list \<times> string list"

fun store_slice :: "json \<Rightarrow> slice \<Rightarrow> slice option" where
  "store_slice JNull sl = Some ([], [])"
| "store_slice (JArr vs) (xs, spare) =
     (if vs = [] then Some ([], [])
      else map_option (\<lambda>buf. (take (length vs) buf, drop (length vs) buf))
             (store_elems vs 0 (xs @ spare)))"
| "store_slice _ sl = None"

section \<open>json.Unmarshal into AsioConfig\<close>

record decoding = AsioConfig +
  Bootstrap_spare :: "string list"
  Peering_spare :: "string list"

definition zero_decoding :: decoding where
  "zero_decoding =
     \<lparr>LowWater = 0, HighWater = 0, GracePeriod = [], AutoRelay = False, RelayHop = False,
      Bootstrap = [], Peering = [], SwarmPort = 0, APIAddress = [], GatewayAddress = [],
      DefaultProfile = [], StorageMax = [], AutoNAT = False, AutoNATLimit = 0, AutoNATPeerLimit = 0,
      SwarmKey = [], RoutingType = [], RunGC = False, Bootstrap_spare = [], Peering_spare = []\<rparr>"

definition int_field ::
  "(decoding \<Rightarrow> int) \<Rightarrow> ((int \<Rightarrow> int) \<Rightarrow> decoding \<Rightarrow> decoding) \<Rightarrow> json \<Rightarrow> decoding \<Rightarrow> decoding option" where
  "int_field get upd v d = map_option (\<lambda>i. upd (\<lambda>_. i) d) (store_int v (get d))"

definition string_field ::
  "(decoding \<Rightarrow> string) \<Rightarrow> ((string \<Rightarrow> string) \<Rightarrow> decoding \<Rightarrow> decoding) \<Rightarrow> json \<Rightarrow> decoding \<Rightarrow> decoding option" where
  "string_field get upd v d = map_option (\<lambda>i. upd (\<lambda>_. i) d) (store_string v (get d))"

definition bool_field ::
  "(decoding \<Rightarrow> bool) \<Rightarrow> ((bool \<Rightarrow> bool) \<Rightarrow> decoding \<Rightarrow> decoding) \<Rightarrow> json \<Rightarrow> decoding \<Rightarrow> decoding option" where
  "bool_field get upd v d = map_option (\<lambda>i. upd (\<lambda>_. i) d) (store_bool v (get d))"

definition bootstrap_field :: "json \<Rightarrow> decoding \<Rightarrow> decoding option" where
  "bootstrap_field v d =
     map_option (\<lambda>(xs, spare). d\<lparr>Bootstrap := xs, Bootstrap_spare := spare\<rparr>)
       (store_slice v (Bootstrap d, Bootstrap_spare d))"

definition peering_field :: "json \<Rightarrow> decoding \<Rightarrow> decoding option" where
  "peering_field v d =
     map_option (\<lambda>(xs, spare). d\<lparr>Peering := xs, Peering_spare := spare\<rparr>)
       (store_slice v (Peering d, Peering_spare d))"

text \<open>The fields in their order, each under the name its tag gives.\<close>

definition asio_fields :: "(string \<times> (json \<Rightarrow> decoding \<Rightarrow> decoding option)) list" where
  "asio_fields =
     [(''LowWater'', int_field LowWater LowWater_update),
      (''HighWater'', int_field HighWater HighWater_update),
      (''GracePeriod'', string_field GracePeriod GracePeriod_update),
      (''AutoRelay'', bool_field AutoRelay AutoRelay_update),
      (''RelayHop'', bool_field RelayHop RelayHop_update),
      (''Bootstrap'', bootstrap_field),
      (''Peering'', peering_field),
      (''SwarmPort'', int_field SwarmPort SwarmPort_update),
      (''APIAddress'', string_field APIAddress APIAddress_update),
      (''GatewayAddress'', string_field GatewayAddress GatewayAddress_update),
      (''DefaultProfile'', string_field DefaultProfile DefaultProfile_update),
      (''StorageMax'', string_field StorageMax StorageMax_update),
      (''AutoNAT'', bool_field AutoNAT AutoNAT_update),
      (''AutoNATLimit'', int_field AutoNATLimit AutoNATLimit_update),
      (''AutoNATPeerLimit'', int_field AutoNATPeerLimit AutoNATPeerLimit_update),
      (''SwarmKey'', string_field SwarmKey SwarmKey_update),
      (''RoutingType'', string_field RoutingType RoutingType_update),
      (''RunGC'', bool_field RunGC RunGC_update)]"

text \<open>
  \<open>equalFold\<close> of the decoder, for names made of letters: ASCII case does not matter, and an S or a K
  is also matched by U+017F or U+212A.
\<close>

definition to_upper :: "char \<Rightarrow> char" where
  "to_upper c = (if 97 \<le> char_code c \<and> char_code c \<le> 122 then char_of (char_code c - 32) else c)"

fun equalFold :: "string \<Rightarrow> bytes \<Rightarrow> bool" where
  "equalFold [] t = (t = [])"
| "equalFold (c # s) t =
     (if to_upper c = CHR ''S'' \<and> prefix [CHR 0xC5, CHR 0xBF] t then equalFold s (drop 2 t)
      else if to_upper c = CHR ''K'' \<and> prefix [CHR 0xE2, CHR 0x84, CHR 0xAA] t then equalFold s (drop 3 t)
      else case t of [] \<Rightarrow> False | d # t \<Rightarrow> to_upper c = to_upper d \<and> equalFold s t)"

definition find_field :: "bytes \<Rightarrow> (json \<Rightarrow> decoding \<Rightarrow> decoding option) option" where
  "find_field key =
     (case map_of asio_fields key of
        Some f \<Rightarrow> Some f
      | None \<Rightarrow> map_option snd (find (\<lambda>f. equalFold (fst f) key) asio_fields))"

fun decode_members :: "(bytes \<times> json) list \<Rightarrow> decoding \<Rightarrow> decoding option" where
  "decode_members [] d = Some d"
| "decode_members ((key, v) # ms) d =
     (case find_field key of
        None \<Rightarrow> decode_members ms d
      | Some f \<Rightarrow> (case f v d of None \<Rightarrow> None | Some d \<Rightarrow> decode_members ms d))"

text \<open>
  A text that is no JSON fails as a whole; a value of the wrong type is remembered and reported at
  the end, so that either way the caller sees an error and does not look at the structure.
\<close>

definition json_Unmarshal :: "bytes \<Rightarrow> AsioConfig option" where
  "json_Unmarshal s =
     (case parse_json s of
        None \<Rightarrow> None
      | Some v \<Rightarrow>
          (case v of
             JNull \<Rightarrow> Some (AsioConfig.truncate zero_decoding)
           | JObj ms \<Rightarrow> map_option AsioConfig.truncate (decode_members ms zero_decoding)
           | _ \<Rightarrow> None))"

section \<open>The configuration of the C++ side\<close>

datatype Mode = Desktop | Server

record config =
  repo_root :: string
  default_profile :: string
  storage_max :: string
  low_water :: u32
  high_water :: u32
  grace_period :: u32
  swarm_port :: u32
  gateway_address :: string
  api_address :: string
  autonat :: bool
  autonat_limit :: u32
  autonat_peer_limit :: u32
  bootstrap :: "string list"
  peering :: "string list"
  swarm_key :: string
  routing_type :: string
  auto_relay :: bool
  relay_hop :: bool
  run_gc :: bool

definition config_defaults :: config where
  "config_defaults =
     \<lparr>repo_root = ''./ipfs-repo'', default_profile = [], storage_max = ''2GB'', low_water = 100,
      high_water = 200, grace_period = 20, swarm_port = 10100, gateway_address = [],
      api_address = [], autonat = True, autonat_limit = 30, autonat_peer_limit = 3, bootstrap = [],
      peering = [], swarm_key = [], routing_type = ''dht'', auto_relay = True, relay_hop = False,
      run_gc = True\<rparr>"

definition config_of :: "Mode \<Rightarrow> config" where
  "config_of mode =
     (if mode = Server then
        config_defaults\<lparr>auto_relay := False, default_profile := ''server'', storage_max := ''20GB'',
          api_address := ''/ip4/127.0.0.1/tcp/6100'', gateway_address := ''/ip4/127.0.0.1/tcp/6200'',
          routing_type := ''dht'', run_gc := False\<rparr>
      else config_defaults)"

definition unsigned_json :: "u32 \<Rightarrow> json" where
  "unsigned_json w = JNum (FormatInt10 (uint w))"

definition config_members :: "config \<Rightarrow> (bytes \<times> json) list" where
  "config_members cfg =
     [(''RepoRoot'', JStr (repo_root cfg)),
      (''LowWater'', unsigned_json (low_water cfg)),
      (''HighWater'', unsigned_json (high_water cfg)),
      (''GracePeriod'', JStr (FormatInt10 (uint (grace_period cfg)) @ ''s'')),
      (''Bootstrap'', JArr (map JStr (bootstrap cfg))),
      (''Peering'', JArr (map JStr (peering cfg))),
      (''SwarmPort'', unsigned_json (swarm_port cfg)),
      (''APIAddress'', JStr (api_address cfg)),
      (''GatewayAddress'', JStr (gateway_address cfg)),
      (''DefaultProfile'', JStr (default_profile cfg)),
      (''AutoRelay'', JBool (auto_relay cfg)),
      (''RelayHop'', JBool (relay_hop cfg)),
      (''StorageMax'', JStr (storage_max cfg)),
      (''AutoNAT'', JBool (autonat cfg)),
      (''AutoNATLimit'', unsigned_json (autonat_limit cfg)),
      (''AutoNATPeerLimit'', unsigned_json (autonat_peer_limit cfg)),
      (''SwarmKey'', JStr (swarm_key cfg)),
      (''RoutingType'', JStr (routing_type cfg)),
      (''RunGC'', JBool (run_gc cfg))]"

text \<open>
  \<open>dump\<close> stands for the C++ library: the object made of the members, as text. An exception is \<open>Inl\<close>.
\<close>

definition config_to_json ::
  "((bytes \<times> json) list \<Rightarrow> string) \<Rightarrow> config \<Rightarrow> string + string" where
  "config_to_json dump cfg =
     (if bootstrap cfg = [] then Inl ''IPFS bootstrap cannot be empty''
      else Inr (dump (config_members cfg)))"

text \<open>
  What the library documents: its objects are ordered by key, and the text it prints for an object
  whose strings are valid UTF-8 is JSON of that object.
\<close>

definition dump_prints_json :: "((bytes \<times> json) list \<Rightarrow> string) \<Rightarrow> bool" where
  "dump_prints_json dump \<longleftrightarrow>
     (\<forall>ms. json_ok (JObj ms) \<and> depth_ok maxNestingDepth (JObj ms) \<and> distinct (map fst ms) \<longrightarrow>
        parse_json (dump ms) = Some (JObj (sort_key fst ms)))"

definition config_utf8 :: "config \<Rightarrow> bool" where
  "config_utf8 cfg \<longleftrightarrow>
     list_all utf8_valid
       ([repo_root cfg, default_profile cfg, storage_max cfg, gateway_address cfg, api_address cfg,
         swarm_key cfg, routing_type cfg] @ bootstrap cfg @ peering cfg)"

text \<open>The settings \<open>start_node\<close> is meant to see.\<close>

definition settings_of :: "config \<Rightarrow> AsioConfig" where
  "settings_of cfg =
     \<lparr>LowWater = uint (low_water cfg), HighWater = uint (high_water cfg),
      GracePeriod = FormatInt10 (uint (grace_period cfg)) @ ''s'', AutoRelay = auto_relay cfg,
      RelayHop = relay_hop cfg, Bootstrap = bootstrap cfg, Peering = peering cfg,
      SwarmPort = uint (swarm_port cfg), APIAddress = api_address cfg,
      GatewayAddress = gateway_address cfg, DefaultProfile = default_profile cfg,
      StorageMax = storage_max cfg, AutoNAT = autonat cfg, AutoNATLimit = uint (autonat_limit cfg),
      AutoNATPeerLimit = uint (autonat_peer_limit cfg), SwarmKey = swarm_key cfg,
      RoutingType = routing_type cfg, RunGC = run_gc cfg\<rparr>"

section \<open>Decimal literals\<close>

lemma of_nat_char_code: "int (char_code c) = of_char c"
  by (cases c) (simp add: char_code_def)

lemma code_digit_char: "0 \<le> d \<Longrightarrow> d < 10 \<Longrightarrow> int (char_code (digit_char d)) = 48 + d"
  by (simp add: of_nat_char_code digit_char_def)

lemma is_digit_digit_char: "0 \<le> d \<Longrightarrow> d < 10 \<Longrightarrow> is_digit (digit_char d)"
  using code_digit_char [of d] by (simp add: is_digit_def)

lemma decimal_digits: "0 \<le> n \<Longrightarrow> list_all is_digit (decimal n)"
proof (induction n rule: decimal.induct)
  case (1 n)
  then show ?case
    using is_digit_digit_char [of n] is_digit_digit_char [of "n mod 10"]
    by (subst decimal.simps) auto
qed

lemma digits_value_snoc: "digits_value (ds @ [c]) = digits_value ds * 10 + (int (char_code c) - 48)"
  by (simp add: digits_value_def)

lemma digits_value_decimal: "0 \<le> n \<Longrightarrow> digits_value (decimal n) = n"
proof (induction n rule: decimal.induct)
  case (1 n)
  show ?case
  proof (cases "n < 10")
    case True
    with 1 code_digit_char [of n] show ?thesis
      by (subst decimal.simps) (simp add: digits_value_def)
  next
    case False
    with 1 code_digit_char [of "n mod 10"] show ?thesis
      by (subst decimal.simps) (simp add: digits_value_snoc)
  qed
qed

lemma decimal_head: "0 < n \<Longrightarrow> hd (decimal n) \<noteq> CHR ''0''"
proof (induction n rule: decimal.induct)
  case (1 n)
  have "digit_char n \<noteq> CHR ''0''" if "n < 10"
  proof
    assume "digit_char n = CHR ''0''"
    with 1(2) that code_digit_char [of n] show False by (simp add: char_code_def)
  qed
  with 1 show ?case by (subst decimal.simps) (auto simp: hd_append)
qed

lemma ParseInt64_FormatInt10: "fits_int64 i \<Longrightarrow> ParseInt64 (FormatInt10 i) = Some i"
proof -
  assume i: "fits_int64 i"
  have nd: "c \<noteq> CHR ''-'' \<and> c \<noteq> CHR ''+''" if "is_digit c" for c
    using that by (auto simp: is_digit_def char_code_def)
  have "is_digit (hd (decimal n))" if "0 \<le> n" for n
    using decimal_digits [OF that] by (cases "decimal n") auto
  with i nd [of "hd (decimal i)"] decimal_digits [of i] decimal_digits [of "- i"]
    digits_value_decimal [of i] digits_value_decimal [of "- i"]
  show ?thesis by (auto simp: ParseInt64_def FormatInt10_def Let_def)
qed

lemma num_ok_FormatInt10: "num_ok (FormatInt10 i)"
proof -
  have d: "lex_int (decimal n) = Some (decimal n, [])" if "0 \<le> n" for n
  proof (cases "n = 0")
    case True
    then show ?thesis by (simp add: decimal.simps [of 0] lex_int_def digit_char_def char_of_def)
  next
    case False
    with that decimal_digits [OF that] decimal_head [of n] show ?thesis
      by (cases "decimal n")
         (auto simp: lex_int_def digits_def list_all_iff takeWhile_eq_all_conv dropWhile_eq_Nil_conv)
  qed
  have "hd (decimal n) \<noteq> CHR ''-''" if "0 \<le> n" for n
    using decimal_digits [OF that] by (cases "decimal n") (auto simp: is_digit_def char_code_def)
  then have s: "lex_sign (decimal n) = ([], decimal n)" if "0 \<le> n" for n
    using that by (cases "decimal n") (fastforce simp: lex_sign_def)+
  show ?thesis
    using d [of i] d [of "- i"] s [of i]
    by (auto simp: num_ok_def lex_number_def FormatInt10_def lex_sign_def lex_frac_def lex_exp_def)
qed

section \<open>Decoding printed settings\<close>

lemma length_grow: "i \<le> length buf \<Longrightarrow> i < length (if length buf \<le> i then grow buf else buf)"
  by (auto simp: grow_def)

lemma take_grow: "i \<le> length buf \<Longrightarrow> take i (if length buf \<le> i then grow buf else buf) = take i buf"
  by (auto simp: grow_def)

lemma store_elems_strings:
  "i \<le> length buf \<Longrightarrow> \<exists>rest. store_elems (map JStr xs) i buf = Some (take i buf @ xs @ rest)"
proof (induction xs arbitrary: i buf)
  case Nil
  then show ?case by (auto intro: exI [of _ "drop i buf"])
next
  case (Cons x xs)
  define b where "b = (if length buf \<le> i then grow buf else buf)"
  have i: "i < length b" and t: "take i b = take i buf"
    using length_grow [OF Cons.prems] take_grow [OF Cons.prems] by (simp_all add: b_def)
  have "take (Suc i) (b[i := x]) = take i buf @ [x]"
    using i t by (simp add: take_Suc_conv_app_nth)
  with Cons.IH [of "Suc i" "b[i := x]"] i show ?case by (auto simp: b_def [symmetric] Let_def)
qed

lemma store_slice_strings:
  "\<exists>spare. store_slice (JArr (map JStr xs)) ([], []) = Some (xs, spare)"
  using store_elems_strings [of 0 "[]" xs] by auto

lemma store_int_unsigned [simp]: "store_int (unsigned_json w) i = Some (uint w)"
proof -
  have "uint w < 2 ^ 32" using uint_lt2p [of w] by simp
  then have "fits_int64 (uint w)" by (simp add: fits_int64_def order_trans [of _ 0])
  then show ?thesis by (simp add: unsigned_json_def ParseInt64_FormatInt10)
qed

lemma find_field_exact: "map_of asio_fields key = Some f \<Longrightarrow> find_field key = Some f"
  by (simp add: find_field_def)

lemma find_field_RepoRoot: "find_field ''RepoRoot'' = None"
  by (simp add: find_field_def asio_fields_def to_upper_def char_code_def)

lemma asio_field_names:
  "find_field ''APIAddress'' = Some (string_field APIAddress APIAddress_update)"
  "find_field ''AutoNAT'' = Some (bool_field AutoNAT AutoNAT_update)"
  "find_field ''AutoNATLimit'' = Some (int_field AutoNATLimit AutoNATLimit_update)"
  "find_field ''AutoNATPeerLimit'' = Some (int_field AutoNATPeerLimit AutoNATPeerLimit_update)"
  "find_field ''AutoRelay'' = Some (bool_field AutoRelay AutoRelay_update)"
  "find_field ''Bootstrap'' = Some bootstrap_field"
  "find_field ''DefaultProfile'' = Some (string_field DefaultProfile DefaultProfile_update)"
  "find_field ''GatewayAddress'' = Some (string_field GatewayAddress GatewayAddress_update)"
  "find_field ''GracePeriod'' = Some (string_field GracePeriod GracePeriod_update)"
  "find_field ''HighWater'' = Some (int_field HighWater HighWater_update)"
  "find_field ''LowWater'' = Some (int_field LowWater LowWater_update)"
  "find_field ''Peering'' = Some peering_field"
  "find_field ''RelayHop'' = Some (bool_field RelayHop RelayHop_update)"
  "find_field ''RoutingType'' = Some (string_field RoutingType RoutingType_update)"
  "find_field ''RunGC'' = Some (bool_field RunGC RunGC_update)"
  "find_field ''StorageMax'' = Some (string_field StorageMax StorageMax_update)"
  "find_field ''SwarmKey'' = Some (string_field SwarmKey SwarmKey_update)"
  "find_field ''SwarmPort'' = Some (int_field SwarmPort SwarmPort_update)"
  by (simp_all add: find_field_exact asio_fields_def)

lemma sorted_config_members:
  "sort_key fst (config_members cfg) =
     [(''APIAddress'', JStr (api_address cfg)),
      (''AutoNAT'', JBool (autonat cfg)),
      (''AutoNATLimit'', unsigned_json (autonat_limit cfg)),
      (''AutoNATPeerLimit'', unsigned_json (autonat_peer_limit cfg)),
      (''AutoRelay'', JBool (auto_relay cfg)),
      (''Bootstrap'', JArr (map JStr (bootstrap cfg))),
      (''DefaultProfile'', JStr (default_profile cfg)),
      (''GatewayAddress'', JStr (gateway_address cfg)),
      (''GracePeriod'', JStr (FormatInt10 (uint (grace_period cfg)) @ ''s'')),
      (''HighWater'', unsigned_json (high_water cfg)),
      (''LowWater'', unsigned_json (low_water cfg)),
      (''Peering'', JArr (map JStr (peering cfg))),
      (''RelayHop'', JBool (relay_hop cfg)),
      (''RepoRoot'', JStr (repo_root cfg)),
      (''RoutingType'', JStr (routing_type cfg)),
      (''RunGC'', JBool (run_gc cfg)),
      (''StorageMax'', JStr (storage_max cfg)),
      (''SwarmKey'', JStr (swarm_key cfg)),
      (''SwarmPort'', unsigned_json (swarm_port cfg))]"
  by (simp add: config_members_def sort_key_def insort_key.simps less_eq_char_simp less_char_simp)

lemma utf8_valid_ascii: "\<forall>c \<in> set s. char_code c < 0x80 \<Longrightarrow> utf8_valid s"
proof (induction s)
  case (Cons c s)
  then have "rune_len (c # s) = 1" by (cases s) auto
  with Cons show ?case by (simp add: utf8_valid_step del: rune_len.simps)
qed (simp add: utf8_valid.simps)

lemma config_members_ok:
  assumes "config_utf8 cfg"
  shows "json_ok (JObj (config_members cfg))" "depth_ok maxNestingDepth (JObj (config_members cfg))"
    "distinct (map fst (config_members cfg))"
proof -
  have "utf8_valid (FormatInt10 (uint (grace_period cfg)) @ ''s'')"
    using decimal_digits [of "uint (grace_period cfg)"]
    by (intro utf8_valid_ascii) (auto simp: FormatInt10_def list_all_iff is_digit_def char_code_def)
  moreover have "utf8_valid k" if "k \<in> set (map fst (config_members cfg))" for k
    using that by (intro utf8_valid_ascii) (auto simp: config_members_def char_code_def)
  ultimately show "json_ok (JObj (config_members cfg))"
    using assms
    by (auto simp: config_members_def config_utf8_def list_all_iff unsigned_json_def num_ok_FormatInt10)
  show "depth_ok maxNestingDepth (JObj (config_members cfg))"
    by (simp add: config_members_def unsigned_json_def maxNestingDepth_def)
  show "distinct (map fst (config_members cfg))" by (simp add: config_members_def)
qed

lemma decode_config_members:
  "\<exists>d. decode_members (sort_key fst (config_members cfg)) zero_decoding = Some d \<and>
     AsioConfig.truncate d = settings_of cfg"
proof -
  obtain b p where
    "store_slice (JArr (map JStr (bootstrap cfg))) ([], []) = Some (bootstrap cfg, b)"
    "store_slice (JArr (map JStr (peering cfg))) ([], []) = Some (peering cfg, p)"
    using store_slice_strings by blast
  then show ?thesis
    by (simp add: sorted_config_members asio_field_names find_field_RepoRoot int_field_def
        string_field_def bool_field_def bootstrap_field_def peering_field_def zero_decoding_def
        settings_of_def AsioConfig.defs del: store_slice.simps)
qed

lemma dump_decodes:
  assumes "dump_prints_json dump" and "config_utf8 cfg"
  shows "json_Unmarshal (dump (config_members cfg)) = Some (settings_of cfg)"
proof -
  from assms(1) config_members_ok [OF assms(2)]
  have "parse_json (dump (config_members cfg)) = Some (JObj (sort_key fst (config_members cfg)))"
    by (simp add: dump_prints_json_def del: json_ok.simps depth_ok.simps)
  with decode_config_members [of cfg] show ?thesis by (auto simp: json_Unmarshal_def)
qed

text \<open>
  C19: The settings survive the way through the JSON text: for every configuration of the C++ side with
  at least one bootstrap address and valid UTF-8 in its strings, \<open>config_to_json\<close> gives a text, and
  decoding it on the Go side gives exactly the settings of that configuration, field by field (the
  grace period as a duration in seconds), whatever the library prints as long as it is JSON.
\<close>

theorem settings_survive_json:
  assumes "dump_prints_json dump" and "bootstrap cfg \<noteq> []" and "config_utf8 cfg"
  shows "\<exists>t. config_to_json dump cfg = Inr t \<and> json_Unmarshal t = Some (settings_of cfg)"
  using dump_decodes [OF assms(1,3)] assms(2) by (simp add: config_to_json_def)

definition sorted_dump :: "(bytes \<times> json) list \<Rightarrow> string" where
  "sorted_dump ms = print_json (JObj (sort_key fst ms))"

lemma sorted_dump_prints_json: "dump_prints_json sorted_dump"
  by (simp add: dump_prints_json_def sorted_dump_def parse_print_json)

theorem settings_survive_json_witness:
  "\<exists>t. config_to_json sorted_dump ((config_of Server)\<lparr>bootstrap := [''/ip4/10.0.0.1/tcp/4001'']\<rparr>) = Inr t \<and>
     json_Unmarshal t =
       Some (settings_of ((config_of Server)\<lparr>bootstrap := [''/ip4/10.0.0.1/tcp/4001'']\<rparr>))"
  by (rule settings_survive_json [OF sorted_dump_prints_json])
     (simp_all add: config_utf8_def config_of_def config_defaults_def utf8_valid_ascii char_code_def)

section \<open>An example\<close>

definition demo_json :: "string \<Rightarrow> bytes" where
  \<open>demo_json routing =
     ''{"LowWater":100,"HighWater":200,"GracePeriod":"20s","AutoRelay":true,"RelayHop":false,'' @
     ''"Bootstrap":["peer1"],"Peering":[],"SwarmPort":10100,"APIAddress":"/ip4/127.0.0.1/tcp/6100",'' @
     ''"GatewayAddress":"","DefaultProfile":"","StorageMax":"2GB","AutoNAT":true,"AutoNATLimit":30,'' @
     ''"AutoNATPeerLimit":3,"SwarmKey":"key","RoutingType":"'' @ routing @ ''","RunGC":true}''\<close>

lemma demo_json_decoded:
  "json_Unmarshal (demo_json ''dht'') = Some demo_settings"
  "json_Unmarshal (demo_json ''gossip'') = Some (demo_settings\<lparr>RoutingType := ''gossip''\<rparr>)"
  "json_Unmarshal ''?'' = None"
  by code_simp+

end
