(* ===== verification/Node_Lifecycle.thy ===== *)
theory Node_Lifecycle
  imports Services Cancel Monitor Settings_Json
begin

text \<open>
  \<open>ipfs_node.go\<close>: loading plugins, building the environment, \<open>start_node\<close> and the exported calls
  that start a node, free it and return its identity. \<open>start_node\<close> is a sequence of stages with an
  error code each; every early return of the code is a stage that ends with its code, and a stage
  may panic. go-ipfs, and prometheus are parameters (\<open>node_lib\<close>), which extend those
  of the services.
\<close>

section \<open>Parameters\<close>

record 'w node_lib = "'w svc_lib" +
  mprome_Inject :: "'w os \<Rightarrow> goerror option \<times> 'w os"
  loader_NewPluginLoader :: "string \<Rightarrow> 'w os \<Rightarrow> (goerror + PluginLoader) \<times> 'w os"
  Plugins_Initialize :: "PluginLoader \<Rightarrow> 'w os \<Rightarrow> goerror option \<times> PluginLoader \<times> 'w os"
  Plugins_Inject :: "PluginLoader \<Rightarrow> 'w os \<Rightarrow> goerror option \<times> PluginLoader \<times> 'w os"
  Plugins_Start :: "handle \<Rightarrow> PluginLoader \<Rightarrow> 'w os \<Rightarrow> goerror option \<times> PluginLoader \<times> 'w os"
  Plugins_Close :: "PluginLoader \<Rightarrow> 'w os \<Rightarrow> goerror option \<times> PluginLoader \<times> 'w os"
  core_NewNode :: "nat \<Rightarrow> BuildCfg \<Rightarrow> 'w os \<Rightarrow> (goerror \<times> handle option + handle) \<times> 'w os"
  node_Close :: "handle \<Rightarrow> 'w os \<Rightarrow> 'w os"
  node_Identity :: "handle \<Rightarrow> string"
  promauto_NewGaugeVec :: "string \<Rightarrow> 'w os \<Rightarrow> 'w os outcome"
  prometheus_MustRegister :: "handle \<Rightarrow> 'w os \<Rightarrow> 'w os outcome"
  prometheus_Unregister :: "handle \<Rightarrow> 'w os \<Rightarrow> 'w os"
  coreapi_NewCoreAPI :: "handle \<Rightarrow> 'w os \<Rightarrow> (goerror + handle) \<times> 'w os"
  keyencode_KeyEncoderFromString :: "string \<Rightarrow> goerror + handle"
  ke_FormatID :: "handle \<Rightarrow> string \<Rightarrow> string"

section \<open>Plugins and environment\<close>

definition loadPlugins ::
  "('w, 'z) node_lib_scheme \<Rightarrow> string \<Rightarrow> 'w proc \<Rightarrow> (goerror + PluginLoader) \<times> 'w proc" where
  "loadPlugins lib repoPath s =
     (case loader_NewPluginLoader lib repoPath (os s) of
        (Inl err, sys) \<Rightarrow> (Inl (Errorf (''error loading plugins: '' @ etext err)), s\<lparr>os := sys\<rparr>)
      | (Inr plugins, sys) \<Rightarrow>
     (case Plugins_Initialize lib plugins sys of
        (Some err, plugins, sys) \<Rightarrow>
          (Inl (Errorf (''error initializing plugins: '' @ etext err)), s\<lparr>os := sys\<rparr>)
      | (None, plugins, sys) \<Rightarrow>
     (if \<not> g_plugins_injected s
      then case Plugins_Inject lib plugins sys of
             (Some err, plugins, sys) \<Rightarrow>
               (Inl (Errorf (''error initializing plugins: '' @ etext err)), s\<lparr>os := sys\<rparr>)
           | (None, plugins, sys) \<Rightarrow> (Inr plugins, s\<lparr>os := sys, g_plugins_injected := True\<rparr>)
      else (Inr (plugins\<lparr>loader_state := 4\<rparr>), s\<lparr>os := sys\<rparr>))))"

text \<open>The closure \<open>ConstructNode\<close> of the environment is modelled with the services that call it.\<close>

definition buildEnv ::
  "('w, 'z) node_lib_scheme \<Rightarrow> nodeptr \<Rightarrow> string \<Rightarrow> 'w proc \<Rightarrow> (goerror + cmds_Context) \<times> 'w proc" where
  "buildEnv lib n repoRoot s =
     (case loadPlugins lib repoRoot s of
        (Inl err, s) \<Rightarrow> (Inl err, s)
      | (Inr plugins, s) \<Rightarrow>
          (Inr \<lparr>ConfigRoot = repoRoot, LoadConfig = None, Plugins = Some plugins, Gateway = False\<rparr>, s))"

section \<open>Starting a node\<close>

text \<open>
  A stage returns a code, and then \<open>start_node\<close> returns it, or goes on with a value.
\<close>

definition then_stage ::
  "((ipfs_code + 'a) \<times> 'w proc) outcome \<Rightarrow> ('a \<Rightarrow> 'w proc \<Rightarrow> ((ipfs_code + 'b) \<times> 'w proc) outcome)
   \<Rightarrow> ((ipfs_code + 'b) \<times> 'w proc) outcome" where
  "then_stage m f =
     (case m of
        Panic e \<Rightarrow> Panic e
      | Ret (Inl code, s) \<Rightarrow> Ret (Inl code, s)
      | Ret (Inr a, s) \<Rightarrow> f a s)"

definition st_parse ::
  "('w, 'z) node_lib_scheme \<Rightarrow> bytes \<Rightarrow> 'w proc \<Rightarrow> ((ipfs_code + AsioConfig) \<times> 'w proc) outcome" where
  "st_parse lib jsoncfg s =
     Ret (case json_Unmarshal jsoncfg of
            None \<Rightarrow> (Inl IPFS_PARSE_CONFIG_FAIL, s)
          | Some asiocfg \<Rightarrow> (Inr asiocfg, s))"

definition st_mprome ::
  "('w, 'z) node_lib_scheme \<Rightarrow> 'w proc \<Rightarrow> ((ipfs_code + unit) \<times> 'w proc) outcome" where
  "st_mprome lib s =
     Ret (if g_mprome_injected s then (Inr (), s)
          else case mprome_Inject lib (os s) of
                 (Some err, sys) \<Rightarrow> (Inl IPFS_MPROME_INJECT_FAILED, s\<lparr>os := sys\<rparr>)
               | (None, sys) \<Rightarrow> (Inr (), s\<lparr>os := sys, g_mprome_injected := True\<rparr>))"

definition st_env ::
  "('w, 'z) node_lib_scheme \<Rightarrow> nodeptr \<Rightarrow> string \<Rightarrow> 'w proc \<Rightarrow> ((ipfs_code + cmds_Context) \<times> 'w proc) outcome" where
  "st_env lib n repoRoot s =
     Ret (case buildEnv lib n repoRoot s of
            (Inl err, s) \<Rightarrow> (Inl IPFS_BUILD_ENV_FAILED, upd_node n (\<lambda>x. x\<lparr>cctx := None\<rparr>) s)
          | (Inr c, s) \<Rightarrow> (Inr c, upd_node n (\<lambda>x. x\<lparr>cctx := Some c\<rparr>) s))"

definition st_init ::
  "('w, 'z) node_lib_scheme \<Rightarrow> AsioConfig \<Rightarrow> cmds_Context \<Rightarrow> 'w proc \<Rightarrow> ((ipfs_code + unit) \<times> 'w proc) outcome" where
  "st_init lib asiocfg c s =
     Ret (if fsrepo_IsInitialized lib (ConfigRoot c) (os s) then (Inr (), s)
          else case initRepo lib (ConfigRoot c) asiocfg (os s) of
                 (Some err, sys) \<Rightarrow> (Inl IPFS_CREATE_REPO_FAILED, s\<lparr>os := sys\<rparr>)
               | (None, sys) \<Rightarrow> (Inr (), s\<lparr>os := sys\<rparr>))"

definition st_open ::
  "('w, 'z) node_lib_scheme \<Rightarrow> AsioConfig \<Rightarrow> cmds_Context \<Rightarrow> 'w proc \<Rightarrow> ((ipfs_code + handle) \<times> 'w proc) outcome" where
  "st_open lib asiocfg c s =
     Ret (case openRepo lib (ConfigRoot c) asiocfg (os s) of
            (Inl err, sys) \<Rightarrow> (Inl IPFS_OPEN_REPO_FAILED, s\<lparr>os := sys\<rparr>)
          | (Inr repo, sys) \<Rightarrow> (Inr repo, s\<lparr>os := sys\<rparr>))"

definition st_config ::
  "('w, 'z) node_lib_scheme \<Rightarrow> nodeptr \<Rightarrow> string \<Rightarrow> cmds_Context \<Rightarrow> handle \<Rightarrow> 'w proc
   \<Rightarrow> ((ipfs_code + Config) \<times> 'w proc) outcome" where
  "st_config lib n repoRoot c repo s =
     Ret (case repo_Config lib repo (os s) of
            Inl err \<Rightarrow> (Inl IPFS_READ_CONFIG_FAILED, s)
          | Inr cfg \<Rightarrow>
              (Inr cfg, upd_node n (\<lambda>x. x\<lparr>cctx := Some (c\<lparr>LoadConfig := Some (repoRoot, cfg)\<rparr>)\<rparr>) s))"

text \<open>\<open>NewNode\<close> may return a node together with an error, and the field is assigned in both cases.\<close>

definition st_core ::
  "('w, 'z) node_lib_scheme \<Rightarrow> nodeptr \<Rightarrow> handle \<Rightarrow> Config \<Rightarrow> 'w proc \<Rightarrow> ((ipfs_code + handle) \<times> 'w proc) outcome" where
  "st_core lib n repo cfg s =
     (case makeBuildCfg repo cfg of
        Panic m \<Rightarrow> Panic m
      | Ret bcfg \<Rightarrow>
          Ret (case core_NewNode lib (ctx (nodes s ! n)) bcfg (os s) of
                 (Inl (err, h), sys) \<Rightarrow>
                   (Inl IPFS_START_NODE_FAILED, upd_node n (\<lambda>x. x\<lparr>node := h\<rparr>) (s\<lparr>os := sys\<rparr>))
               | (Inr h, sys) \<Rightarrow> (Inr h, upd_node n (\<lambda>x. x\<lparr>node := Some h\<rparr>) (s\<lparr>os := sys\<rparr>))))"

definition st_plugins ::
  "('w, 'z) node_lib_scheme \<Rightarrow> nodeptr \<Rightarrow> handle \<Rightarrow> 'w proc \<Rightarrow> ((ipfs_code + unit) \<times> 'w proc) outcome" where
  "st_plugins lib n h s =
     (case cctx (nodes s ! n) of
        None \<Rightarrow> Panic ''nil pointer dereference''
      | Some c \<Rightarrow>
     (case Plugins c of
        None \<Rightarrow> Panic ''nil pointer dereference''
      | Some plugins \<Rightarrow>
     (case Plugins_Start lib h plugins (os s) of
        (e, plugins, sys) \<Rightarrow>
          (let s = upd_node n (\<lambda>x. x\<lparr>cctx := Some (c\<lparr>Plugins := Some plugins\<rparr>)\<rparr>) (s\<lparr>os := sys\<rparr>)
           in Ret (if e \<noteq> None then Inl IPFS_PLUGINS_FAILED else Inr (), s)))))"

definition st_gc ::
  "nodeptr \<Rightarrow> AsioConfig \<Rightarrow> 'w proc \<Rightarrow> ((ipfs_code + chan option) \<times> 'w proc) outcome" where
  "st_gc n asiocfg s =
     Ret (case maybeRunGC n asiocfg s of
            (Inl err, s) \<Rightarrow> (Inl IPFS_GC_FAILED, s)
          | (Inr errc, s) \<Rightarrow> (Inr errc, s))"

definition st_http ::
  "ipfs_code \<Rightarrow> ((goerror + chan option) \<times> 'w proc) outcome \<Rightarrow> ((ipfs_code + chan option) \<times> 'w proc) outcome" where
  "st_http code r =
     (case r of
        Panic m \<Rightarrow> Panic m
      | Ret (Inl err, s) \<Rightarrow> Ret (Inl code, s)
      | Ret (Inr errc, s) \<Rightarrow> Ret (Inr errc, s))"

definition st_metrics ::
  "('w, 'z) node_lib_scheme \<Rightarrow> nodeptr \<Rightarrow> handle \<Rightarrow> 'w proc \<Rightarrow> ((ipfs_code + unit) \<times> 'w proc) outcome" where
  "st_metrics lib n h s =
     (case (if g_mporme_metrics s then Ret s
            else case promauto_NewGaugeVec lib ''ipfs_info'' (os s) of
                   Panic m \<Rightarrow> Panic m
                 | Ret sys \<Rightarrow> Ret (s\<lparr>os := sys, g_mporme_metrics := True\<rparr>)) of
        Panic m \<Rightarrow> Panic m
      | Ret s \<Rightarrow>
          (let s = upd_node n (\<lambda>x. x\<lparr>collector := Some h\<rparr>) s
           in case prometheus_MustRegister lib h (os s) of
                Panic m \<Rightarrow> Panic m
              | Ret sys \<Rightarrow> Ret (Inr (), s\<lparr>os := sys\<rparr>)))"

definition st_api ::
  "('w, 'z) node_lib_scheme \<Rightarrow> nodeptr \<Rightarrow> handle \<Rightarrow> 'w proc \<Rightarrow> ((ipfs_code + unit) \<times> 'w proc) outcome" where
  "st_api lib n h s =
     (case coreapi_NewCoreAPI lib h (os s) of
        (Inl err, sys) \<Rightarrow>
          Ret (Inl IPFS_API_ACCESS_FAILED, upd_node n (\<lambda>x. x\<lparr>api := None\<rparr>) (s\<lparr>os := sys\<rparr>))
      | (Inr a, sys) \<Rightarrow>
          (let s = upd_node n (\<lambda>x. x\<lparr>api := Some a\<rparr>) (s\<lparr>os := sys\<rparr>)
           in if state_cb (nodes s ! n) = None then Panic ''IPFS state callback is not provided''
              else Ret (Inr (), s)))"

definition st_monitor ::
  "nodeptr \<Rightarrow> chan option \<Rightarrow> chan option \<Rightarrow> chan option \<Rightarrow> 'w proc \<Rightarrow> ((ipfs_code + unit) \<times> 'w proc) outcome" where
  "st_monitor n gcc apic gwc s =
     Ret (Inr (), if gcc \<noteq> None \<or> apic \<noteq> None \<or> gwc \<noteq> None then go (GoMonitor n gcc apic gwc) s else s)"

text \<open>
  The handle of the repository is passed on to go-ipfs with the build configuration. The first half
  prepares the node's environment and its repository, the second builds and starts it.
\<close>

definition start_prepare ::
  "('w, 'z) node_lib_scheme \<Rightarrow> AsioConfig \<Rightarrow> nodeptr \<Rightarrow> string \<Rightarrow> 'w proc
   \<Rightarrow> ((ipfs_code + handle \<times> Config) \<times> 'w proc) outcome" where
  "start_prepare lib asiocfg n repoRoot s =
     then_stage (st_mprome lib s) (\<lambda>_ s.
     then_stage (st_env lib n repoRoot s) (\<lambda>c s.
     then_stage (st_init lib asiocfg c s) (\<lambda>_ s.
     then_stage (st_open lib asiocfg c s) (\<lambda>repo s.
     then_stage (st_config lib n repoRoot c repo s) (\<lambda>cfg s. Ret (Inr (repo, cfg), s))))))"

definition start_services ::
  "('w, 'z) node_lib_scheme \<Rightarrow> AsioConfig \<Rightarrow> nodeptr \<Rightarrow> handle \<Rightarrow> 'w proc
   \<Rightarrow> ((ipfs_code + unit) \<times> 'w proc) outcome" where
  "start_services lib asiocfg n h s =
     then_stage (st_gc n asiocfg s) (\<lambda>gcc s.
     then_stage (st_http IPFS_API_FAILED (maybeServeHTTPApi lib n asiocfg s)) (\<lambda>apic s.
     then_stage (st_http IPFS_GATEWAY_FAILED (maybeServeHTTPGateway lib n asiocfg s)) (\<lambda>gwc s.
     then_stage (st_metrics lib n h s) (\<lambda>_ s.
     then_stage (st_api lib n h s) (\<lambda>_ s. st_monitor n gcc apic gwc s)))))"

definition start_stages ::
  "('w, 'z) node_lib_scheme \<Rightarrow> bytes \<Rightarrow> nodeptr \<Rightarrow> string \<Rightarrow> 'w proc
   \<Rightarrow> ((ipfs_code + unit) \<times> 'w proc) outcome" where
  "start_stages lib jsoncfg n repoRoot s =
     then_stage (st_parse lib jsoncfg s) (\<lambda>asiocfg s.
     then_stage (start_prepare lib asiocfg n repoRoot s) (\<lambda>(repo, cfg) s.
     then_stage (st_core lib n repo cfg s) (\<lambda>h s.
     then_stage (st_plugins lib n h s) (\<lambda>_ s. start_services lib asiocfg n h s))))"

definition start_node ::
  "('w, 'z) node_lib_scheme \<Rightarrow> bytes \<Rightarrow> nodeptr \<Rightarrow> string \<Rightarrow> 'w proc \<Rightarrow> (ipfs_code \<times> 'w proc) outcome" where
  "start_node lib jsoncfg n repoRoot s =
     (case start_stages lib jsoncfg n repoRoot s of
        Panic m \<Rightarrow> Panic m
      | Ret (Inl code, s) \<Rightarrow> Ret (code, s)
      | Ret (Inr _, s) \<Rightarrow> Ret (IPFS_SUCCESS, s))"

section \<open>Exported calls\<close>

text \<open>
  \<open>C.GoString\<close> copies a C string. When the start fails the code evaluates \<open>go_asio_ipfs_free\<close> without
  calling it, so there is nothing to model there but the return.
\<close>

definition go_asio_ipfs_start_blocking ::
  "('w, 'z) node_lib_scheme \<Rightarrow> bytes \<Rightarrow> bytes \<Rightarrow> cptr \<Rightarrow> cptr \<Rightarrow> 'w proc \<Rightarrow> (ipfs_code \<times> 'w proc) outcome" where
  "go_asio_ipfs_start_blocking lib c_cfg c_repoPath scb scb_arg s =
     (case allocate_node scb scb_arg s of
        (err, s) \<Rightarrow>
          if err \<noteq> IPFS_SUCCESS then Ret (err, s)
          else start_node lib (c_str c_cfg) (the (g_node s)) (c_str c_repoPath) s)"

definition go_asio_ipfs_start_async ::
  "bytes \<Rightarrow> bytes \<Rightarrow> cptr \<Rightarrow> cptr \<Rightarrow> cptr \<Rightarrow> cptr \<Rightarrow> 'w proc \<Rightarrow> 'w proc" where
  "go_asio_ipfs_start_async c_cfg c_repoPath scb scb_arg fn fn_arg s =
     (case allocate_node scb scb_arg s of
        (err, s) \<Rightarrow>
          if err \<noteq> IPFS_SUCCESS then go (GoVoidCB fn err fn_arg) s
          else go (GoStart (c_str c_cfg) (the (g_node s)) (c_str c_repoPath) fn fn_arg) s)"

definition run_start ::
  "('w, 'z) node_lib_scheme \<Rightarrow> bytes \<Rightarrow> nodeptr \<Rightarrow> string \<Rightarrow> cptr \<Rightarrow> cptr \<Rightarrow> 'w proc \<Rightarrow> 'w proc outcome" where
  "run_start lib cfg n repoRoot fn fn_arg s =
     bind_outcome (start_node lib cfg n repoRoot s)
       (\<lambda>(err, s). Ret (call_cb (VoidCB fn err fn_arg) s))"

definition go_asio_ipfs_free :: "('w, 'z) node_lib_scheme \<Rightarrow> 'w proc \<Rightarrow> ipfs_code \<times> 'w proc" where
  "go_asio_ipfs_free lib s =
     (case g_node s of
        None \<Rightarrow> (IPFS_NO_NODE, s)
      | Some n \<Rightarrow>
          (let x = nodes s ! n;
               s = s\<lparr>ctxs := cancel_ctx (cancel x) (ctxs s)\<rparr>;
               s = (case collector x of
                      None \<Rightarrow> s | Some h \<Rightarrow> s\<lparr>os := prometheus_Unregister lib h (os s)\<rparr>);
               s = (case node x of None \<Rightarrow> s | Some h \<Rightarrow> s\<lparr>os := node_Close lib h (os s)\<rparr>);
               s = (case cctx x of
                      None \<Rightarrow> s
                    | Some c \<Rightarrow>
                        (case Plugins c of
                           None \<Rightarrow> s
                         | Some plugins \<Rightarrow>
                             (case Plugins_Close lib plugins (os s) of
                                (e, plugins, sys) \<Rightarrow>
                                  upd_node n (\<lambda>x. x\<lparr>cctx := Some (c\<lparr>Plugins := Some plugins\<rparr>)\<rparr>)
                                    (s\<lparr>os := sys\<rparr>))))
           in (IPFS_SUCCESS, s\<lparr>g_node := None\<rparr>)))"

definition go_asio_ipfs_node_id :: "('w, 'z) node_lib_scheme \<Rightarrow> 'w proc \<Rightarrow> (nat \<times> 'w proc) outcome" where
  "go_asio_ipfs_node_id lib s =
     (case g_node s of
        None \<Rightarrow> Ret (CString [] s)
      | Some n \<Rightarrow>
     (case keyencode_KeyEncoderFromString lib ''b58mh'' of
        Inl err \<Rightarrow> Panic (etext err)
      | Inr ke \<Rightarrow>
     (case node (nodes s ! n) of
        None \<Rightarrow> Panic ''nil pointer dereference''
      | Some h \<Rightarrow> Ret (CString (ke_FormatID lib ke (node_Identity lib h)) s))))"

section \<open>What a start leaves alone\<close>

text \<open>
  Starting a node never touches the contexts, the signals, C memory, the callbacks or the variable
  \<open>g_node\<close>; it changes no other node, adds only goroutines of services and never resets a flag.
\<close>

definition same_identity :: "Node \<Rightarrow> Node \<Rightarrow> bool" where
  "same_identity x y \<longleftrightarrow> ctx x = ctx y \<and> cancel x = cancel y \<and>
     next_cancel_signal_id x = next_cancel_signal_id y \<and> cancel_signals x = cancel_signals y \<and>
     state_cb x = state_cb y \<and> state_cb_arg x = state_cb_arg y"

definition is_service :: "goroutine \<Rightarrow> bool" where
  "is_service g = (case g of
     GoPeriodicGC _ _ \<Rightarrow> True | GoServe _ _ _ _ \<Rightarrow> True | GoCloser _ _ \<Rightarrow> True
   | GoMonitor _ _ _ _ \<Rightarrow> True | _ \<Rightarrow> False)"

definition start_frame :: "nodeptr \<Rightarrow> 'w proc \<Rightarrow> 'w proc \<Rightarrow> bool" where
  "start_frame n s t \<longleftrightarrow>
     ctxs t = ctxs s \<and> g_node t = g_node s \<and> cmem t = cmem s \<and> cbrk t = cbrk s \<and> cbs t = cbs s \<and>
     length (nodes t) = length (nodes s) \<and> (\<forall>p. p \<noteq> n \<longrightarrow> nodes t ! p = nodes s ! p) \<and>
     (n < length (nodes s) \<longrightarrow> same_identity (nodes s ! n) (nodes t ! n)) \<and>
     (\<exists>gs. gos t = gos s @ gs \<and> (\<forall>g \<in> set gs. is_service g)) \<and> nchans s \<le> nchans t \<and>
     (g_mprome_injected s \<longrightarrow> g_mprome_injected t) \<and> (g_mporme_metrics s \<longrightarrow> g_mporme_metrics t) \<and>
     (g_plugins_injected s \<longrightarrow> g_plugins_injected t)"

lemma same_identity_refl [simp]: "same_identity x x"
  by (simp add: same_identity_def)

lemma start_frame_refl [simp]: "start_frame n s s"
  by (simp add: start_frame_def)

lemma start_frame_trans: "start_frame n s t \<Longrightarrow> start_frame n t u \<Longrightarrow> start_frame n s u"
  unfolding start_frame_def same_identity_def by (elim conjE exE) (simp, blast)

lemma start_frame_os [simp]: "start_frame n s (t\<lparr>os := sys\<rparr>) = start_frame n s t"
  by (simp add: start_frame_def)

lemma start_frame_upd_node:
  "start_frame n s t \<Longrightarrow> (\<And>x. same_identity x (f x)) \<Longrightarrow> start_frame n s (upd_node n f t)"
  by (rule start_frame_trans) (auto simp: start_frame_def)

lemma start_frame_go [simp]: "start_frame n s t \<Longrightarrow> is_service g \<Longrightarrow> start_frame n s (go g t)"
  by (auto simp: start_frame_def)

lemma start_frame_flags [simp]:
  "start_frame n s t \<Longrightarrow> start_frame n s (t\<lparr>g_mprome_injected := True\<rparr>)"
  "start_frame n s t \<Longrightarrow> start_frame n s (t\<lparr>g_mporme_metrics := True\<rparr>)"
  "start_frame n s t \<Longrightarrow> start_frame n s (t\<lparr>g_plugins_injected := True\<rparr>)"
  by (auto simp: start_frame_def)

definition stage_ok :: "nodeptr \<Rightarrow> 'w proc \<Rightarrow> (('c + 'a) \<times> 'w proc) outcome \<Rightarrow> bool" where
  "stage_ok n s m \<longleftrightarrow> (\<forall>r t. m = Ret (r, t) \<longrightarrow> start_frame n s t)"

lemma stage_ok_Ret [simp]: "stage_ok n s (Ret (r, t)) \<longleftrightarrow> start_frame n s t"
  by (auto simp: stage_ok_def)

lemma stage_ok_Panic [simp]: "stage_ok n s (Panic m)"
  by (simp add: stage_ok_def)

lemma stage_ok_then:
  assumes "stage_ok n s m" and "\<And>a t. stage_ok n t (f a t)"
  shows "stage_ok n s (then_stage m f)"
  using assms unfolding stage_ok_def then_stage_def
  by (auto split: outcome.splits sum.splits) (blast intro: start_frame_trans)

lemma stage_ok_if_frame:
  "(\<And>r t. m = (r, t) \<Longrightarrow> start_frame n s t) \<Longrightarrow> stage_ok n s (Ret m)"
  by (cases m) simp

lemma loadPlugins_frame: "loadPlugins lib p s = (r, t) \<Longrightarrow> start_frame n s t"
  by (auto simp: loadPlugins_def split: prod.splits sum.splits option.splits if_splits)

lemma buildEnv_frame: "buildEnv lib n p s = (r, t) \<Longrightarrow> start_frame n s t"
  by (auto simp: buildEnv_def split: prod.splits sum.splits dest: loadPlugins_frame [where n = n])

lemma serveAll_frame: "start_frame n s (snd (serveAll h ls opts s))"
  by (auto simp: serveAll_eq start_frame_def is_service_def)

lemma maybeServeHTTPApi_frame: "stage_ok n s (maybeServeHTTPApi lib n acfg s)"
  unfolding maybeServeHTTPApi_def Let_def
  by (auto simp: serveAll_eq start_frame_def is_service_def split: option.split outcome.split sum.split prod.split list.split)

lemma maybeServeHTTPGateway_frame: "stage_ok n s (maybeServeHTTPGateway lib n acfg s)"
  unfolding maybeServeHTTPGateway_def Let_def
  by (auto simp: serveAll_eq start_frame_def is_service_def split: option.split outcome.split sum.split prod.split)

named_theorems stage_frames \<open>every stage of a start keeps the frame\<close>

lemma st_frames [stage_frames]:
  "stage_ok n s (st_parse lib j s)" "stage_ok n s (st_mprome lib s)"
  "stage_ok n s (st_init lib acfg c s)" "stage_ok n s (st_open lib acfg c s)"
  "stage_ok n s (st_gc n acfg s)" "stage_ok n s (st_monitor n a b d s)"
  by (auto simp: st_parse_def st_mprome_def st_init_def st_open_def st_gc_def st_monitor_def
      maybeRunGC_def make_chan_def stage_ok_def start_frame_def go_def is_service_def
      split: sum.splits prod.splits option.splits if_splits)

lemma st_env_frame [stage_frames]: "stage_ok n s (st_env lib n root s)"
  by (auto simp: st_env_def stage_ok_def same_identity_def split: sum.splits prod.splits
      dest: buildEnv_frame intro!: start_frame_upd_node)

lemma st_config_frame [stage_frames]: "stage_ok n s (st_config lib n root c repo s)"
  by (auto simp: st_config_def same_identity_def split: sum.split intro!: start_frame_upd_node)

lemma st_core_frame [stage_frames]: "stage_ok n s (st_core lib n repo cfg s)"
  by (auto simp: st_core_def same_identity_def split: outcome.split sum.split prod.split
      intro!: start_frame_upd_node)

lemma st_plugins_frame [stage_frames]: "stage_ok n s (st_plugins lib n h s)"
  by (auto simp: st_plugins_def Let_def same_identity_def split: option.split prod.split
      intro!: start_frame_upd_node)

lemma st_http_frame [stage_frames]: "stage_ok n s r \<Longrightarrow> stage_ok n s (st_http code r)"
  by (auto simp: st_http_def stage_ok_def split: outcome.split sum.split prod.split)

lemma st_metrics_frame [stage_frames]: "stage_ok n s (st_metrics lib n h s)"
  by (auto simp: st_metrics_def Let_def same_identity_def split: outcome.split
      intro!: start_frame_upd_node)

lemma st_api_frame [stage_frames]: "stage_ok n s (st_api lib n h s)"
  by (auto simp: st_api_def Let_def same_identity_def split: sum.split prod.split
      intro!: start_frame_upd_node)

lemma start_prepare_frame [stage_frames]: "stage_ok n s (start_prepare lib acfg n root s)"
  unfolding start_prepare_def by (intro stage_ok_then stage_frames) simp

lemma start_services_frame [stage_frames]: "stage_ok n s (start_services lib acfg n h s)"
  unfolding start_services_def
  by (intro stage_ok_then stage_frames maybeServeHTTPApi_frame maybeServeHTTPGateway_frame)

lemma start_stages_frame: "stage_ok n s (start_stages lib j n root s)"
  unfolding start_stages_def case_prod_beta by (intro stage_ok_then stage_frames)

lemma start_node_frame:
  assumes "start_node lib j n root s = Ret (code, t)"
  shows "start_frame n s t"
  using assms start_stages_frame [of n s lib j root] unfolding start_node_def stage_ok_def
  by (auto split: outcome.splits sum.splits prod.splits)

section \<open>What a successful start has done\<close>

lemma then_stage_Inr:
  "then_stage m f = Ret (Inr b, u) \<longleftrightarrow> (\<exists>a t. m = Ret (Inr a, t) \<and> f a t = Ret (Inr b, u))"
  by (auto simp: then_stage_def split: outcome.splits sum.splits)

text \<open>The codes a stage can end with.\<close>

definition codes_in :: "ipfs_code set \<Rightarrow> ((ipfs_code + 'a) \<times> 'w proc) outcome \<Rightarrow> bool" where
  "codes_in C m \<longleftrightarrow> (\<forall>code t. m = Ret (Inl code, t) \<longrightarrow> code \<in> C)"

lemma codes_in_then:
  "codes_in C m \<Longrightarrow> (\<And>a t. codes_in C (f a t)) \<Longrightarrow> codes_in C (then_stage m f)"
  by (auto simp: codes_in_def then_stage_def split: outcome.splits sum.splits)

definition start_codes :: "ipfs_code set" where
  "start_codes = {IPFS_PARSE_CONFIG_FAIL, IPFS_MPROME_INJECT_FAILED, IPFS_BUILD_ENV_FAILED,
     IPFS_CREATE_REPO_FAILED, IPFS_OPEN_REPO_FAILED, IPFS_READ_CONFIG_FAILED, IPFS_START_NODE_FAILED,
     IPFS_PLUGINS_FAILED, IPFS_GC_FAILED, IPFS_API_FAILED, IPFS_GATEWAY_FAILED, IPFS_API_ACCESS_FAILED}"

lemma stage_codes:
  "codes_in start_codes (st_parse lib j s)" "codes_in start_codes (st_mprome lib s)"
  "codes_in start_codes (st_env lib n root s)" "codes_in start_codes (st_init lib acfg c s)"
  "codes_in start_codes (st_open lib acfg c s)" "codes_in start_codes (st_config lib n root c repo s)"
  "codes_in start_codes (st_core lib n repo cfg s)" "codes_in start_codes (st_plugins lib n h s)"
  "codes_in start_codes (st_gc n acfg s)" "codes_in start_codes (st_http IPFS_API_FAILED r)"
  "codes_in start_codes (st_http IPFS_GATEWAY_FAILED r)" "codes_in start_codes (st_metrics lib n h s)"
  "codes_in start_codes (st_api lib n h s)" "codes_in start_codes (st_monitor n a b d s)"
  by (auto simp: codes_in_def start_codes_def st_parse_def st_mprome_def st_env_def st_init_def
      st_open_def st_config_def st_core_def st_plugins_def st_gc_def st_http_def st_metrics_def
      st_api_def st_monitor_def Let_def
      split: outcome.splits sum.splits prod.splits option.splits if_splits)

lemma start_stages_codes: "codes_in start_codes (start_stages lib j n root s)"
  unfolding start_stages_def start_prepare_def start_services_def case_prod_beta
  by (intro codes_in_then stage_codes) (simp add: codes_in_def)

lemma start_node_code:
  assumes "start_node lib j n root s = Ret (code, t)"
  shows "code = IPFS_SUCCESS \<or> code \<in> start_codes"
  using assms start_stages_codes [of lib j n root s] unfolding start_node_def codes_in_def
  by (auto split: outcome.splits sum.splits prod.splits)

lemma success_not_start_code: "IPFS_SUCCESS \<notin> start_codes"
  by (simp add: start_codes_def)

lemma start_node_success_iff:
  "start_node lib j n root s = Ret (IPFS_SUCCESS, t) \<longleftrightarrow> start_stages lib j n root s = Ret (Inr (), t)"
  using start_stages_codes [of lib j n root s] success_not_start_code
  unfolding start_node_def codes_in_def by (auto split: outcome.splits sum.splits prod.splits)

lemma start_node_success:
  assumes "start_node lib j n root s = Ret (IPFS_SUCCESS, t)"
  obtains acfg repo cfg h s1 s2 s3 where
    "json_Unmarshal j = Some acfg" "start_prepare lib acfg n root s = Ret (Inr (repo, cfg), s1)"
    "st_core lib n repo cfg s1 = Ret (Inr h, s2)" "st_plugins lib n h s2 = Ret (Inr (), s3)"
    "start_services lib acfg n h s3 = Ret (Inr (), t)"
  using assms unfolding start_node_success_iff start_stages_def st_parse_def
  by (auto simp: then_stage_Inr split: sum.splits option.splits)

text \<open>The environment after the first half.\<close>

lemma st_mprome_post:
  assumes "st_mprome lib s = Ret (Inr (), t)"
  shows "g_mprome_injected t" and "gos t = gos s" and "nodes t = nodes s"
  using assms by (auto simp: st_mprome_def split: if_splits option.splits prod.splits)

lemma loadPlugins_post:
  assumes "loadPlugins lib p s = (Inr pl, t)"
  shows "g_plugins_injected t" and "g_mprome_injected t = g_mprome_injected s"
    and "gos t = gos s" and "nodes t = nodes s" and "g_plugins_injected s \<Longrightarrow> loader_state pl = 4"
  using assms by (auto simp: loadPlugins_def split: if_splits option.splits sum.splits prod.splits)

lemma st_env_post:
  assumes "st_env lib n root s = Ret (Inr c, t)" and "n < length (nodes s)"
  shows "\<exists>pl. c = \<lparr>ConfigRoot = root, LoadConfig = None, Plugins = Some pl, Gateway = False\<rparr>"
    and "g_plugins_injected t" and "g_mprome_injected t = g_mprome_injected s" and "gos t = gos s"
    and "length (nodes t) = length (nodes s)"
  using assms
  by (auto simp: st_env_def buildEnv_def split: sum.splits prod.splits dest: loadPlugins_post)

lemma st_init_post:
  assumes "st_init lib acfg c s = Ret (Inr (), t)"
  shows "\<exists>sys. t = s\<lparr>os := sys\<rparr>"
  using assms by (auto simp: st_init_def split: if_splits option.splits prod.splits)
     (metis proc.surjective proc.update_convs(12))

lemma st_open_post:
  assumes "st_open lib acfg c s = Ret (Inr repo, t)"
  shows "\<exists>sys. t = s\<lparr>os := sys\<rparr> \<and> openRepo lib (ConfigRoot c) acfg (os s) = (Inr repo, sys)"
  using assms by (auto simp: st_open_def split: sum.splits prod.splits)

lemma st_config_post:
  assumes "st_config lib n root c repo s = Ret (Inr cfg, t)"
  shows "t = upd_node n (\<lambda>x. x\<lparr>cctx := Some (c\<lparr>LoadConfig := Some (root, cfg)\<rparr>)\<rparr>) s"
    and "repo_Config lib repo (os s) = Inr cfg"
  using assms by (auto simp: st_config_def split: sum.splits)

lemma start_prepare_post:
  assumes "start_prepare lib acfg n root s = Ret (Inr (repo, cfg), t)" and "n < length (nodes s)"
  shows "\<exists>pl. cctx (nodes t ! n) =
      Some \<lparr>ConfigRoot = root, LoadConfig = Some (root, cfg), Plugins = Some pl, Gateway = False\<rparr>"
    and "g_mprome_injected t" and "g_plugins_injected t" and "gos t = gos s"
    and "repo_Config lib repo (os t) = Inr cfg"
    and "\<exists>sys. openRepo lib root acfg sys = (Inr repo, os t)"
proof -
  from assms(1) obtain s1 s2 c s3 s4 where
    st: "st_mprome lib s = Ret (Inr (), s1)" "st_env lib n root s1 = Ret (Inr c, s2)"
      "st_init lib acfg c s2 = Ret (Inr (), s3)" "st_open lib acfg c s3 = Ret (Inr repo, s4)"
      "st_config lib n root c repo s4 = Ret (Inr cfg, t)"
    unfolding start_prepare_def then_stage_Inr by auto
  note m = st_mprome_post [OF st(1)] and e = st_env_post [OF st(2)] and c = st_config_post [OF st(5)]
  obtain y3 where s3: "s3 = s2\<lparr>os := y3\<rparr>" using st_init_post [OF st(3)] by auto
  obtain y4 where s4: "s4 = s3\<lparr>os := y4\<rparr>" "openRepo lib (ConfigRoot c) acfg (os s3) = (Inr repo, y4)"
    using st_open_post [OF st(4)] by auto
  have n: "n < length (nodes s1)" using m assms(2) by simp
  show "\<exists>pl. cctx (nodes t ! n) =
      Some \<lparr>ConfigRoot = root, LoadConfig = Some (root, cfg), Plugins = Some pl, Gateway = False\<rparr>"
    using c(1) s3 s4 e [OF n] n by auto
  show "g_mprome_injected t" "g_plugins_injected t" "gos t = gos s"
    "repo_Config lib repo (os t) = Inr cfg" "\<exists>sys. openRepo lib root acfg sys = (Inr repo, os t)"
    using m e [OF n] c s3 s4 by auto
qed

lemma st_core_post:
  assumes "st_core lib n repo cfg s = Ret (Inr h, t)" and "n < length (nodes s)"
  shows "node (nodes t ! n) = Some h" and "cctx (nodes t ! n) = cctx (nodes s ! n)" and "gos t = gos s"
    and "g_mprome_injected t = g_mprome_injected s" and "g_plugins_injected t = g_plugins_injected s"
    and "g_mporme_metrics t = g_mporme_metrics s" and "length (nodes t) = length (nodes s)"
  using assms by (auto simp: st_core_def split: outcome.splits sum.splits prod.splits)

lemma st_plugins_post:
  assumes "st_plugins lib n h s = Ret (Inr (), t)" and "n < length (nodes s)"
  shows "\<exists>c pl. cctx (nodes s ! n) = Some c \<and> cctx (nodes t ! n) = Some (c\<lparr>Plugins := Some pl\<rparr>)"
    and "node (nodes t ! n) = node (nodes s ! n)" and "gos t = gos s"
    and "g_mprome_injected t = g_mprome_injected s" and "g_plugins_injected t = g_plugins_injected s"
    and "length (nodes t) = length (nodes s)"
  using assms by (auto simp: st_plugins_def Let_def split: option.splits prod.splits if_splits)

text \<open>Every service that is asked for reports on a channel; one that is not asked for has none.\<close>

definition is_monitor :: "goroutine \<Rightarrow> bool" where
  "is_monitor g = (case g of GoMonitor _ _ _ _ \<Rightarrow> True | _ \<Rightarrow> False)"

lemma st_gc_post:
  assumes "st_gc n acfg s = Ret (Inr e, t)"
  shows "e \<noteq> None \<longleftrightarrow> RunGC acfg" and "nodes t = nodes s"
    and "filter is_monitor (gos t) = filter is_monitor (gos s)"
    and "g_mprome_injected t = g_mprome_injected s" and "g_plugins_injected t = g_plugins_injected s"
  using assms
  by (auto simp: st_gc_def maybeRunGC_def make_chan_def go_def is_monitor_def split: if_splits)

lemma serveAll_monitors:
  "filter is_monitor (gos (snd (serveAll h ls opts s))) = filter is_monitor (gos s)"
  by (simp add: serveAll_eq is_monitor_def filter_empty_conv)

lemma st_api_service_post:
  assumes "st_http code (maybeServeHTTPApi lib n acfg s) = Ret (Inr e, t)"
  shows "e \<noteq> None \<longleftrightarrow> APIAddress acfg \<noteq> []" and "nodes t = nodes s"
    and "filter is_monitor (gos t) = filter is_monitor (gos s)"
    and "g_mprome_injected t = g_mprome_injected s" and "g_plugins_injected t = g_plugins_injected s"
  using assms unfolding maybeServeHTTPApi_def st_http_def Let_def
  by (auto simp: serveAll_eq is_monitor_def filter_empty_conv
      split: if_splits option.splits outcome.splits sum.splits prod.splits list.splits)

lemma st_gateway_service_post:
  assumes "st_http code (maybeServeHTTPGateway lib n acfg s) = Ret (Inr e, t)"
  shows "e \<noteq> None \<longleftrightarrow> GatewayAddress acfg \<noteq> []" and "nodes t = nodes s"
    and "filter is_monitor (gos t) = filter is_monitor (gos s)"
    and "g_mprome_injected t = g_mprome_injected s" and "g_plugins_injected t = g_plugins_injected s"
  using assms unfolding maybeServeHTTPGateway_def st_http_def Let_def
  by (auto simp: serveAll_eq is_monitor_def filter_empty_conv
      split: if_splits option.splits outcome.splits sum.splits prod.splits)

lemma st_metrics_post:
  assumes "st_metrics lib n h s = Ret (Inr (), t)" and "n < length (nodes s)"
  shows "nodes t ! n = (nodes s ! n)\<lparr>collector := Some h\<rparr>" and "gos t = gos s" and "g_mporme_metrics t"
    and "g_mprome_injected t = g_mprome_injected s" and "g_plugins_injected t = g_plugins_injected s"
    and "length (nodes t) = length (nodes s)"
  using assms by (auto simp: st_metrics_def Let_def split: outcome.splits if_splits)

lemma st_api_post:
  assumes "st_api lib n h s = Ret (Inr (), t)" and "n < length (nodes s)"
  shows "\<exists>a. nodes t ! n = (nodes s ! n)\<lparr>api := Some a\<rparr>" and "gos t = gos s"
    and "state_cb (nodes s ! n) \<noteq> None" and "g_mporme_metrics t = g_mporme_metrics s"
    and "g_mprome_injected t = g_mprome_injected s" and "g_plugins_injected t = g_plugins_injected s"
  using assms by (auto simp: st_api_def Let_def split: sum.splits prod.splits if_splits)

lemma start_services_post:
  assumes "start_services lib acfg n h s = Ret (Inr (), t)" and "n < length (nodes s)"
  obtains a gcc apic gwc where
    "nodes t ! n = (nodes s ! n)\<lparr>collector := Some h, api := Some a\<rparr>" "g_mporme_metrics t"
    "g_mprome_injected t = g_mprome_injected s" "g_plugins_injected t = g_plugins_injected s"
    "gcc \<noteq> None \<longleftrightarrow> RunGC acfg" "apic \<noteq> None \<longleftrightarrow> APIAddress acfg \<noteq> []"
    "gwc \<noteq> None \<longleftrightarrow> GatewayAddress acfg \<noteq> []" "state_cb (nodes s ! n) \<noteq> None"
    "filter is_monitor (gos t) = filter is_monitor (gos s) @
       (if gcc \<noteq> None \<or> apic \<noteq> None \<or> gwc \<noteq> None then [GoMonitor n gcc apic gwc] else [])"
proof -
  from assms(1) obtain gcc s1 apic s2 gwc s3 s4 s5 where
    st: "st_gc n acfg s = Ret (Inr gcc, s1)"
      "st_http IPFS_API_FAILED (maybeServeHTTPApi lib n acfg s1) = Ret (Inr apic, s2)"
      "st_http IPFS_GATEWAY_FAILED (maybeServeHTTPGateway lib n acfg s2) = Ret (Inr gwc, s3)"
      "st_metrics lib n h s3 = Ret (Inr (), s4)" "st_api lib n h s4 = Ret (Inr (), s5)"
      "st_monitor n gcc apic gwc s5 = Ret (Inr (), t)"
    unfolding start_services_def by (auto simp: then_stage_Inr)
  note g = st_gc_post [OF st(1)] and a = st_api_service_post [OF st(2)]
    and w = st_gateway_service_post [OF st(3)]
  have n3: "n < length (nodes s3)" using g a w assms(2) by simp
  note m = st_metrics_post [OF st(4) n3]
  have n4: "n < length (nodes s4)" using m n3 by simp
  note p = st_api_post [OF st(5) n4]
  obtain x where x: "nodes s5 ! n = (nodes s4 ! n)\<lparr>api := Some x\<rparr>" using p(1) by blast
  have t: "t = (if gcc \<noteq> None \<or> apic \<noteq> None \<or> gwc \<noteq> None then go (GoMonitor n gcc apic gwc) s5 else s5)"
    using st(6) by (simp add: st_monitor_def)
  show ?thesis
  proof (rule that [of x gcc apic gwc])
    show "filter is_monitor (gos t) = filter is_monitor (gos s) @
       (if gcc \<noteq> None \<or> apic \<noteq> None \<or> gwc \<noteq> None then [GoMonitor n gcc apic gwc] else [])"
      using t g(3) a(3) w(3) m(2) p(2) by (simp add: is_monitor_def)
  qed (use t x g a w m p in \<open>simp_all split: if_splits\<close>)
qed

end
