(* ===== verification/Node_Props.thy ===== *)
theory Node_Props
  imports Node_Lifecycle
begin

text \<open>
  The properties of the node's life cycle: what a successful start establishes, what a failed one
  leaves behind, what freeing the node ends, and when the identity of the node can be asked for.
\<close>

section \<open>Facts on the exported calls\<close>

lemma allocate_node_new:
  assumes "g_node s = None"
  shows "allocate_node scb arg s = (IPFS_SUCCESS, snd (allocate_node scb arg s))"
    and "g_node (snd (allocate_node scb arg s)) = Some (length (nodes s))"
    and "length (nodes (snd (allocate_node scb arg s))) = Suc (length (nodes s))"
    and "nodes (snd (allocate_node scb arg s)) ! length (nodes s) =
      \<lparr>ctx = length (ctxs s), cctx = None, node = None, api = None, collector = None,
       cancel = length (ctxs s), next_cancel_signal_id = 0, cancel_signals = Map.empty,
       state_cb = scb, state_cb_arg = arg, log_cb = None\<rparr>"
    and "\<not> ctx_done (ctxs (snd (allocate_node scb arg s))) (length (ctxs s))"
    and "gos (snd (allocate_node scb arg s)) = gos s"
    and "p < length (nodes s) \<Longrightarrow> nodes (snd (allocate_node scb arg s)) ! p = nodes s ! p"
  using assms by (simp_all add: allocate_node_def Let_def case_prod_beta nth_append)

lemma allocate_node_exists:
  "g_node s \<noteq> None \<Longrightarrow> allocate_node scb arg s = (IPFS_NODE_EXISTS, s)"
  by (simp add: allocate_node_def)

lemma start_blocking_new:
  "g_node s = None \<Longrightarrow> go_asio_ipfs_start_blocking lib c_cfg c_repo scb arg s =
     start_node lib (c_str c_cfg) (length (nodes s)) (c_str c_repo) (snd (allocate_node scb arg s))"
  by (subst go_asio_ipfs_start_blocking_def, subst allocate_node_new(1))
     (simp_all add: allocate_node_new(2))

lemma start_blocking_exists:
  "g_node s \<noteq> None \<Longrightarrow>
   go_asio_ipfs_start_blocking lib c_cfg c_repo scb arg s = Ret (IPFS_NODE_EXISTS, s)"
  by (simp add: go_asio_ipfs_start_blocking_def allocate_node_exists)

text \<open>A start keeps the process well-formed.\<close>

lemma proc_wf_start_frame:
  assumes "proc_wf s" and "start_frame n s t"
  shows "proc_wf t"
proof -
  have "node_wf (ctxs t) (nodes t ! i)" if "i < length (nodes t)" for i
  proof -
    have "node_wf (ctxs s) (nodes s ! i)" using assms that by (simp add: proc_wf_def start_frame_def)
    then show ?thesis
      using assms(2) that
      by (cases "i = n") (auto simp: start_frame_def same_identity_def node_wf_def)
  qed
  then show ?thesis using assms by (auto simp: proc_wf_def start_frame_def in_set_conv_nth)
qed

lemma proc_wf_start_node:
  "proc_wf s \<Longrightarrow> start_node lib j n root s = Ret (code, t) \<Longrightarrow> proc_wf t"
  by (blast intro: proc_wf_start_frame start_node_frame)

lemma proc_wf_start_blocking:
  assumes "proc_wf s" and "go_asio_ipfs_start_blocking lib c_cfg c_repo scb arg s = Ret (code, t)"
  shows "proc_wf t"
proof (cases "g_node s")
  case None
  with assms(2) have "start_node lib (c_str c_cfg) (length (nodes s)) (c_str c_repo)
      (snd (allocate_node scb arg s)) = Ret (code, t)"
    by (simp add: start_blocking_new)
  then show ?thesis using proc_wf_allocate_node [OF assms(1)] proc_wf_start_node by blast
qed (use assms in \<open>simp add: start_blocking_exists\<close>)

text \<open>Freeing the node changes contexts, the node's environment and the libraries' state.\<close>

lemma free_eq:
  assumes "g_node s = Some n"
  shows "fst (go_asio_ipfs_free lib s) = IPFS_SUCCESS"
    and "g_node (snd (go_asio_ipfs_free lib s)) = None"
    and "ctxs (snd (go_asio_ipfs_free lib s)) = cancel_ctx (cancel (nodes s ! n)) (ctxs s)"
    and "gos (snd (go_asio_ipfs_free lib s)) = gos s" and "cbs (snd (go_asio_ipfs_free lib s)) = cbs s"
    and "cmem (snd (go_asio_ipfs_free lib s)) = cmem s" and "cbrk (snd (go_asio_ipfs_free lib s)) = cbrk s"
    and "\<exists>c. nodes (snd (go_asio_ipfs_free lib s)) = (nodes s)[n := (nodes s ! n)\<lparr>cctx := c\<rparr>]"
  using assms
  by (auto simp: go_asio_ipfs_free_def Let_def nodes_upd_node split: option.split prod.split)
     (metis Node.surjective Node.update_convs(2) list_update_id)+

lemma proc_wf_free:
  assumes "proc_wf s"
  shows "proc_wf (snd (go_asio_ipfs_free lib s))"
proof (cases "g_node s")
  case None
  then show ?thesis using assms by (simp add: go_asio_ipfs_free_def)
next
  case (Some n)
  note f = free_eq [OF Some, of lib]
  obtain c where c: "nodes (snd (go_asio_ipfs_free lib s)) = (nodes s)[n := (nodes s ! n)\<lparr>cctx := c\<rparr>]"
    using f(8) by blast
  have n: "n < length (nodes s)" using assms Some by (simp add: proc_wf_def)
  then have "node_wf (ctxs s) (nodes s ! n)" using assms by (simp add: proc_wf_def)
  then have "node_wf (ctxs s) ((nodes s ! n)\<lparr>cctx := c\<rparr>)" by (simp add: node_wf_def)
  with assms have "\<forall>x \<in> set (nodes (snd (go_asio_ipfs_free lib s))). node_wf (ctxs s) x"
    unfolding c by (intro ball_set_list_update) (auto simp: proc_wf_def)
  with assms f show ?thesis
    by (auto simp: proc_wf_def ctx_wf_cancel_ctx node_wf_cancel_ctx)
qed

section \<open>A library for the examples\<close>

definition demo_node_lib :: "Config option node_lib" where
  "demo_node_lib = svc_lib.extend demo_svc_lib (node_lib.fields
     (\<lambda>sys. (None, sys))
     (\<lambda>p sys. (Inr \<lparr>loader_state = 0, loader_id = 1\<rparr>, sys))
     (\<lambda>pl sys. (None, pl\<lparr>loader_state := 2\<rparr>, sys))
     (\<lambda>pl sys. (None, pl\<lparr>loader_state := 4\<rparr>, sys))
     (\<lambda>h pl sys. (if loader_state pl = 4 then None else Some (Errorf ''not injected''),
        pl\<lparr>loader_state := 6\<rparr>, sys))
     (\<lambda>pl sys. (None, pl\<lparr>loader_state := 8\<rparr>, sys))
     (\<lambda>c b sys. (Inr 5, sys))
     (\<lambda>h sys. sys)
     (\<lambda>h. ''QmNode'')
     (\<lambda>m sys. Ret sys)
     (\<lambda>h sys. Ret sys)
     (\<lambda>h sys. sys)
     (\<lambda>h sys. (Inr 9, sys))
     (\<lambda>e. Inr 3)
     (\<lambda>ke i. i))"

definition demo_init :: "Config option proc" where
  "demo_init = init_proc (demo_os None)"

definition demo_start :: "bytes \<Rightarrow> Config option proc \<Rightarrow> (ipfs_code \<times> Config option proc) outcome" where
  "demo_start j s = go_asio_ipfs_start_blocking demo_node_lib (j @ [CHR 0x00])
     (''/home/r'' @ [CHR 0x00]) (Some 1) (Some 2) s"

text \<open>The state and the code of a call that returned; and that the code is the expected one.\<close>

definition ret_code :: "(ipfs_code \<times> 's) outcome \<Rightarrow> ipfs_code option" where
  "ret_code r = (case r of Ret (c, _) \<Rightarrow> Some c | Panic _ \<Rightarrow> None)"

definition ret_state :: "(ipfs_code \<times> 's) outcome \<Rightarrow> 's" where
  "ret_state r = (case r of Ret (_, s) \<Rightarrow> s | Panic m \<Rightarrow> undefined)"

lemma ret_code_state: "ret_code r = Some c \<Longrightarrow> r = Ret (c, ret_state r)"
  by (auto simp: ret_code_def ret_state_def split: outcome.splits prod.splits)

lemma demo_start_ok: "ret_code (demo_start (demo_json ''dht'') demo_init) = Some IPFS_SUCCESS"
  by code_simp

section \<open>Properties\<close>

text \<open>
  C5: a start that reports success was the only one, and leaves a complete node: an environment
  whose \<open>LoadConfig\<close> answers with the stored configuration, a core node, its API and its metrics
  collector, a context that is not done, a state callback, and every once-per-process flag set. A
  monitor watches it exactly when one of the services was asked for, and each channel it watches
  is nil exactly when its service is off.
\<close>

theorem start_establishes_node:
  assumes "go_asio_ipfs_start_blocking lib c_cfg c_repo scb arg s = Ret (IPFS_SUCCESS, t)"
  shows "g_node s = None \<and> g_node t = Some (length (nodes s)) \<and> scb \<noteq> None \<and>
    g_mprome_injected t \<and> g_plugins_injected t \<and> g_mporme_metrics t \<and>
    (\<exists>acfg c cfg h a gcc apic gwc.
       json_Unmarshal (c_str c_cfg) = Some acfg \<and>
       ConfigRoot c = c_str c_repo \<and> LoadConfig c = Some (c_str c_repo, cfg) \<and> Plugins c \<noteq> None \<and>
       nodes t ! length (nodes s) =
         \<lparr>ctx = length (ctxs s), cctx = Some c, node = Some h, api = Some a, collector = Some h,
          cancel = length (ctxs s), next_cancel_signal_id = 0, cancel_signals = Map.empty,
          state_cb = scb, state_cb_arg = arg,
          log_cb = log_cb (nodes t ! length (nodes s))\<rparr> \<and>
       \<not> ctx_done (ctxs t) (length (ctxs s)) \<and>
       (gcc \<noteq> None \<longleftrightarrow> RunGC acfg) \<and> (apic \<noteq> None \<longleftrightarrow> APIAddress acfg \<noteq> []) \<and>
       (gwc \<noteq> None \<longleftrightarrow> GatewayAddress acfg \<noteq> []) \<and>
       filter is_monitor (gos t) = filter is_monitor (gos s) @
         (if gcc \<noteq> None \<or> apic \<noteq> None \<or> gwc \<noteq> None
          then [GoMonitor (length (nodes s)) gcc apic gwc] else []))"
proof -
  have none: "g_node s = None"
    using assms by (cases "g_node s") (simp_all add: start_blocking_exists)
  let ?n = "length (nodes s)" and ?s0 = "snd (allocate_node scb arg s)"
  note al = allocate_node_new [OF none, where scb = scb and arg = arg]
  have start: "start_node lib (c_str c_cfg) ?n (c_str c_repo) ?s0 = Ret (IPFS_SUCCESS, t)"
    using assms by (simp add: start_blocking_new none)
  from start obtain acfg repo cfg h s1 s2 s3 where
    st: "json_Unmarshal (c_str c_cfg) = Some acfg"
      "start_prepare lib acfg ?n (c_str c_repo) ?s0 = Ret (Inr (repo, cfg), s1)"
      "st_core lib ?n repo cfg s1 = Ret (Inr h, s2)" "st_plugins lib ?n h s2 = Ret (Inr (), s3)"
      "start_services lib acfg ?n h s3 = Ret (Inr (), t)"
    by (rule start_node_success)
  have n0: "?n < length (nodes ?s0)" using al(3) by simp
  have n1: "?n < length (nodes s1)"
    using n0 start_prepare_frame [of ?n ?s0 lib acfg "c_str c_repo"] st(2)
    by (simp add: stage_ok_def start_frame_def)
  note p = start_prepare_post [OF st(2) n0] and c = st_core_post [OF st(3) n1]
  have n2: "?n < length (nodes s2)" using c n1 by simp
  note pl = st_plugins_post [OF st(4) n2]
  have n3: "?n < length (nodes s3)" using pl n2 by simp
  from st(5) n3 obtain a gcc apic gwc where
    sv: "nodes t ! ?n = (nodes s3 ! ?n)\<lparr>collector := Some h, api := Some a\<rparr>" "g_mporme_metrics t"
    "g_mprome_injected t = g_mprome_injected s3" "g_plugins_injected t = g_plugins_injected s3"
    "gcc \<noteq> None \<longleftrightarrow> RunGC acfg" "apic \<noteq> None \<longleftrightarrow> APIAddress acfg \<noteq> []"
    "gwc \<noteq> None \<longleftrightarrow> GatewayAddress acfg \<noteq> []" "state_cb (nodes s3 ! ?n) \<noteq> None"
    "filter is_monitor (gos t) = filter is_monitor (gos s3) @
       (if gcc \<noteq> None \<or> apic \<noteq> None \<or> gwc \<noteq> None then [GoMonitor ?n gcc apic gwc] else [])"
    by (rule start_services_post)
  have fr: "ctxs t = ctxs ?s0" "g_node t = g_node ?s0" "same_identity (nodes ?s0 ! ?n) (nodes t ! ?n)"
    using start_node_frame [OF start] n0 by (auto simp: start_frame_def)
  obtain c' where c': "cctx (nodes s3 ! ?n) = Some c'" "ConfigRoot c' = c_str c_repo"
    "LoadConfig c' = Some (c_str c_repo, cfg)" "Plugins c' \<noteq> None"
    using p(1) c(2) pl(1) by auto
  have x: "nodes t ! ?n = \<lparr>ctx = length (ctxs s), cctx = Some c', node = Some h, api = Some a,
      collector = Some h, cancel = length (ctxs s), next_cancel_signal_id = 0,
      cancel_signals = Map.empty, state_cb = scb, state_cb_arg = arg,
      log_cb = log_cb (nodes t ! ?n)\<rparr>"
    using fr(3) sv(1) c' c(1) pl(2) al(4) by (simp add: same_identity_def)
  have "scb \<noteq> None" using sv(1,8) x by (metis Node.select_convs(9) Node.ext_inject Node.surjective
        Node.update_convs(4,5))
  have dn: "\<not> ctx_done (ctxs t) (length (ctxs s))" using al(5) fr(1) by simp
  have mon: "filter is_monitor (gos t) = filter is_monitor (gos s) @
       (if gcc \<noteq> None \<or> apic \<noteq> None \<or> gwc \<noteq> None then [GoMonitor ?n gcc apic gwc] else [])"
    using sv(9) pl(3) c(3) p(4) al(6) by simp
  show ?thesis
  proof (intro conjI)
    show "g_node s = None" by (rule none)
    show "g_node t = Some ?n" using fr(2) al(2) by simp
    show "scb \<noteq> None" by fact
    show "g_mprome_injected t" "g_plugins_injected t" "g_mporme_metrics t"
      using sv(2-4) pl(4,5) c(4,5) p(2,3) by simp_all
  qed (intro exI conjI, rule st(1), rule c'(2), rule c'(3), rule c'(4), rule x, rule dn,
       rule sv(5), rule sv(6), rule sv(7), rule mon)
qed

theorem start_establishes_node_witness:
  "\<exists>t. demo_start (demo_json ''dht'') demo_init = Ret (IPFS_SUCCESS, t) \<and> g_node t = Some 0 \<and>
     (\<exists>gcc apic. filter is_monitor (gos t) = [GoMonitor 0 (Some gcc) (Some apic) None])"
proof -
  let ?t = "ret_state (demo_start (demo_json ''dht'') demo_init)"
  have r: "demo_start (demo_json ''dht'') demo_init = Ret (IPFS_SUCCESS, ?t)"
    by (rule ret_code_state [OF demo_start_ok])
  have j: "json_Unmarshal (c_str (demo_json ''dht'' @ [CHR 0x00])) = Some demo_settings"
    by code_simp
  have "nodes demo_init = []" "gos demo_init = []" by (simp_all add: demo_init_def init_proc_def)
  with start_establishes_node [OF r [unfolded demo_start_def]] j r show ?thesis
    by (auto simp: demo_settings_def demo_start_def)
qed

text \<open>
  C6: a start that fails returns one of the twelve codes of \<open>start_node\<close> but keeps the half-started
  node: it stays the current node, its context is not cancelled, and every further start is refused
  with \<open>IPFS_NODE_EXISTS\<close> until the node is freed. (The code names \<open>go_asio_ipfs_free\<close> on this path
  but does not call it.)
\<close>

theorem failed_start_blocks_next_start:
  assumes "g_node s = None" and "code \<noteq> IPFS_SUCCESS"
    and "go_asio_ipfs_start_blocking lib c_cfg c_repo scb arg s = Ret (code, t)"
  shows "code \<in> start_codes \<and> g_node t = Some (length (nodes s)) \<and>
    \<not> ctx_done (ctxs t) (ctx (nodes t ! length (nodes s))) \<and>
    (\<forall>c_cfg c_repo scb arg.
       go_asio_ipfs_start_blocking lib c_cfg c_repo scb arg t = Ret (IPFS_NODE_EXISTS, t)) \<and>
    fst (allocate_node scb arg (snd (go_asio_ipfs_free lib t))) = IPFS_SUCCESS"
proof -
  let ?n = "length (nodes s)" and ?s0 = "snd (allocate_node scb arg s)"
  note al = allocate_node_new [OF assms(1), where scb = scb and arg = arg]
  have start: "start_node lib (c_str c_cfg) ?n (c_str c_repo) ?s0 = Ret (code, t)"
    using assms by (simp add: start_blocking_new)
  have fr: "ctxs t = ctxs ?s0" "g_node t = Some ?n" "same_identity (nodes ?s0 ! ?n) (nodes t ! ?n)"
    using start_node_frame [OF start] al by (auto simp: start_frame_def)
  have ctx: "ctx (nodes t ! ?n) = length (ctxs s)" using fr(3) al(4) by (simp add: same_identity_def)
  have "code \<in> start_codes" using start_node_code [OF start] assms(2) by blast
  moreover have "\<not> ctx_done (ctxs t) (ctx (nodes t ! ?n))" using al(5) fr(1) ctx by simp
  moreover have "fst (allocate_node scb arg (snd (go_asio_ipfs_free lib t))) = IPFS_SUCCESS"
    using allocate_node_new(1) [OF free_eq(2) [OF fr(2)]] by (metis fst_conv)
  ultimately show ?thesis using fr(2) by (simp add: start_blocking_exists)
qed

lemma demo_start_fails: "ret_code (demo_start ''?'' demo_init) = Some IPFS_PARSE_CONFIG_FAIL"
  by code_simp

theorem failed_start_blocks_next_start_witness:
  "\<exists>t. demo_start ''?'' demo_init = Ret (IPFS_PARSE_CONFIG_FAIL, t) \<and>
     demo_start (demo_json ''dht'') t = Ret (IPFS_NODE_EXISTS, t)"
proof -
  have r: "demo_start ''?'' demo_init = Ret (IPFS_PARSE_CONFIG_FAIL, ret_state (demo_start ''?'' demo_init))"
    by (rule ret_code_state [OF demo_start_fails])
  have "g_node demo_init = None" by (simp add: demo_init_def init_proc_def)
  from failed_start_blocks_next_start [OF this _ r [unfolded demo_start_def]] r show ?thesis
    by (auto simp: demo_start_def)
qed

lemma cancel_spares_other_node:
  assumes wf: "ctx_wf cs" and "node_wf cs x" and "node_wf cs y" and "ctx y \<noteq> ctx x"
  shows "ctx_done (cancel_ctx (ctx x) cs) (ctx y) = ctx_done cs (ctx y) \<and>
    (\<forall>k c. cancel_signals y k = Some c \<longrightarrow> ctx_done (cancel_ctx (ctx x) cs) c = ctx_done cs c)"
proof (intro conjI allI impI)
  show "ctx_done (cancel_ctx (ctx x) cs) (ctx y) = ctx_done cs (ctx y)"
    using assms ctxp.kill_root [of "ctx y" cs "ctx x"] by (simp add: node_wf_def)
next
  fix k c
  assume "cancel_signals y k = Some c"
  with assms(3) have c: "c < length cs" "ctx_parent (cs ! c) = Some (ctx y)"
    "ctx_parent (cs ! ctx y) = None" by (auto simp: node_wf_def)
  moreover have "ctx_parent (cs ! ctx x) = None" using assms(2) by (simp add: node_wf_def)
  ultimately have "c \<noteq> ctx x" by auto
  then show "ctx_done (cancel_ctx (ctx x) cs) c = ctx_done cs c"
    by (rule ctxp.kill_sibling [OF wf c]) (rule assms(4))
qed

text \<open>
  C8: freeing the current node cancels its context and the context of every call that is still
  registered, cancels no context of another node, keeps memory, callbacks and well-formedness, and
  leaves no current node, so that a second free reports \<open>IPFS_NO_NODE\<close> and a new start gets a fresh
  node with its own live context and an empty signal table.
\<close>

theorem free_ends_all_calls:
  assumes "proc_wf s" and "g_node s = Some n" and "go_asio_ipfs_free lib s = (code, t)"
  shows "code = IPFS_SUCCESS \<and> g_node t = None \<and> proc_wf t \<and> cbs t = cbs s \<and> cmem t = cmem s \<and>
    ctx_done (ctxs t) (ctx (nodes s ! n)) \<and>
    (\<forall>k c. cancel_signals (nodes s ! n) k = Some c \<longrightarrow> ctx_done (ctxs t) c) \<and>
    (\<forall>x \<in> set (nodes s). ctx x \<noteq> ctx (nodes s ! n) \<longrightarrow>
       ctx_done (ctxs t) (ctx x) = ctx_done (ctxs s) (ctx x) \<and>
       (\<forall>k c. cancel_signals x k = Some c \<longrightarrow> ctx_done (ctxs t) c = ctx_done (ctxs s) c)) \<and>
    go_asio_ipfs_free lib t = (IPFS_NO_NODE, t) \<and>
    (case allocate_node scb arg t of (e, u) \<Rightarrow>
       e = IPFS_SUCCESS \<and> g_node u = Some (length (nodes t)) \<and>
       \<not> ctx_done (ctxs u) (ctx (nodes u ! length (nodes t))) \<and>
       cancel_signals (nodes u ! length (nodes t)) = Map.empty)"
proof -
  have t: "t = snd (go_asio_ipfs_free lib s)" and code: "code = IPFS_SUCCESS"
    using assms(3) free_eq(1) [OF assms(2), of lib] by simp_all
  note f = free_eq [OF assms(2), of lib, folded t]
  let ?r = "ctx (nodes s ! n)"
  have n: "n < length (nodes s)" using assms by (simp add: proc_wf_def)
  have wf: "ctx_wf (ctxs s)" and nwf: "node_wf (ctxs s) (nodes s ! n)"
    using assms(1) n by (simp_all add: proc_wf_def)
  have cs: "ctxs t = cancel_ctx ?r (ctxs s)" using f(3) nwf by (simp add: node_wf_def)
  have sig: "ctx_done (ctxs t) c" if "cancel_signals (nodes s ! n) k = Some c" for k c
    using ctxp.kill_root_reaches [OF wf, of ?r c] nwf that unfolding cs by (auto simp: node_wf_def)
  have other: "ctx_done (ctxs t) (ctx x) = ctx_done (ctxs s) (ctx x) \<and>
       (\<forall>k c. cancel_signals x k = Some c \<longrightarrow> ctx_done (ctxs t) c = ctx_done (ctxs s) c)"
    if "x \<in> set (nodes s)" "ctx x \<noteq> ?r" for x
    using cancel_spares_other_node [OF wf nwf _ that(2)] assms(1) that(1)
    unfolding cs by (simp add: proc_wf_def)
  have "ctx_done (ctxs t) ?r" unfolding cs using ctxp.kill_self nwf by (auto simp: node_wf_def)
  moreover have "proc_wf t" using proc_wf_free [OF assms(1)] t by simp
  moreover have "go_asio_ipfs_free lib t = (IPFS_NO_NODE, t)" using f(2) by (simp add: go_asio_ipfs_free_def)
  moreover have "case allocate_node scb arg t of (e, u) \<Rightarrow>
       e = IPFS_SUCCESS \<and> g_node u = Some (length (nodes t)) \<and>
       \<not> ctx_done (ctxs u) (ctx (nodes u ! length (nodes t))) \<and>
       cancel_signals (nodes u ! length (nodes t)) = Map.empty"
    by (subst allocate_node_new(1) [OF f(2)]) (simp add: allocate_node_new(2-5) [OF f(2)])
  ultimately show ?thesis using code f(2,5,6) sig other by (intro conjI) simp_all
qed

text \<open>A process with a node and one call registered under signal 0.\<close>

definition demo_called :: "Config option proc" where
  "demo_called = snd (withCancel 0 0 (snd (allocate_node (Some 1) None (init_proc (demo_os None)))))"

lemma demo_called_wf: "proc_wf demo_called" "g_node demo_called = Some 0"
  "cancel_signals (nodes demo_called ! 0) 0 = Some 1"
proof -
  let ?s = "snd (allocate_node (Some 1) None (init_proc (demo_os None))) :: Config option proc"
  have "proc_wf ?s" by (intro proc_wf_allocate_node proc_wf_init_proc)
  moreover have "length (nodes ?s) = 1" "g_node ?s = Some 0" "length (ctxs ?s) = 1"
    by (simp_all add: allocate_node_def init_proc_def case_prod_beta Let_def)
  ultimately show "proc_wf demo_called" "g_node demo_called = Some 0"
    "cancel_signals (nodes demo_called ! 0) 0 = Some 1"
    by (simp_all add: demo_called_def proc_wf_withCancel nodes_withCancel)
qed

theorem free_ends_all_calls_witness:
  "ctx_done (ctxs (snd (go_asio_ipfs_free demo_node_lib demo_called))) 1"
  using free_ends_all_calls [OF demo_called_wf(1,2) prod.collapse [symmetric]] demo_called_wf(3)
  by blast

section \<open>The identity of the node\<close>

text \<open>Up to the creation of the core node, no stage of a start sets \<open>n.node\<close>.\<close>

definition late_codes :: "ipfs_code set" where
  "late_codes = {IPFS_PLUGINS_FAILED, IPFS_GC_FAILED, IPFS_API_FAILED, IPFS_GATEWAY_FAILED,
     IPFS_API_ACCESS_FAILED}"

definition keeps_core :: "nodeptr \<Rightarrow> 'w proc \<Rightarrow> ((ipfs_code + 'a) \<times> 'w proc) outcome \<Rightarrow> bool" where
  "keeps_core n s m \<longleftrightarrow> (\<forall>r t. m = Ret (r, t) \<longrightarrow>
     node (nodes t ! n) = node (nodes s ! n) \<and> length (nodes t) = length (nodes s))"

lemma keeps_core_then:
  assumes "keeps_core n s m" and "\<And>a t. length (nodes t) = length (nodes s) \<Longrightarrow> keeps_core n t (f a t)"
  shows "keeps_core n s (then_stage m f)"
proof (cases m)
  case (Ret x)
  obtain r t where x: "x = (r, t)" by force
  show ?thesis
  proof (cases r)
    case (Inl code)
    with Ret x assms(1) show ?thesis by (simp add: keeps_core_def then_stage_def)
  next
    case (Inr a)
    from Ret x assms(1) have t: "node (nodes t ! n) = node (nodes s ! n)"
      "length (nodes t) = length (nodes s)" by (simp_all add: keeps_core_def)
    from assms(2) [OF t(2), of a] t Inr Ret x show ?thesis
      by (simp add: keeps_core_def then_stage_def)
  qed
qed (simp add: keeps_core_def then_stage_def)

lemma loadPlugins_nodes: "loadPlugins lib p s = (r, t) \<Longrightarrow> nodes t = nodes s"
  by (auto simp: loadPlugins_def split: prod.splits sum.splits option.splits if_splits)

lemma prepare_stages_keep_core:
  "keeps_core n s (st_mprome lib s)" "keeps_core n s (st_init lib acfg c s)"
  "keeps_core n s (st_open lib acfg c s)"
  by (auto simp: keeps_core_def st_mprome_def st_init_def st_open_def
      split: sum.splits prod.splits option.splits if_splits)

lemma st_env_keeps_core: "n < length (nodes s) \<Longrightarrow> keeps_core n s (st_env lib n root s)"
  by (auto simp: keeps_core_def st_env_def buildEnv_def split: sum.splits prod.splits
      dest!: loadPlugins_nodes)

lemma st_config_keeps_core: "n < length (nodes s) \<Longrightarrow> keeps_core n s (st_config lib n root c repo s)"
  by (auto simp: keeps_core_def st_config_def split: sum.splits)

lemma start_prepare_keeps_core:
  assumes "n < length (nodes s)"
  shows "keeps_core n s (start_prepare lib acfg n root s)"
  unfolding start_prepare_def using assms
  by (intro keeps_core_then prepare_stages_keep_core st_env_keeps_core st_config_keeps_core)
     (simp_all add: keeps_core_def)

lemma late_stage_codes:
  "codes_in late_codes (st_plugins lib n h s)" "codes_in late_codes (start_services lib acfg n h s)"
proof -
  show "codes_in late_codes (st_plugins lib n h s)"
    by (auto simp: codes_in_def late_codes_def st_plugins_def Let_def split: option.splits prod.splits)
  show "codes_in late_codes (start_services lib acfg n h s)"
    unfolding start_services_def
    by (intro codes_in_then)
       (auto simp: codes_in_def late_codes_def st_gc_def st_http_def st_metrics_def st_api_def
         st_monitor_def Let_def split: outcome.splits sum.splits prod.splits if_splits)
qed

lemma early_failure_no_core:
  assumes "start_stages lib j n root s = Ret (Inl code, t)" and "code \<notin> insert IPFS_START_NODE_FAILED late_codes"
    and "n < length (nodes s)" and "node (nodes s ! n) = None"
  shows "node (nodes t ! n) = None"
proof -
  consider (parse) "t = s"
    | (prepare) acfg where "start_prepare lib acfg n root s = Ret (Inl code, t)"
    | (core) acfg repo cfg s1 where "start_prepare lib acfg n root s = Ret (Inr (repo, cfg), s1)"
        "st_core lib n repo cfg s1 = Ret (Inl code, t)"
    | (late) acfg h s2 where "then_stage (st_plugins lib n h s2)
        (\<lambda>_ s. start_services lib acfg n h s) = Ret (Inl code, t)"
    using assms(1) unfolding start_stages_def st_parse_def
    by (cases "json_Unmarshal j")
       (auto simp: then_stage_def split: outcome.splits sum.splits option.splits prod.splits)
  then show ?thesis
  proof cases
    case prepare
    with start_prepare_keeps_core [OF assms(3), of lib acfg root] assms(4) show ?thesis
      by (simp add: keeps_core_def)
  next
    case core
    with assms(2) show ?thesis by (auto simp: st_core_def split: outcome.splits sum.splits prod.splits)
  next
    case late
    have "codes_in late_codes (then_stage (st_plugins lib n h s2) (\<lambda>_ s. start_services lib acfg n h s))"
      by (intro codes_in_then late_stage_codes)
    with late assms(2) show ?thesis by (simp add: codes_in_def)
  qed (use assms(4) in simp)
qed

text \<open>
  Asking for the identity allocates one C string, which the caller can release; it holds the
  node's identity, or nothing when there is no node. With a working key encoder the call panics
  exactly when the current node has no core node yet.
\<close>

lemma node_id_allocates_or_panics:
  assumes "keyencode_KeyEncoderFromString lib ''b58mh'' = Inr ke" and "proc_wf s"
  shows "(is_panic (go_asio_ipfs_node_id lib s) \<longleftrightarrow>
      (\<exists>n. g_node s = Some n \<and> node (nodes s ! n) = None)) \<and>
    (\<forall>a t. go_asio_ipfs_node_id lib s = Ret (a, t) \<longrightarrow>
      cmem s a = None \<and> C_free (Some a) t = Ret (s\<lparr>cbrk := Suc (cbrk s)\<rparr>) \<and>
      cmem t a = Some ((case g_node s of None \<Rightarrow> []
         | Some n \<Rightarrow> ke_FormatID lib ke (node_Identity lib (the (node (nodes s ! n))))) @ [CHR 0x00]))"
proof -
  have mem: "\<forall>a \<in> dom (cmem s). a < cbrk s" using assms(2) by (simp add: proc_wf_def)
  then have new: "cmem s (cbrk s) = None" by (metis domIff less_irrefl)
  have "cmem s a = None \<and> C_free (Some a) t = Ret (s\<lparr>cbrk := Suc (cbrk s)\<rparr>) \<and> cmem t a = Some (x @ [CHR 0x00])"
    if "CString x s = (a, t)" for x a t
    using that CBytes_free [OF mem, of "x @ [CHR 0x00]"] new by (auto simp: CString_def CBytes_def)
  with assms(1) show ?thesis
    by (auto simp: go_asio_ipfs_node_id_def split: option.splits)
qed

lemma demo_encoder: "keyencode_KeyEncoderFromString demo_node_lib ''b58mh'' = Inr 3"
  by code_simp

text \<open>
  After a start that failed before the creation of the core node, asking for the identity
  of the node panics instead of returning an empty string.
\<close>

theorem node_id_panics_after_failed_start:
  assumes "keyencode_KeyEncoderFromString lib ''b58mh'' = Inr ke" and "g_node s = None"
    and "go_asio_ipfs_start_blocking lib c_cfg c_repo scb arg s = Ret (code, t)"
    and "code \<notin> {IPFS_SUCCESS, IPFS_START_NODE_FAILED} \<union> late_codes"
  shows "is_panic (go_asio_ipfs_node_id lib t)"
proof -
  let ?n = "length (nodes s)" and ?s0 = "snd (allocate_node scb arg s)"
  note al = allocate_node_new [OF assms(2), where scb = scb and arg = arg]
  have start: "start_node lib (c_str c_cfg) ?n (c_str c_repo) ?s0 = Ret (code, t)"
    using assms by (simp add: start_blocking_new)
  then have "start_stages lib (c_str c_cfg) ?n (c_str c_repo) ?s0 = Ret (Inl code, t)"
    using assms(4) unfolding start_node_def by (auto split: outcome.splits sum.splits prod.splits)
  then have "node (nodes t ! ?n) = None"
    by (rule early_failure_no_core) (use assms(4) al(3,4) in simp_all)
  moreover have "g_node t = Some ?n"
    using start_node_frame [OF start] al(2) by (simp add: start_frame_def)
  ultimately show ?thesis using assms(1) by (simp add: go_asio_ipfs_node_id_def)
qed

theorem node_id_panics_after_failed_start_witness:
  "\<exists>t. demo_start ''?'' demo_init = Ret (IPFS_PARSE_CONFIG_FAIL, t) \<and>
     is_panic (go_asio_ipfs_node_id demo_node_lib t)"
proof -
  have r: "demo_start ''?'' demo_init = Ret (IPFS_PARSE_CONFIG_FAIL, ret_state (demo_start ''?'' demo_init))"
    by (rule ret_code_state [OF demo_start_fails])
  have "g_node demo_init = None" by (simp add: demo_init_def init_proc_def)
  from node_id_panics_after_failed_start [OF demo_encoder this r [unfolded demo_start_def]] r
  show ?thesis by (auto simp: demo_start_def late_codes_def)
qed

section \<open>Plugins\<close>

text \<open>
  Plugins are injected at most once in the life of the process, however often a node is started.
  Loading them successfully records the injection; from then on loading does not depend on what
  injecting would do, and the loader is put into the injected state, 4, by hand.
\<close>

theorem plugins_injected_at_most_once:
  assumes "loadPlugins lib p s = (Inr pl, t)"
  shows "g_plugins_injected t \<and>
    (\<forall>u q f. g_plugins_injected u \<longrightarrow>
       loadPlugins (lib\<lparr>Plugins_Inject := f\<rparr>) q u = loadPlugins lib q u \<and>
       (\<forall>pl' u'. loadPlugins lib q u = (Inr pl', u') \<longrightarrow> loader_state pl' = 4 \<and> g_plugins_injected u'))"
proof (intro conjI allI impI)
  show "g_plugins_injected t" by (rule loadPlugins_post(1) [OF assms])
next
  fix u :: "'a proc" and q f
  assume "g_plugins_injected u"
  then show "loadPlugins (lib\<lparr>Plugins_Inject := f\<rparr>) q u = loadPlugins lib q u"
    by (auto simp: loadPlugins_def split: prod.split sum.split option.split)
next
  fix u u' :: "'a proc" and q pl'
  assume "g_plugins_injected u" and "loadPlugins lib q u = (Inr pl', u')"
  then show "loader_state pl' = 4" "g_plugins_injected u'" by (simp_all add: loadPlugins_post)
qed

theorem plugins_injected_at_most_once_witness:
  "\<exists>pl t. loadPlugins demo_node_lib ''/home/r'' demo_init = (Inr pl, t) \<and> g_plugins_injected t"
proof -
  have "(case loadPlugins demo_node_lib ''/home/r'' demo_init of (Inr pl, t) \<Rightarrow> True | _ \<Rightarrow> False)"
    by code_simp
  then obtain pl t where r: "loadPlugins demo_node_lib ''/home/r'' demo_init = (Inr pl, t)"
    by (auto split: prod.splits sum.splits)
  from plugins_injected_at_most_once [OF r] r show ?thesis by blast
qed

end
