(* ===== verification/Bindings.thy ===== *)
theory Bindings
  imports Node_Props
begin

text \<open>
  \<open>ipfs_bindings.go\<close> and the garbage collection call of \<open>ipfs_gc.go\<close>: the callbacks into C and the
  asynchronous operations. An exported operation checks that there is a node, copies its arguments,
  registers its signal and starts a goroutine; the goroutine calls go-ipfs and makes the callback.
  The two halves are modelled apart, because other calls can run in between.
\<close>

section \<open>Parameters\<close>

datatype add_option = HashOnly bool | PinOpt bool
datatype files_Node = FilesFile handle | FilesDirectory | FilesOther

text \<open>
  What the operations call of go-ipfs. The flag says whether the context of the call is done; the
  root of a path that was added is given by its text.
\<close>

record 'w ops_lib = "'w node_lib" +
  path_ParseCidToPath :: "string \<Rightarrow> goerror + string"
  time_Now :: "'w os \<Rightarrow> int"
  PublishWithEOL :: "handle \<Rightarrow> bool \<Rightarrow> string \<Rightarrow> int \<Rightarrow> 'w os \<Rightarrow> goerror option \<times> 'w os"
  Unixfs_Add :: "handle \<Rightarrow> bool \<Rightarrow> bytes \<Rightarrow> add_option \<Rightarrow> 'w os \<Rightarrow> (goerror + string) \<times> 'w os"
  Unixfs_Get :: "handle \<Rightarrow> bool \<Rightarrow> string \<Rightarrow> 'w os \<Rightarrow> (goerror + files_Node) \<times> 'w os"
  ioutil_ReadAll :: "handle \<Rightarrow> 'w os \<Rightarrow> (goerror + bytes) \<times> 'w os"
  Pin_Add :: "handle \<Rightarrow> bool \<Rightarrow> string \<Rightarrow> 'w os \<Rightarrow> goerror option \<times> 'w os"
  Pin_Rm :: "handle \<Rightarrow> bool \<Rightarrow> string \<Rightarrow> 'w os \<Rightarrow> goerror option \<times> 'w os"
  GarbageCollectAsync :: "handle \<Rightarrow> bool \<Rightarrow> 'w os \<Rightarrow> handle \<times> 'w os"
  CollectResult :: "bool \<Rightarrow> handle \<Rightarrow> 'w os \<Rightarrow> goerror option \<times> 'w os"

section \<open>Callbacks\<close>

text \<open>
  \<open>makeStateCB\<close> takes the callback from the node once and returns the closure; the error text is
  copied to C memory for the time of the call.
\<close>

definition makeStateCB :: "Node \<Rightarrow> goerror option \<Rightarrow> u32 \<Rightarrow> 'w proc \<Rightarrow> 'w proc outcome" where
  "makeStateCB n =
     (let scb = state_cb n; state_arg = state_cb_arg n
      in (\<lambda>err peercnt s.
        case err of
          None \<Rightarrow> Ret (call_cb (StateCB scb state_arg None peercnt) s)
        | Some e \<Rightarrow>
            (let (cstr, s) = CString (etext e) s;
                 txt = c_str (the (cmem s cstr))
             in C_free (Some cstr) (call_cb (StateCB scb state_arg (Some txt) peercnt) s))))"

definition executeVoidCB :: "cptr \<Rightarrow> ipfs_code \<Rightarrow> cptr \<Rightarrow> 'w proc \<Rightarrow> 'w proc" where
  "executeVoidCB fn code fn_arg = call_cb (VoidCB fn code fn_arg)"

text \<open>A data callback with a nil buffer, and one with a buffer that is freed when it returns.\<close>

definition execute_data_nil :: "cptr \<Rightarrow> ipfs_code \<Rightarrow> cptr \<Rightarrow> 'w proc \<Rightarrow> 'w proc" where
  "execute_data_nil fn code fn_arg = call_cb (DataCB fn code None [] 0 fn_arg)"

definition execute_data_buf :: "cptr \<Rightarrow> bytes \<Rightarrow> cptr \<Rightarrow> 'w proc \<Rightarrow> 'w proc outcome" where
  "execute_data_buf fn b fn_arg s =
     (let (cdata, s) = CBytes b s
      in C_free (Some cdata)
           (call_cb (DataCB fn IPFS_SUCCESS (Some cdata) (the (cmem s cdata)) (length b) fn_arg) s))"

definition go_asio_memfree :: "cptr \<Rightarrow> 'w proc \<Rightarrow> 'w proc outcome" where
  "go_asio_memfree what s = C_free what s"

section \<open>The exported operations\<close>

text \<open>Resolving is not implemented: the body of the call is a comment.\<close>

definition go_asio_ipfs_resolve :: "u64 \<Rightarrow> bytes \<Rightarrow> cptr \<Rightarrow> cptr \<Rightarrow> 'w proc \<Rightarrow> 'w proc" where
  "go_asio_ipfs_resolve cancel_signal c_ipns_id fn fn_arg s = s"

definition go_asio_ipfs_publish ::
  "bytes \<Rightarrow> 64 word \<Rightarrow> u64 \<Rightarrow> cptr \<Rightarrow> cptr \<Rightarrow> 'w proc \<Rightarrow> 'w proc outcome" where
  "go_asio_ipfs_publish cid seconds cancel_signal fn fn_arg s =
     (case g_node s of
        None \<Rightarrow> Ret (go (GoVoidCB fn IPFS_NO_NODE fn_arg) s)
      | Some n \<Rightarrow>
          (let id = c_str cid; (c, s) = withCancel n cancel_signal s
           in Ret (go (GoPublish n c seconds id fn fn_arg) s)))"

text \<open>
  \<open>C.GoBytes(data, C.int(size))\<close>: the size is cut down to 32 bits and read as a signed number; a
  negative length is a panic of the runtime. \<open>buf\<close> is the memory that begins at \<open>data\<close>.
\<close>

definition C_int :: "u64 \<Rightarrow> int" where
  "C_int sz = sint (ucast sz :: 32 word)"

definition GoBytes :: "bytes \<Rightarrow> int \<Rightarrow> bytes outcome" where
  "GoBytes buf len =
     (if len < 0 then Panic ''gobytes: length out of range'' else Ret (take (nat len) buf))"

definition go_asio_ipfs_calc_cid ::
  "bytes \<Rightarrow> u64 \<Rightarrow> u64 \<Rightarrow> cptr \<Rightarrow> cptr \<Rightarrow> 'w proc \<Rightarrow> 'w proc outcome" where
  "go_asio_ipfs_calc_cid buf sz cancel_signal fn fn_arg s =
     (case g_node s of
        None \<Rightarrow> Ret (go (GoDataCB fn IPFS_NO_NODE fn_arg) s)
      | Some n \<Rightarrow>
          (case GoBytes buf (C_int sz) of
             Panic m \<Rightarrow> Panic m
           | Ret msg \<Rightarrow>
               (let (c, s) = withCancel n cancel_signal s in Ret (go (GoCalcCid n c msg fn fn_arg) s))))"

definition go_asio_ipfs_add ::
  "bytes \<Rightarrow> u64 \<Rightarrow> bool \<Rightarrow> u64 \<Rightarrow> cptr \<Rightarrow> cptr \<Rightarrow> 'w proc \<Rightarrow> 'w proc outcome" where
  "go_asio_ipfs_add buf sz pin cancel_signal fn fn_arg s =
     (case g_node s of
        None \<Rightarrow> Ret (go (GoDataCB fn IPFS_NO_NODE fn_arg) s)
      | Some n \<Rightarrow>
          (case GoBytes buf (C_int sz) of
             Panic m \<Rightarrow> Panic m
           | Ret msg \<Rightarrow>
               (let (c, s) = withCancel n cancel_signal s in Ret (go (GoAdd n c msg pin fn fn_arg) s))))"

definition go_asio_ipfs_cat :: "bytes \<Rightarrow> u64 \<Rightarrow> cptr \<Rightarrow> cptr \<Rightarrow> 'w proc \<Rightarrow> 'w proc outcome" where
  "go_asio_ipfs_cat c_cid cancel_signal fn fn_arg s =
     (case g_node s of
        None \<Rightarrow> Ret (go (GoDataCB fn IPFS_NO_NODE fn_arg) s)
      | Some n \<Rightarrow>
          (let cid = c_str c_cid; (c, s) = withCancel n cancel_signal s
           in Ret (go (GoCat n c cid fn fn_arg) s)))"

definition go_asio_ipfs_pin :: "bytes \<Rightarrow> u64 \<Rightarrow> cptr \<Rightarrow> cptr \<Rightarrow> 'w proc \<Rightarrow> 'w proc outcome" where
  "go_asio_ipfs_pin c_cid cancel_signal fn fn_arg s =
     (case g_node s of
        None \<Rightarrow> Ret (go (GoVoidCB fn IPFS_NO_NODE fn_arg) s)
      | Some n \<Rightarrow>
          (let cid = c_str c_cid; (c, s) = withCancel n cancel_signal s
           in Ret (go (GoPin n c cid fn fn_arg) s)))"

definition go_asio_ipfs_unpin :: "bytes \<Rightarrow> u64 \<Rightarrow> cptr \<Rightarrow> cptr \<Rightarrow> 'w proc \<Rightarrow> 'w proc outcome" where
  "go_asio_ipfs_unpin c_cid cancel_signal fn fn_arg s =
     (case g_node s of
        None \<Rightarrow> Ret (go (GoVoidCB fn IPFS_NO_NODE fn_arg) s)
      | Some n \<Rightarrow>
          (let cid = c_str c_cid; (c, s) = withCancel n cancel_signal s
           in Ret (go (GoUnpin n c cid fn fn_arg) s)))"

definition go_asio_ipfs_gc :: "u64 \<Rightarrow> cptr \<Rightarrow> cptr \<Rightarrow> 'w proc \<Rightarrow> 'w proc outcome" where
  "go_asio_ipfs_gc cancel_signal fn fn_arg s =
     (case g_node s of
        None \<Rightarrow> Ret (go (GoVoidCB fn IPFS_NO_NODE fn_arg) s)
      | Some n \<Rightarrow>
          (let (c, s) = withCancel n cancel_signal s in Ret (go (GoGC n c fn fn_arg) s)))"

section \<open>The goroutines of the operations\<close>

text \<open>
  \<open>time.Duration(seconds) * time.Second\<close> is a product of 64-bit numbers, and wraps around.
\<close>

definition duration_of :: "64 word \<Rightarrow> int" where
  "duration_of seconds = sint (seconds * 1000000000)"

definition publish ::
  "('w, 'z) ops_lib_scheme \<Rightarrow> bool \<Rightarrow> int \<Rightarrow> handle option \<Rightarrow> string \<Rightarrow> 'w os
   \<Rightarrow> (goerror option \<times> 'w os) outcome" where
  "publish lib cancelled duration n cid sys =
     (case path_ParseCidToPath lib cid of
        Inl err \<Rightarrow> Ret (Some err, sys)
      | Inr p \<Rightarrow>
          (case n of
             None \<Rightarrow> Panic ''nil pointer dereference''
           | Some h \<Rightarrow> Ret (PublishWithEOL lib h cancelled p (time_Now lib sys + duration) sys)))"

text \<open>The collector gives a channel, whose results are read to its end.\<close>

definition collect_garbage ::
  "('w, 'z) ops_lib_scheme \<Rightarrow> handle \<Rightarrow> bool \<Rightarrow> 'w os \<Rightarrow> goerror option \<times> 'w os" where
  "collect_garbage lib h cancelled sys =
     (case GarbageCollectAsync lib h cancelled sys of
        (gcOutChan, sys) \<Rightarrow> CollectResult lib cancelled gcOutChan sys)"

text \<open>The common end of a goroutine that reports a code, success when there was no error.\<close>

definition report_code ::
  "ipfs_code \<Rightarrow> cptr \<Rightarrow> cptr \<Rightarrow> goerror option \<times> 'w os \<Rightarrow> 'w proc \<Rightarrow> 'w proc" where
  "report_code failed fn fn_arg r s =
     executeVoidCB fn (if fst r \<noteq> None then failed else IPFS_SUCCESS) fn_arg (s\<lparr>os := snd r\<rparr>)"

definition report_added ::
  "ipfs_code \<Rightarrow> cptr \<Rightarrow> cptr \<Rightarrow> (goerror + string) \<times> 'w os \<Rightarrow> 'w proc \<Rightarrow> 'w proc outcome" where
  "report_added failed fn fn_arg r s =
     (case r of
        (Inl err, sys) \<Rightarrow> Ret (execute_data_nil fn failed fn_arg (s\<lparr>os := sys\<rparr>))
      | (Inr cidstr, sys) \<Rightarrow> execute_data_buf fn cidstr fn_arg (s\<lparr>os := sys\<rparr>))"

definition run_cat ::
  "('w, 'z) ops_lib_scheme \<Rightarrow> handle \<Rightarrow> bool \<Rightarrow> string \<Rightarrow> cptr \<Rightarrow> cptr \<Rightarrow> 'w proc \<Rightarrow> 'w proc outcome" where
  "run_cat lib a cancelled cid fn fn_arg s =
     (case Unixfs_Get lib a cancelled cid (os s) of
        (Inl err, sys) \<Rightarrow> Ret (execute_data_nil fn IPFS_CAT_FAILED fn_arg (s\<lparr>os := sys\<rparr>))
      | (Inr (FilesFile file), sys) \<Rightarrow>
          (case ioutil_ReadAll lib file sys of
             (Inl err, sys) \<Rightarrow> Ret (execute_data_nil fn IPFS_READ_FAILED fn_arg (s\<lparr>os := sys\<rparr>))
           | (Inr b, sys) \<Rightarrow> execute_data_buf fn b fn_arg (s\<lparr>os := sys\<rparr>))
      | (Inr _, sys) \<Rightarrow> Ret (execute_data_nil fn IPFS_CAT_FAILED fn_arg (s\<lparr>os := sys\<rparr>)))"

text \<open>A method call on the API or a field of the core node, when it is still nil, is a panic.\<close>

definition with_handle :: "handle option \<Rightarrow> (handle \<Rightarrow> 'a outcome) \<Rightarrow> 'a outcome" where
  "with_handle h f = (case h of None \<Rightarrow> Panic ''nil pointer dereference'' | Some a \<Rightarrow> f a)"

text \<open>
  The run of a goroutine from its start to its end. The long-running goroutines of the services and
  the monitor are not of this kind.
\<close>

fun run_go :: "('w, 'z) ops_lib_scheme \<Rightarrow> goroutine \<Rightarrow> 'w proc \<Rightarrow> 'w proc outcome" where
  "run_go lib (GoVoidCB fn code fn_arg) s = Ret (executeVoidCB fn code fn_arg s)"
| "run_go lib (GoDataCB fn code fn_arg) s = Ret (execute_data_nil fn code fn_arg s)"
| "run_go lib (GoPublish n c seconds cid fn fn_arg) s =
     bind_outcome
       (publish lib (ctx_done (ctxs s) c) (duration_of seconds) (node (nodes s ! n)) cid (os s))
       (\<lambda>r. Ret (report_code IPFS_PUBLISH_FAILED fn fn_arg r s))"
| "run_go lib (GoCalcCid n c msg fn fn_arg) s =
     with_handle (api (nodes s ! n)) (\<lambda>a.
       report_added IPFS_CALC_CID_FAILED fn fn_arg
         (Unixfs_Add lib a (ctx_done (ctxs s) c) msg (HashOnly True) (os s)) s)"
| "run_go lib (GoAdd n c msg pin fn fn_arg) s =
     with_handle (api (nodes s ! n)) (\<lambda>a.
       report_added IPFS_ADD_FAILED fn fn_arg
         (Unixfs_Add lib a (ctx_done (ctxs s) c) msg (PinOpt pin) (os s)) s)"
| "run_go lib (GoCat n c cid fn fn_arg) s =
     with_handle (api (nodes s ! n)) (\<lambda>a. run_cat lib a (ctx_done (ctxs s) c) cid fn fn_arg s)"
| "run_go lib (GoPin n c cid fn fn_arg) s =
     with_handle (api (nodes s ! n)) (\<lambda>a.
       Ret (report_code IPFS_PIN_FAILED fn fn_arg (Pin_Add lib a (ctx_done (ctxs s) c) cid (os s)) s))"
| "run_go lib (GoUnpin n c cid fn fn_arg) s =
     with_handle (api (nodes s ! n)) (\<lambda>a.
       Ret (report_code IPFS_UNPIN_FAILED fn fn_arg (Pin_Rm lib a (ctx_done (ctxs s) c) cid (os s)) s))"
| "run_go lib (GoGC n c fn fn_arg) s =
     with_handle (node (nodes s ! n)) (\<lambda>h.
       Ret (report_code IPFS_GC_FAILED fn fn_arg (collect_garbage lib h (ctx_done (ctxs s) c) (os s)) s))"
| "run_go lib (GoStart cfg n repoRoot fn fn_arg) s =
     run_start lib cfg n repoRoot fn fn_arg s"
| "run_go lib _ s = Ret s"

section \<open>The contract of an asynchronous operation\<close>

text \<open>
  Which callback and argument a goroutine will report to, and which one a callback was made to.
\<close>

fun token :: "goroutine \<Rightarrow> (cptr \<times> cptr) option" where
  "token (GoVoidCB fn _ a) = Some (fn, a)"
| "token (GoDataCB fn _ a) = Some (fn, a)"
| "token (GoPublish _ _ _ _ fn a) = Some (fn, a)"
| "token (GoCalcCid _ _ _ fn a) = Some (fn, a)"
| "token (GoAdd _ _ _ _ fn a) = Some (fn, a)"
| "token (GoCat _ _ _ fn a) = Some (fn, a)"
| "token (GoPin _ _ _ fn a) = Some (fn, a)"
| "token (GoUnpin _ _ _ fn a) = Some (fn, a)"
| "token (GoGC _ _ fn a) = Some (fn, a)"
| "token (GoStart _ _ _ fn a) = Some (fn, a)"
| "token _ = None"

fun cb_token :: "callback \<Rightarrow> (cptr \<times> cptr) option" where
  "cb_token (VoidCB fn _ a) = Some (fn, a)"
| "cb_token (DataCB fn _ _ _ _ a) = Some (fn, a)"
| "cb_token (StateCB _ _ _ _) = None"
| "cb_token (LogCB _ _) = None"

text \<open>
  The contract: without a node the call starts a goroutine that reports so; with one, and with
  arguments it accepts, it registers its signal and starts its job under the new context. Both
  goroutines carry the caller's callback and argument.
\<close>

locale async_call =
  fixes call :: "u64 \<Rightarrow> cptr \<Rightarrow> cptr \<Rightarrow> 'w proc \<Rightarrow> 'w proc outcome"
    and reject :: "cptr \<Rightarrow> cptr \<Rightarrow> goroutine"
    and job :: "nodeptr \<Rightarrow> nat \<Rightarrow> cptr \<Rightarrow> cptr \<Rightarrow> goroutine"
    and accepts :: bool
  assumes no_node: "g_node s = None \<Longrightarrow> call k fn arg s = Ret (go (reject fn arg) s)"
    and with_node: "g_node s = Some n \<Longrightarrow> accepts \<Longrightarrow>
      call k fn arg s = Ret (go (job n (length (ctxs s)) fn arg) (snd (withCancel n k s)))"
    and refused: "g_node s = Some n \<Longrightarrow> \<not> accepts \<Longrightarrow> is_panic (call k fn arg s)"
    and reject_token: "token (reject fn arg) = Some (fn, arg)"
    and job_token: "token (job n c fn arg) = Some (fn, arg)"
begin

lemma starts_one_goroutine:
  assumes "accepts"
  shows "\<exists>t g. call k fn arg s = Ret t \<and> gos t = gos s @ [g] \<and> token g = Some (fn, arg) \<and>
    cbs t = cbs s \<and> cmem t = cmem s \<and> g_node t = g_node s"
proof (cases "g_node s")
  case None
  then show ?thesis by (simp add: no_node reject_token)
next
  case (Some n)
  then show ?thesis by (simp add: with_node [OF Some assms] job_token)
qed

lemma keeps_wf: "proc_wf s \<Longrightarrow> call k fn arg s = Ret t \<Longrightarrow> proc_wf t"
proof (cases "g_node s")
  case None
  then show "proc_wf s \<Longrightarrow> call k fn arg s = Ret t \<Longrightarrow> proc_wf t"
    by (auto simp: no_node proc_wf_def)
next
  case (Some n)
  assume wf: "proc_wf s" and c: "call k fn arg s = Ret t"
  have "accepts" by (rule ccontr) (use refused [OF Some, of k fn arg] c in simp)
  have "n < length (nodes s)" using wf Some by (simp add: proc_wf_def)
  from proc_wf_withCancel [OF wf this, of k] with_node [OF Some \<open>accepts\<close>] c show "proc_wf t"
    by (auto simp: proc_wf_def)
qed

text \<open>A call can be cancelled as soon as it has returned, and that cancels no other call.\<close>

lemma cancellable:
  assumes "live_proc s" and "accepts"
  shows "\<exists>t. call k fn arg s = Ret t \<and>
    ctx_done (ctxs (go_asio_ipfs_cancel k t)) (length (ctxs s)) \<and>
    (\<forall>j c. j \<noteq> k \<longrightarrow> cancel_signals (cur s) j = Some c \<longrightarrow>
       ctx_done (ctxs (go_asio_ipfs_cancel k t)) c = ctx_done (ctxs s) c)"
proof -
  obtain n where n: "g_node s = Some n" using assms(1) by (auto simp: live_proc_def)
  have r: "cur_register k s = withCancel n k s" by (simp add: cur_register_def n)
  have same: "ctxs (go_asio_ipfs_cancel k (go g u)) = ctxs (go_asio_ipfs_cancel k u)" for g and u :: "'w proc"
    by (simp add: go_asio_ipfs_cancel_def split: option.split)
  show ?thesis
    using reg.registered_then_fired [OF assms(1), of k] reg.fire_spares_others [OF assms(1), of _ _ k]
    unfolding with_node [OF n assms(2)] by (auto simp: same r)
qed

end

section \<open>The operations meet the contract\<close>

lemma uint_ucast_32: "uint (ucast sz :: 32 word) = uint (sz :: u64) mod 2 ^ 32"
  by (simp add: unsigned_ucast_eq take_bit_eq_mod)

lemma sint_32: "sint (w :: 32 word) = (if uint w < 2 ^ 31 then uint w else uint w - 2 ^ 32)"
proof -
  have ub: "uint w < 2 ^ 32" using uint_bounded [of w] by simp
  moreover have "sint w = signed_take_bit 31 (uint w)" by (simp add: sint_uint)
  moreover have "signed_take_bit 31 (uint w) = (uint w + 2 ^ 31) mod 2 ^ 32 - 2 ^ 31"
    by (simp add: signed_take_bit_eq_take_bit_shift take_bit_eq_mod)
  moreover have "(uint w + 2 ^ 31) mod 2 ^ 32 = uint w - 2 ^ 31" if "2 ^ 31 \<le> uint w"
  proof -
    have "(uint w + 2 ^ 31) mod 2 ^ 32 = (uint w - 2 ^ 31 + 2 ^ 32) mod 2 ^ 32"
      by (simp add: add.commute)
    also have "\<dots> = (uint w - 2 ^ 31) mod 2 ^ 32" by (rule mod_add_self2)
    finally show ?thesis using that ub by simp
  qed
  ultimately show ?thesis using uint_ge_0 [of w] by auto
qed

text \<open>The length that \<open>C.int(size)\<close> gives.\<close>

lemma C_int_eq:
  "C_int sz = (if uint sz mod 2 ^ 32 < 2 ^ 31 then uint sz mod 2 ^ 32 else uint sz mod 2 ^ 32 - 2 ^ 32)"
  by (simp only: C_int_def sint_32 uint_ucast_32)

definition fits_int :: "u64 \<Rightarrow> bool" where
  "fits_int sz \<longleftrightarrow> uint sz mod 2 ^ 32 < 2 ^ 31"

lemma GoBytes_C_int:
  "GoBytes buf (C_int sz) =
     (if fits_int sz then Ret (take (unat sz mod 2 ^ 32) buf) else Panic ''gobytes: length out of range'')"
proof (cases "fits_int sz")
  case True
  then have "C_int sz = uint sz mod 2 ^ 32" by (simp add: C_int_eq fits_int_def)
  moreover have "uint sz mod 2 ^ 32 = int (unat sz mod 2 ^ 32)" by (simp add: zmod_int)
  ultimately show ?thesis using True by (simp add: GoBytes_def del: of_nat_mod)
next
  case False
  have "uint sz mod 2 ^ 32 < 2 ^ 32" by (rule pos_mod_bound) simp
  with False have "C_int sz < 0" by (simp add: C_int_eq fits_int_def)
  with False show ?thesis by (simp add: GoBytes_def)
qed

abbreviation void_reject :: "cptr \<Rightarrow> cptr \<Rightarrow> goroutine" where
  "void_reject fn arg \<equiv> GoVoidCB fn IPFS_NO_NODE arg"

abbreviation data_reject :: "cptr \<Rightarrow> cptr \<Rightarrow> goroutine" where
  "data_reject fn arg \<equiv> GoDataCB fn IPFS_NO_NODE arg"

interpretation publish: async_call "go_asio_ipfs_publish cid seconds" void_reject
  "\<lambda>n c. GoPublish n c seconds (c_str cid)" True for cid seconds
  by unfold_locales (simp_all add: go_asio_ipfs_publish_def case_prod_beta)

interpretation calc_cid: async_call "go_asio_ipfs_calc_cid buf sz" data_reject
  "\<lambda>n c. GoCalcCid n c (take (unat sz mod 2 ^ 32) buf)" "fits_int sz" for buf sz
  by unfold_locales (simp_all add: go_asio_ipfs_calc_cid_def GoBytes_C_int case_prod_beta)

interpretation add: async_call "go_asio_ipfs_add buf sz pin" data_reject
  "\<lambda>n c. GoAdd n c (take (unat sz mod 2 ^ 32) buf) pin" "fits_int sz" for buf sz pin
  by unfold_locales (simp_all add: go_asio_ipfs_add_def GoBytes_C_int case_prod_beta)

interpretation cat: async_call "go_asio_ipfs_cat cid" data_reject
  "\<lambda>n c. GoCat n c (c_str cid)" True for cid
  by unfold_locales (simp_all add: go_asio_ipfs_cat_def case_prod_beta)

interpretation pin: async_call "go_asio_ipfs_pin cid" void_reject
  "\<lambda>n c. GoPin n c (c_str cid)" True for cid
  by unfold_locales (simp_all add: go_asio_ipfs_pin_def case_prod_beta)

interpretation unpin: async_call "go_asio_ipfs_unpin cid" void_reject
  "\<lambda>n c. GoUnpin n c (c_str cid)" True for cid
  by unfold_locales (simp_all add: go_asio_ipfs_unpin_def case_prod_beta)

interpretation gc: async_call go_asio_ipfs_gc void_reject GoGC True
  by unfold_locales (simp_all add: go_asio_ipfs_gc_def case_prod_beta)

text \<open>The operations as one type, so that sequences of them can be spoken of.\<close>

datatype operation =
    OpPublish bytes "64 word"
  | OpCalcCid bytes u64
  | OpAdd bytes u64 bool
  | OpCat bytes
  | OpPin bytes
  | OpUnpin bytes
  | OpGC

fun invoke :: "operation \<Rightarrow> u64 \<Rightarrow> cptr \<Rightarrow> cptr \<Rightarrow> 'w proc \<Rightarrow> 'w proc outcome" where
  "invoke (OpPublish cid seconds) = go_asio_ipfs_publish cid seconds"
| "invoke (OpCalcCid buf sz) = go_asio_ipfs_calc_cid buf sz"
| "invoke (OpAdd buf sz p) = go_asio_ipfs_add buf sz p"
| "invoke (OpCat cid) = go_asio_ipfs_cat cid"
| "invoke (OpPin cid) = go_asio_ipfs_pin cid"
| "invoke (OpUnpin cid) = go_asio_ipfs_unpin cid"
| "invoke OpGC = go_asio_ipfs_gc"

fun op_fits :: "operation \<Rightarrow> bool" where
  "op_fits (OpCalcCid buf sz) = fits_int sz"
| "op_fits (OpAdd buf sz p) = fits_int sz"
| "op_fits _ = True"

fun op_reject :: "operation \<Rightarrow> cptr \<Rightarrow> cptr \<Rightarrow> goroutine" where
  "op_reject (OpCalcCid buf sz) = data_reject"
| "op_reject (OpAdd buf sz p) = data_reject"
| "op_reject (OpCat cid) = data_reject"
| "op_reject _ = void_reject"

fun op_job :: "operation \<Rightarrow> nodeptr \<Rightarrow> nat \<Rightarrow> cptr \<Rightarrow> cptr \<Rightarrow> goroutine" where
  "op_job (OpPublish cid seconds) n c = GoPublish n c seconds (c_str cid)"
| "op_job (OpCalcCid buf sz) n c = GoCalcCid n c (take (unat sz mod 2 ^ 32) buf)"
| "op_job (OpAdd buf sz p) n c = GoAdd n c (take (unat sz mod 2 ^ 32) buf) p"
| "op_job (OpCat cid) n c = GoCat n c (c_str cid)"
| "op_job (OpPin cid) n c = GoPin n c (c_str cid)"
| "op_job (OpUnpin cid) n c = GoUnpin n c (c_str cid)"
| "op_job OpGC n c = GoGC n c"

interpretation op: async_call "invoke p" "op_reject p" "op_job p" "op_fits p" for p
proof (unfold_locales, goal_cases)
  case (1 s k fn arg)
  then show ?case
    by (cases p) (simp_all add: publish.no_node calc_cid.no_node add.no_node cat.no_node
        pin.no_node unpin.no_node gc.no_node)
next
  case (2 s n k fn arg)
  then show ?case
    by (cases p) (simp_all add: publish.with_node calc_cid.with_node add.with_node cat.with_node
        pin.with_node unpin.with_node gc.with_node)
next
  case (3 s n k fn arg)
  then show ?case by (cases p) (simp_all add: calc_cid.refused add.refused)
next
  case (4 fn arg)
  show ?case by (cases p) simp_all
next
  case (5 n c fn arg)
  show ?case by (cases p) simp_all
qed

section \<open>Running the goroutines\<close>

text \<open>Making a callback with a buffer leaves C memory as it was.\<close>

lemma execute_data_buf_eq:
  assumes "\<forall>a \<in> dom (cmem s). a < cbrk s"
  shows "execute_data_buf fn b arg s =
    Ret (s\<lparr>cbrk := Suc (cbrk s),
           cbs := cbs s @ [DataCB fn IPFS_SUCCESS (Some (cbrk s)) b (length b) arg]\<rparr>)"
proof -
  have "cmem s (cbrk s) = None" using assms by (metis domIff less_irrefl)
  then have "(cmem s)(cbrk s := None) = cmem s" by (simp add: fun_upd_idem)
  then show ?thesis by (simp add: execute_data_buf_def CBytes_def C_free_def call_cb_def)
qed

text \<open>One callback, to the caller's function and argument, and the frame of it.\<close>

definition reported :: "(cptr \<times> cptr) \<Rightarrow> 'w proc \<Rightarrow> 'w proc \<Rightarrow> bool" where
  "reported tk s t \<longleftrightarrow> (\<exists>cb. cbs t = cbs s @ [cb] \<and> cb_token cb = Some tk) \<and>
     cmem t = cmem s \<and> cbrk s \<le> cbrk t \<and> ctxs t = ctxs s \<and> g_node t = g_node s \<and>
     nodes t = nodes s \<and> gos t = gos s"

lemma reported_simps:
  "reported (fn, arg) s (report_code failed fn arg r s)"
  "reported (fn, arg) s (executeVoidCB fn code arg s)"
  "reported (fn, arg) s (execute_data_nil fn code arg (s\<lparr>os := sys\<rparr>))"
  "reported (fn, arg) s (execute_data_nil fn code arg s)"
  by (simp_all add: reported_def report_code_def executeVoidCB_def execute_data_nil_def)

lemma reported_buf:
  assumes "\<forall>a \<in> dom (cmem s). a < cbrk s" and "execute_data_buf fn b arg (s\<lparr>os := sys\<rparr>) = Ret t"
  shows "reported (fn, arg) s t"
  using assms execute_data_buf_eq [of "s\<lparr>os := sys\<rparr>" fn b arg] by (auto simp: reported_def)

definition is_start :: "goroutine \<Rightarrow> bool" where
  "is_start g = (case g of GoStart _ _ _ _ _ \<Rightarrow> True | _ \<Rightarrow> False)"

lemma run_go_reported:
  assumes "\<forall>a \<in> dom (cmem s). a < cbrk s" and "token g = Some tk" and "run_go lib g s = Ret t"
    and "\<not> is_start g"
  shows "reported tk s t"
  using assms
  by (cases g)
     (auto simp: with_handle_def report_added_def run_cat_def reported_simps is_start_def
       intro: reported_buf split: option.splits sum.splits prod.splits files_Node.splits)

end
