(* ===== verification/Ops_Props.thy ===== *)
theory Ops_Props
  imports Bindings
begin

text \<open>
  The properties of the single operations: how a call can be cancelled, what happens without a
  node, which bytes and which lifetime reach go-ipfs, and what the callback is given.
\<close>

section \<open>A library for the examples\<close>

text \<open>One blob, kept in a file; its name is the only content identifier.\<close>

definition demo_ops_lib :: "Config option ops_lib" where
  "demo_ops_lib = node_lib.extend demo_node_lib (ops_lib.fields
     (\<lambda>cid. if cid = [] then Inl (Errorf ''empty path'') else Inr (''/ipfs/'' @ cid))
     (\<lambda>sys. 1000)
     (\<lambda>h cancelled p eol sys. (if cancelled then Some (Errorf ''context canceled'') else None, sys))
     (\<lambda>a cancelled msg opt sys.
        if cancelled then (Inl (Errorf ''context canceled''), sys)
        else (Inr ''Qm'', (if opt = HashOnly True then sys
                           else sys\<lparr>files := (files sys)(''/blob'' \<mapsto> File msg)\<rparr>)))
     (\<lambda>a cancelled cid sys.
        (if cid = ''Qm'' then Inr (FilesFile 0) else Inl (Errorf ''not found''), sys))
     (\<lambda>f sys. (case files sys ''/blob'' of Some (File b) \<Rightarrow> Inr b | _ \<Rightarrow> Inl (Errorf ''no blob''), sys))
     (\<lambda>a cancelled cid sys. (None, sys))
     (\<lambda>a cancelled cid sys. (None, sys))
     (\<lambda>h cancelled sys. (0, sys))
     (\<lambda>cancelled gcOutChan sys. (None, sys)))"

text \<open>A process with a node whose core and API exist.\<close>

definition demo_ready :: "Config option proc" where
  "demo_ready = upd_node 0 (\<lambda>x. x\<lparr>node := Some 5, api := Some 9\<rparr>)
     (snd (allocate_node (Some 1) (Some 2) (init_proc (demo_os None))))"

lemma demo_ready_facts:
  "g_node demo_ready = Some 0" "length (nodes demo_ready) = 1" "api (nodes demo_ready ! 0) = Some 9"
  "node (nodes demo_ready ! 0) = Some 5" "cancel_signals (nodes demo_ready ! 0) = Map.empty"
  "ctx (nodes demo_ready ! 0) = 0" "length (ctxs demo_ready) = 1" "\<not> ctx_done (ctxs demo_ready) 0"
  by (simp_all add: demo_ready_def allocate_node_def init_proc_def Let_def case_prod_beta ctx_done_def
      WithCancel_def)

lemma demo_ready_wf: "proc_wf demo_ready"
  unfolding demo_ready_def
  by (rule proc_wf_upd_signals)
     (simp_all add: proc_wf_allocate_node proc_wf_init_proc, simp add: allocate_node_def init_proc_def
       case_prod_beta Let_def)

lemma demo_ready_live: "live_proc demo_ready"
  by (simp add: live_proc_def demo_ready_wf demo_ready_facts)

section \<open>Properties\<close>

text \<open>
  C12: every operation that is called with a live node and arguments it accepts can be cancelled from
  the moment the call returns: firing its signal ends the context of its goroutine, and of no other
  registered call.
\<close>

theorem operation_is_cancellable:
  assumes "live_proc s" and "op_fits p"
  shows "\<exists>t. invoke p k fn arg s = Ret t \<and>
    gos t = gos s @ [op_job p (the (g_node s)) (length (ctxs s)) fn arg] \<and>
    ctx_done (ctxs (go_asio_ipfs_cancel k t)) (length (ctxs s)) \<and>
    (\<forall>j c. j \<noteq> k \<longrightarrow> cancel_signals (cur s) j = Some c \<longrightarrow>
       ctx_done (ctxs (go_asio_ipfs_cancel k t)) c = ctx_done (ctxs s) c)"
proof -
  obtain n where n: "g_node s = Some n" using assms(1) by (auto simp: live_proc_def)
  from op.cancellable [OF assms, of k fn arg] op.with_node [OF n assms(2), of k fn arg] n
  show ?thesis by auto
qed

theorem operation_is_cancellable_witness:
  "\<exists>t. invoke (OpCat ''Qm'') 0 (Some 3) (Some 4) demo_ready = Ret t \<and>
     ctx_done (ctxs (go_asio_ipfs_cancel 0 t)) 1"
  using operation_is_cancellable [OF demo_ready_live, of "OpCat ''Qm''" 0 "Some 3" "Some 4"]
    demo_ready_facts by auto

text \<open>
  C33: without a node no operation fails silently or panics: it starts one goroutine, and that one
  calls the caller back with \<open>IPFS_NO_NODE\<close>, and with no data.
\<close>

theorem operation_without_node_reports:
  assumes "g_node s = None"
  shows "\<exists>t g u. invoke p k fn arg s = Ret t \<and> gos t = gos s @ [g] \<and> cbs t = cbs s \<and>
    run_go lib g t = Ret u \<and>
    (cbs u = cbs s @ [VoidCB fn IPFS_NO_NODE arg] \<or>
     cbs u = cbs s @ [DataCB fn IPFS_NO_NODE None [] 0 arg])"
proof -
  have "\<exists>u. run_go lib (op_reject p fn arg) t = Ret u \<and>
      (cbs u = cbs t @ [VoidCB fn IPFS_NO_NODE arg] \<or>
       cbs u = cbs t @ [DataCB fn IPFS_NO_NODE None [] 0 arg])" for t
    by (cases p) (simp_all add: executeVoidCB_def execute_data_nil_def)
  from this [of "go (op_reject p fn arg) s"] op.no_node [OF assms, of p k fn arg] show ?thesis by auto
qed

theorem operation_without_node_reports_witness:
  "\<exists>t g u. invoke OpGC 0 (Some 3) None demo_init = Ret t \<and> run_go demo_ops_lib g t = Ret u \<and>
     length (cbs u) = 1"
proof -
  have "g_node demo_init = None" and c: "cbs demo_init = []" by (simp_all add: demo_init_def init_proc_def)
  from operation_without_node_reports [OF this(1), of OpGC 0 "Some 3" None demo_ops_lib]
  obtain t g u where "invoke OpGC 0 (Some 3) None demo_init = Ret t" "run_go demo_ops_lib g t = Ret u"
    "length (cbs u) = 1" by (auto simp: c)
  then show ?thesis by blast
qed

lemma fits_int_unat: "fits_int sz \<longleftrightarrow> unat sz mod 2 ^ 32 < 2 ^ 31"
proof -
  have "uint sz mod 2 ^ 32 = int (unat sz mod 2 ^ 32)" by (simp add: zmod_int)
  then show ?thesis unfolding fits_int_def by (simp del: of_nat_mod)
qed

text \<open>
  C35: the size of the data to add is cut down to a signed 32-bit number. Below 2 GiB all the bytes
  reach go-ipfs; in general their number is the size modulo \<open>2 ^ 32\<close>, and when that is not below
  \<open>2 ^ 31\<close> the process panics.
\<close>

theorem add_size_is_32_bit:
  assumes "g_node s = Some n"
  shows "(if unat sz mod 2 ^ 32 < 2 ^ 31
     then go_asio_ipfs_add buf sz pin k fn arg s = Ret (go (GoAdd n (length (ctxs s))
        (take (unat sz mod 2 ^ 32) buf) pin fn arg) (snd (withCancel n k s)))
     else is_panic (go_asio_ipfs_add buf sz pin k fn arg s)) \<and>
   (unat sz < 2 ^ 31 \<longrightarrow> take (unat sz mod 2 ^ 32) buf = take (unat sz) buf)"
proof -
  note fits_int_unat [of sz]
  with add.with_node [OF assms, of sz] add.refused [OF assms, of sz] show ?thesis by simp
qed

theorem add_size_is_32_bit_witness:
  "is_panic (go_asio_ipfs_add [] 0x80000000 True 0 None None demo_ready) \<and>
   (\<exists>t. go_asio_ipfs_add ''data'' 0x100000002 True 0 None None demo_ready = Ret t \<and>
      last (gos t) = GoAdd 0 1 ''da'' True None None)"
  using add_size_is_32_bit [OF demo_ready_facts(1), of "0x80000000" "[]" True 0 None None]
    add_size_is_32_bit [OF demo_ready_facts(1), of "0x100000002" "''data''" True 0 None None]
    demo_ready_facts by simp

lemma cat_run:
  assumes "proc_wf s" and "api (nodes s ! n) = Some a"
    and "Unixfs_Get lib a (ctx_done (ctxs s) c) cid (os s) = (r, sys)"
  shows "\<exists>t. run_go lib (GoCat n c cid fn arg) s = Ret t \<and> cmem t = cmem s \<and>
    (\<exists>cb. cbs t = cbs s @ [cb] \<and>
      cb = (case r of
        Inr (FilesFile f) \<Rightarrow>
          (case fst (ioutil_ReadAll lib f sys) of
             Inr b \<Rightarrow> DataCB fn IPFS_SUCCESS (Some (cbrk s)) b (length b) arg
           | Inl _ \<Rightarrow> DataCB fn IPFS_READ_FAILED None [] 0 arg)
      | _ \<Rightarrow> DataCB fn IPFS_CAT_FAILED None [] 0 arg))"
proof -
  have mem: "\<forall>x \<in> dom (cmem s). x < cbrk s" using assms(1) by (simp add: proc_wf_def)
  have buf: "execute_data_buf fn b arg (s\<lparr>os := y\<rparr>) = Ret (s\<lparr>os := y, cbrk := Suc (cbrk s),
      cbs := cbs s @ [DataCB fn IPFS_SUCCESS (Some (cbrk s)) b (length b) arg]\<rparr>)" for b y
    using execute_data_buf_eq [of "s\<lparr>os := y\<rparr>" fn b arg] mem by simp
  show ?thesis
  proof (cases r)
    case (Inl e)
    with assms show ?thesis by (simp add: with_handle_def run_cat_def execute_data_nil_def)
  next
    case (Inr f)
    with assms show ?thesis
      by (cases f) (auto simp: with_handle_def run_cat_def execute_data_nil_def buf case_prod_beta
          split: sum.split)
  qed
qed

text \<open>
  A goroutine that reads a file reports, on every branch, to the caller exactly once: the bytes
  of the file and their number on success, in a buffer that is released afterwards, and otherwise
  the code of the step that failed, with no data. A directory is not readable.
\<close>

theorem cat_reports_every_outcome:
  assumes "proc_wf s" and "api (nodes s ! n) = Some a"
    and "Unixfs_Get lib a (ctx_done (ctxs s) c) cid (os s) = (r, sys)"
  shows "\<exists>t. run_go lib (GoCat n c cid fn arg) s = Ret t \<and> cmem t = cmem s \<and>
    (\<exists>cb. cbs t = cbs s @ [cb] \<and>
      cb = (case r of
        Inr (FilesFile f) \<Rightarrow>
          (case fst (ioutil_ReadAll lib f sys) of
             Inr b \<Rightarrow> DataCB fn IPFS_SUCCESS (Some (cbrk s)) b (length b) arg
           | Inl _ \<Rightarrow> DataCB fn IPFS_READ_FAILED None [] 0 arg)
      | _ \<Rightarrow> DataCB fn IPFS_CAT_FAILED None [] 0 arg))"
  using assms by (rule cat_run)

theorem cat_reports_every_outcome_witness:
  "\<exists>t. run_go demo_ops_lib (GoCat 0 0 ''nothing'' (Some 3) None) demo_ready = Ret t \<and>
     cbs t = [DataCB (Some 3) IPFS_CAT_FAILED None [] 0 None]"
proof -
  have "Unixfs_Get demo_ops_lib 9 (ctx_done (ctxs demo_ready) 0) ''nothing'' (os demo_ready)
      = (Inl (Errorf ''not found''), os demo_ready)"
    by (simp add: demo_ops_lib_def node_lib.defs ops_lib.defs)
  from cat_reports_every_outcome [OF demo_ready_wf demo_ready_facts(3) this, of "Some 3" None]
  show ?thesis
    by (auto simp: demo_ready_def allocate_node_def init_proc_def case_prod_beta Let_def)
qed

lemma duration_of_eq:
  "duration_of seconds = (sint seconds * 1000000000 + 2 ^ 63) mod 2 ^ 64 - 2 ^ 63"
  unfolding duration_of_def sint_word_mult
  by (simp add: signed_take_bit_eq_take_bit_shift take_bit_eq_mod)

lemma duration_of_exact:
  "\<bar>sint seconds\<bar> \<le> 9223372036 \<Longrightarrow> duration_of seconds = sint seconds * 1000000000"
  unfolding duration_of_eq by (subst mod_pos_pos_trivial) auto

lemma duration_of_wraps:
  assumes "9223372037 \<le> sint seconds" and "sint seconds \<le> 18446744073"
  shows "duration_of seconds < 0"
proof -
  have "(sint seconds * 1000000000 + 2 ^ 63) mod 2 ^ 64 =
      (sint seconds * 1000000000 + 2 ^ 63 - 2 ^ 64) mod 2 ^ 64"
    using minus_mod_self2 [of "sint seconds * 1000000000 + 2 ^ 63" "2 ^ 64"] by simp
  also have "\<dots> = sint seconds * 1000000000 + 2 ^ 63 - 2 ^ 64"
    using assms by (subst mod_pos_pos_trivial) auto
  finally show ?thesis using assms unfolding duration_of_eq by simp
qed

text \<open>
  The lifetime of a published name is the number of seconds asked for as long as it stays below
  about 292 years in either direction; from there on the product with the nanoseconds of a second
  wraps around, and a lifetime of up to twice that becomes one in the past.
\<close>

theorem publish_lifetime:
  assumes "node (nodes s ! n) = Some h" and "path_ParseCidToPath lib cid = Inr p"
  shows "(\<bar>sint seconds\<bar> \<le> 9223372036 \<longrightarrow>
      run_go lib (GoPublish n c seconds cid fn arg) s =
        Ret (report_code IPFS_PUBLISH_FAILED fn arg
          (PublishWithEOL lib h (ctx_done (ctxs s) c) p
             (time_Now lib (os s) + sint seconds * 1000000000) (os s)) s)) \<and>
    (9223372037 \<le> sint seconds \<and> sint seconds \<le> 18446744073 \<longrightarrow>
      (\<exists>d < 0. run_go lib (GoPublish n c seconds cid fn arg) s =
        Ret (report_code IPFS_PUBLISH_FAILED fn arg
          (PublishWithEOL lib h (ctx_done (ctxs s) c) p (time_Now lib (os s) + d) (os s)) s)))"
proof -
  have run: "run_go lib (GoPublish n c seconds cid fn arg) s =
        Ret (report_code IPFS_PUBLISH_FAILED fn arg
          (PublishWithEOL lib h (ctx_done (ctxs s) c) p
             (time_Now lib (os s) + duration_of seconds) (os s)) s)"
    using assms by (simp add: publish_def)
  show ?thesis
    unfolding run using duration_of_exact [of seconds] duration_of_wraps [of seconds] by auto
qed

theorem publish_lifetime_witness:
  "run_go demo_ops_lib (GoPublish 0 0 60 ''Qm'' (Some 3) None) demo_ready =
     Ret (report_code IPFS_PUBLISH_FAILED (Some 3) None
       (PublishWithEOL demo_ops_lib 5 False ''/ipfs/Qm'' 60000001000 (os demo_ready)) demo_ready)"
proof -
  have "path_ParseCidToPath demo_ops_lib ''Qm'' = Inr ''/ipfs/Qm''" "time_Now demo_ops_lib (os demo_ready) = 1000"
    by (simp_all add: demo_ops_lib_def node_lib.defs ops_lib.defs)
  from publish_lifetime [OF demo_ready_facts(4) this(1), of 60 0 "Some 3" None] this(2) demo_ready_facts(8)
  show ?thesis by simp
qed

text \<open>
  What go-ipfs documents of its file API: content that was added with its blocks kept can be fetched
  under the identifier that was returned, as a file that reads back as the same bytes; identifiers
  are texts without zero bytes.
\<close>

definition unixfs_ok :: "('w, 'z) ops_lib_scheme \<Rightarrow> bool" where
  "unixfs_ok lib \<longleftrightarrow>
     (\<forall>a msg p sys cid sys'. Unixfs_Add lib a False msg (PinOpt p) sys = (Inr cid, sys') \<longrightarrow>
        CHR 0x00 \<notin> set cid \<and>
        (\<exists>f sys''. Unixfs_Get lib a False cid sys' = (Inr (FilesFile f), sys'') \<and>
           fst (ioutil_ReadAll lib f sys'') = Inr msg))"

lemma withCancel_fresh_live:
  assumes "proc_wf s" and "n < length (nodes s)" and "\<not> ctx_done (ctxs s) (ctx (nodes s ! n))"
  shows "\<not> ctx_done (ctxs (snd (withCancel n k s))) (length (ctxs s))"
  using assms ctxp.derive_done_new [of "Some (ctx (nodes s ! n))" "ctxs s"] by simp

lemma withCancel_keeps:
  assumes "n < length (nodes s)"
  shows "api (nodes (snd (withCancel n k s)) ! n) = api (nodes s ! n)"
    and "node (nodes (snd (withCancel n k s)) ! n) = node (nodes s ! n)"
    and "ctx (nodes (snd (withCancel n k s)) ! n) = ctx (nodes s ! n)"
  using assms by (simp_all add: nodes_withCancel)

lemma withCancel_root_live:
  assumes "proc_wf s" and "n < length (nodes s)"
  shows "ctx_done (ctxs (snd (withCancel n k s))) (ctx (nodes s ! n)) = ctx_done (ctxs s) (ctx (nodes s ! n))"
proof -
  have "node_wf (ctxs s) (nodes s ! n)" using assms by (simp add: proc_wf_def)
  then show ?thesis by (simp add: node_wf_def)
qed

text \<open>The first half: a successful add has stored the bytes and left the node usable.\<close>

lemma add_success:
  assumes wf: "proc_wf s" and g: "g_node s = Some n"
    and api: "api (nodes s ! n) = Some a" and live: "\<not> ctx_done (ctxs s) (ctx (nodes s ! n))"
    and sz: "unat sz < 2 ^ 31"
    and add: "go_asio_ipfs_add buf sz pin k fn arg s = Ret s1" "run_go lib (last (gos s1)) s1 = Ret s2"
    and ok: "last (cbs s2) = DataCB fn IPFS_SUCCESS ptr cid len arg"
  shows "Unixfs_Add lib a False (take (unat sz) buf) (PinOpt pin) (os s) = (Inr cid, os s2)"
    and "proc_wf s2" and "g_node s2 = Some n" and "api (nodes s2 ! n) = Some a"
    and "\<not> ctx_done (ctxs s2) (ctx (nodes s2 ! n))"
proof -
  let ?msg = "take (unat sz) buf" and ?c = "length (ctxs s)"
  have n: "n < length (nodes s)" using wf g by (simp add: proc_wf_def)
  have "fits_int sz" using sz by (simp add: fits_int_unat)
  then have s1: "s1 = go (GoAdd n ?c ?msg pin fn arg) (snd (withCancel n k s))"
    using add.with_node [OF g, of sz buf pin k fn arg] add(1) sz by simp
  have wf1: "proc_wf s1" using add.keeps_wf [OF wf add(1)] .
  have live1: "\<not> ctx_done (ctxs s1) ?c" using withCancel_fresh_live [OF wf n live, of k] s1 by simp
  have api1: "api (nodes s1 ! n) = Some a" using withCancel_keeps(1) [OF n, of k] api s1 by simp
  obtain r sys where r: "Unixfs_Add lib a False ?msg (PinOpt pin) (os s) = (r, sys)" by force
  have rep: "report_added IPFS_ADD_FAILED fn arg (r, sys) s1 = Ret s2"
    using add(2) api1 live1 r s1 by (simp add: with_handle_def)
  have mem: "\<forall>x \<in> dom (cmem s1). x < cbrk s1" using wf1 by (simp add: proc_wf_def)
  from rep ok have "r \<noteq> Inl e" for e by (auto simp: report_added_def execute_data_nil_def)
  then obtain cid' where r': "r = Inr cid'" by (cases r) auto
  with rep have "execute_data_buf fn cid' arg (s1\<lparr>os := sys\<rparr>) = Ret s2" by (simp add: report_added_def)
  with mem have s2: "s2 = s1\<lparr>os := sys, cbrk := Suc (cbrk s1),
      cbs := cbs s1 @ [DataCB fn IPFS_SUCCESS (Some (cbrk s1)) cid' (length cid') arg]\<rparr>"
    by (simp add: execute_data_buf_eq)
  with ok have "cid' = cid" by simp
  with r r' s2 show "Unixfs_Add lib a False ?msg (PinOpt pin) (os s) = (Inr cid, os s2)" by simp
  have "\<forall>x \<in> dom (cmem s1). x < Suc (cbrk s1)" using mem less_SucI by blast
  with wf1 show "proc_wf s2" unfolding s2 by (simp add: proc_wf_def)
  show "g_node s2 = Some n" "api (nodes s2 ! n) = Some a" using s2 s1 g api1 by simp_all
  show "\<not> ctx_done (ctxs s2) (ctx (nodes s2 ! n))"
    using withCancel_keeps(3) [OF n, of k] withCancel_root_live [OF wf n, of k] live
    by (simp add: s2 s1)
qed

text \<open>
  C9: data goes all the way round. When the data given to the add operation is below 2 GiB and the
  callback reports success, reading the identifier from that callback gives a callback with exactly
  those bytes.
\<close>

theorem add_then_cat:
  assumes lib: "unixfs_ok lib" and wf: "proc_wf s" and g: "g_node s = Some n"
    and api: "api (nodes s ! n) = Some a" and live: "\<not> ctx_done (ctxs s) (ctx (nodes s ! n))"
    and sz: "unat sz < 2 ^ 31"
    and add: "go_asio_ipfs_add buf sz pin k fn arg s = Ret s1" "run_go lib (last (gos s1)) s1 = Ret s2"
    and ok: "last (cbs s2) = DataCB fn IPFS_SUCCESS ptr cid len arg"
    and cat: "go_asio_ipfs_cat (cid @ [CHR 0x00]) k' fn' arg' s2 = Ret s3"
      "run_go lib (last (gos s3)) s3 = Ret s4"
  shows "\<exists>ptr'. last (cbs s4) =
    DataCB fn' IPFS_SUCCESS ptr' (take (unat sz) buf) (length (take (unat sz) buf)) arg'"
proof -
  note s2 = add_success [OF wf g api live sz add ok]
  from lib s2(1) obtain f sys where cid: "CHR 0x00 \<notin> set cid"
    and get: "Unixfs_Get lib a False cid (os s2) = (Inr (FilesFile f), sys)"
    and read: "fst (ioutil_ReadAll lib f sys) = Inr (take (unat sz) buf)"
    unfolding unixfs_ok_def by blast
  have n: "n < length (nodes s2)" using s2 by (simp add: proc_wf_def)
  have s3: "s3 = go (GoCat n (length (ctxs s2)) cid fn' arg') (snd (withCancel n k' s2))"
    using cat.with_node [OF s2(3), of "cid @ [CHR 0x00]" k' fn' arg'] cat(1) c_str_CString [OF cid] by simp
  have "proc_wf s3" using cat.keeps_wf [OF s2(2) cat(1)] .
  moreover have "api (nodes s3 ! n) = Some a" using withCancel_keeps(1) [OF n, of k'] s2(4) s3 by simp
  moreover have "\<not> ctx_done (ctxs s3) (length (ctxs s2))"
    using withCancel_fresh_live [OF s2(2) n s2(5), of k'] s3 by simp
  then have "Unixfs_Get lib a (ctx_done (ctxs s3) (length (ctxs s2))) cid (os s3) = (Inr (FilesFile f), sys)"
    using get s3 by simp
  ultimately show ?thesis
    using cat_run [of s3 n a lib "length (ctxs s2)" cid "Inr (FilesFile f)" sys fn' arg'] cat(2) s3 read
    by auto
qed

theorem add_then_cat_witness:
  "\<exists>s1 s2 s3 s4 ptr ptr'. go_asio_ipfs_add ''data'' 4 True 0 (Some 3) None demo_ready = Ret s1 \<and>
     run_go demo_ops_lib (last (gos s1)) s1 = Ret s2 \<and>
     last (cbs s2) = DataCB (Some 3) IPFS_SUCCESS ptr ''Qm'' 2 None \<and>
     go_asio_ipfs_cat (''Qm'' @ [CHR 0x00]) 1 (Some 3) None s2 = Ret s3 \<and>
     run_go demo_ops_lib (last (gos s3)) s3 = Ret s4 \<and>
     last (cbs s4) = DataCB (Some 3) IPFS_SUCCESS ptr' ''data'' 4 None"
proof -
  have "(case go_asio_ipfs_add ''data'' 4 True 0 (Some 3) None demo_ready of Panic m \<Rightarrow> False | Ret s1 \<Rightarrow>
    (case run_go demo_ops_lib (last (gos s1)) s1 of Panic m \<Rightarrow> False | Ret s2 \<Rightarrow>
    (case go_asio_ipfs_cat (''Qm'' @ [CHR 0x00]) 1 (Some 3) None s2 of Panic m \<Rightarrow> False | Ret s3 \<Rightarrow>
    (case run_go demo_ops_lib (last (gos s3)) s3 of Panic m \<Rightarrow> False | Ret s4 \<Rightarrow>
       last (cbs s2) = DataCB (Some 3) IPFS_SUCCESS (Some 0) ''Qm'' 2 None))))"
    by code_simp
  then obtain s1 s2 s3 s4 where
    r: "go_asio_ipfs_add ''data'' 4 True 0 (Some 3) None demo_ready = Ret s1"
      "run_go demo_ops_lib (last (gos s1)) s1 = Ret s2"
      "last (cbs s2) = DataCB (Some 3) IPFS_SUCCESS (Some 0) ''Qm'' 2 None"
      "go_asio_ipfs_cat (''Qm'' @ [CHR 0x00]) 1 (Some 3) None s2 = Ret s3"
      "run_go demo_ops_lib (last (gos s3)) s3 = Ret s4"
    by (auto split: outcome.splits)
  have "unixfs_ok demo_ops_lib"
    by (auto simp: unixfs_ok_def demo_ops_lib_def node_lib.defs ops_lib.defs)
  moreover have "\<not> ctx_done (ctxs demo_ready) (ctx (nodes demo_ready ! 0))" by (simp add: demo_ready_facts)
  ultimately have "\<exists>ptr'. last (cbs s4) = DataCB (Some 3) IPFS_SUCCESS ptr'
      (take (unat (4 :: u64)) ''data'') (length (take (unat (4 :: u64)) ''data'')) None"
    by (intro add_then_cat [OF _ demo_ready_wf demo_ready_facts(1,3) _ _ r]) simp_all
  with r show ?thesis by auto
qed

end
