(* ===== verification/Api_System.thy ===== *)
theory Api_System
  imports Ops_Props Logging "HOL-Library.Multiset"
begin

text \<open>
  The exported calls and the goroutines of the operations as one transition system: C code calls
  in any order, and a goroutine runs at any time after it was started. The properties on the
  callbacks are about every interleaving of calls and goroutines.
\<close>

section \<open>Steps\<close>

text \<open>One event for each exported function, and one for a goroutine that runs.\<close>

datatype api_event =
    EvInvoke operation u64 cptr cptr
  | EvResolve u64 bytes cptr cptr
  | EvStartAsync bytes bytes cptr cptr cptr cptr
  | EvStartBlocking bytes bytes cptr cptr
  | EvFree
  | EvNodeId
  | EvMemfree cptr
  | EvRedirect cptr
  | EvAllocate
  | EvRelease u64
  | EvCancel u64
  | EvRun nat

text \<open>
  The callbacks that a call asks for, and those of them that the code never makes: \<open>resolve\<close> takes a
  callback and does nothing with it.
\<close>

fun asked_of :: "api_event \<Rightarrow> (cptr \<times> cptr) list" where
  "asked_of (EvInvoke p k fn a) = [(fn, a)]"
| "asked_of (EvResolve k name fn a) = [(fn, a)]"
| "asked_of (EvStartAsync cfg repo scb sa fn a) = [(fn, a)]"
| "asked_of _ = []"

fun dropped_of :: "api_event \<Rightarrow> (cptr \<times> cptr) list" where
  "dropped_of (EvResolve k name fn a) = [(fn, a)]"
| "dropped_of _ = []"

text \<open>
  The state is that of the process, with its logger and with the addresses of the C strings that the
  caller got and has not given back. A goroutine that has run is gone.
\<close>

record 'w api_state =
  strings :: "nat list"
  alog :: logger
  process :: "'w proc"

definition take_go :: "nat \<Rightarrow> 'w proc \<Rightarrow> 'w proc" where
  "take_go i s = s\<lparr>gos := take i (gos s) @ drop (Suc i) (gos s)\<rparr>"

inductive api_step :: "('w, 'z) ops_lib_scheme \<Rightarrow> 'w api_state \<Rightarrow> api_event \<Rightarrow> 'w api_state \<Rightarrow> bool"
  for lib where
  step_invoke: "invoke p k fn a (process x) = Ret t \<Longrightarrow>
    api_step lib x (EvInvoke p k fn a) (x\<lparr>process := t\<rparr>)"
| step_resolve: "api_step lib x (EvResolve k name fn a)
    (x\<lparr>process := go_asio_ipfs_resolve k name fn a (process x)\<rparr>)"
| step_start_async: "api_step lib x (EvStartAsync cfg repo scb sa fn a)
    (x\<lparr>process := go_asio_ipfs_start_async cfg repo scb sa fn a (process x)\<rparr>)"
| step_start_blocking: "go_asio_ipfs_start_blocking lib cfg repo scb sa (process x) = Ret (code, t) \<Longrightarrow>
    api_step lib x (EvStartBlocking cfg repo scb sa) (x\<lparr>process := t\<rparr>)"
| step_free: "api_step lib x EvFree (x\<lparr>process := snd (go_asio_ipfs_free lib (process x))\<rparr>)"
| step_node_id: "go_asio_ipfs_node_id lib (process x) = Ret (a, t) \<Longrightarrow>
    api_step lib x EvNodeId (x\<lparr>strings := a # strings x, process := t\<rparr>)"
| step_memfree: "go_asio_memfree p (process x) = Ret t \<Longrightarrow>
    api_step lib x (EvMemfree p)
      (x\<lparr>strings := (case p of None \<Rightarrow> strings x | Some a \<Rightarrow> remove1 a (strings x)), process := t\<rparr>)"
| step_redirect: "api_step lib x (EvRedirect fn) (x\<lparr>alog := go_asio_ipfs_redirect_logs fn (alog x)\<rparr>)"
| step_allocate: "api_step lib x EvAllocate
    (x\<lparr>process := snd (go_asio_ipfs_cancellation_allocate (process x))\<rparr>)"
| step_release: "api_step lib x (EvRelease k) (x\<lparr>process := go_asio_ipfs_cancellation_free k (process x)\<rparr>)"
| step_cancel: "api_step lib x (EvCancel k) (x\<lparr>process := go_asio_ipfs_cancel k (process x)\<rparr>)"
| step_run: "i < length (gos (process x)) \<Longrightarrow> token (gos (process x) ! i) \<noteq> None \<Longrightarrow>
    run_go lib (gos (process x) ! i) (take_go i (process x)) = Ret t \<Longrightarrow>
    api_step lib x (EvRun i) (x\<lparr>process := t\<rparr>)"

inductive_cases api_stepE: "api_step lib x e y"

definition api_init :: "logger \<Rightarrow> 'w os \<Rightarrow> 'w api_state" where
  "api_init l sys = \<lparr>strings = [], alog = l, process = init_proc sys\<rparr>"

definition api_start :: "'w api_state \<Rightarrow> bool" where
  "api_start x \<longleftrightarrow> (\<exists>l sys. x = api_init l sys)"

section \<open>The invariant\<close>

text \<open>
  Each step keeps the balance of the callbacks: those still owed by a goroutine and those made, as
  multisets. Between two steps the only C memory that is held is that of the strings the caller has.
\<close>

definition owed :: "'w proc \<Rightarrow> (cptr \<times> cptr) multiset" where
  "owed s = mset (List.map_filter token (gos s))"

definition made :: "'w proc \<Rightarrow> (cptr \<times> cptr) multiset" where
  "made s = mset (List.map_filter cb_token (cbs s))"

definition api_inv :: "'w api_state \<Rightarrow> bool" where
  "api_inv x \<longleftrightarrow> proc_wf (process x) \<and> distinct (strings x) \<and> dom (cmem (process x)) = set (strings x)"

lemma map_filter_append [simp]:
  "List.map_filter f (xs @ ys) = List.map_filter f xs @ List.map_filter f ys"
  by (induction xs) (simp_all add: map_filter_simps split: option.split)

lemma map_filter_None: "\<forall>x \<in> set xs. f x = None \<Longrightarrow> List.map_filter f xs = []"
  by (induction xs) (simp_all add: map_filter_simps)

lemma service_token: "is_service g \<Longrightarrow> token g = None"
  by (cases g) (simp_all add: is_service_def)

lemma owed_made_simps [simp]:
  "owed (go g s) = owed s + (case token g of None \<Rightarrow> {#} | Some tk \<Rightarrow> {#tk#})"
  "made (go g s) = made s"
  by (simp_all add: owed_def made_def map_filter_simps split: option.split)

lemma owed_cong: "gos t = gos s \<Longrightarrow> owed t = owed s"
  by (simp add: owed_def)

lemma made_cong: "cbs t = cbs s \<Longrightarrow> made t = made s"
  by (simp add: made_def)

lemma take_go_sel [simp]:
  "g_node (take_go i s) = g_node s" "nodes (take_go i s) = nodes s" "ctxs (take_go i s) = ctxs s"
  "cmem (take_go i s) = cmem s" "cbrk (take_go i s) = cbrk s" "cbs (take_go i s) = cbs s"
  "os (take_go i s) = os s" "proc_wf (take_go i s) = proc_wf s"
  by (simp_all add: take_go_def proc_wf_def)

lemma owed_take_go:
  assumes "i < length (gos s)" and "token (gos s ! i) = Some tk"
  shows "owed s = add_mset tk (owed (take_go i s))"
proof -
  have "gos s = take i (gos s) @ gos s ! i # drop (Suc i) (gos s)" using assms(1) by (rule id_take_nth_drop)
  then have "owed s = mset (List.map_filter token (take i (gos s) @ gos s ! i # drop (Suc i) (gos s)))"
    by (simp add: owed_def)
  also have "\<dots> = add_mset tk (owed (take_go i s))"
    using assms(2) by (simp add: owed_def take_go_def map_filter_simps)
  finally show ?thesis .
qed

lemma start_node_owed_made:
  assumes "start_node lib j n root s = Ret (code, t)"
  shows "owed t = owed s" and "made t = made s"
proof -
  from start_node_frame [OF assms] obtain gs where "gos t = gos s @ gs" "\<forall>g \<in> set gs. is_service g"
    "cbs t = cbs s" by (auto simp: start_frame_def)
  then show "owed t = owed s" "made t = made s"
    by (simp_all add: owed_def made_def map_filter_None service_token)
qed

lemma proc_wf_reported:
  assumes "proc_wf s" and "reported tk s t"
  shows "proc_wf t"
proof -
  from assms(2) have eq: "ctxs t = ctxs s" "g_node t = g_node s" "nodes t = nodes s" "cmem t = cmem s"
    and le: "cbrk s \<le> cbrk t" by (auto simp: reported_def)
  from assms(1) have "\<forall>a \<in> dom (cmem s). a < cbrk s" by (simp add: proc_wf_def)
  with le have "\<forall>a \<in> dom (cmem s). a < cbrk t" using order.strict_trans2 by blast
  with assms(1) show ?thesis by (simp add: proc_wf_def eq)
qed

text \<open>Every run of a goroutine that owes a callback makes exactly that callback.\<close>

lemma run_go_wf_made:
  assumes "proc_wf s" and "token g = Some tk" and "run_go lib g s = Ret t"
  shows "proc_wf t \<and> owed t = owed s \<and> made t = add_mset tk (made s) \<and> cmem t = cmem s"
proof (cases "is_start g")
  case False
  have "\<forall>a \<in> dom (cmem s). a < cbrk s" using assms(1) by (simp add: proc_wf_def)
  from run_go_reported [OF this assms(2,3) False] have r: "reported tk s t" .
  with assms(1) have "proc_wf t" by (rule proc_wf_reported)
  with r show ?thesis by (auto simp: reported_def owed_def made_def map_filter_simps)
next
  case True
  then obtain cfg n root fn a where g: "g = GoStart cfg n root fn a"
    by (cases g) (simp_all add: is_start_def)
  with assms(3) obtain code u where u: "start_node lib cfg n root s = Ret (code, u)"
    "t = call_cb (VoidCB fn code a) u" by (auto simp: run_start_def)
  have "proc_wf t" using proc_wf_start_node [OF assms(1) u(1)] u(2) by (simp add: proc_wf_def)
  moreover have "cmem u = cmem s" using start_node_frame [OF u(1)] by (simp add: start_frame_def)
  ultimately show ?thesis using start_node_owed_made [OF u(1)] u(2) g assms(2)
    by (auto simp: owed_def made_def map_filter_simps)
qed

lemma proc_wf_start_async:
  assumes "proc_wf s"
  shows "proc_wf (go_asio_ipfs_start_async cfg repo scb sa fn a s)"
  using proc_wf_allocate_node [OF assms, of scb sa]
  by (auto simp: go_asio_ipfs_start_async_def proc_wf_def split: prod.split)

lemma start_async_owed_made:
  "owed (go_asio_ipfs_start_async cfg repo scb sa fn a s) = add_mset (fn, a) (owed s)"
  "made (go_asio_ipfs_start_async cfg repo scb sa fn a s) = made s"
  "cmem (go_asio_ipfs_start_async cfg repo scb sa fn a s) = cmem s"
  "cbs (go_asio_ipfs_start_async cfg repo scb sa fn a s) = cbs s"
  by (simp_all add: go_asio_ipfs_start_async_def allocate_node_def case_prod_beta Let_def
      owed_def made_def map_filter_simps go_def)

lemma proc_wf_signal_ops:
  assumes "proc_wf s"
  shows "proc_wf (snd (go_asio_ipfs_cancellation_allocate s))"
    and "proc_wf (go_asio_ipfs_cancellation_free k s)" and "proc_wf (go_asio_ipfs_cancel k s)"
proof -
  show "proc_wf (snd (go_asio_ipfs_cancellation_allocate s))"
    using assms allocate_live [of s]
    by (cases "g_node s") (simp_all add: go_asio_ipfs_cancellation_allocate_def live_proc_def)
  show "proc_wf (go_asio_ipfs_cancellation_free k s)"
    using assms free_live(3) [of s k]
    by (cases "g_node s") (simp_all add: go_asio_ipfs_cancellation_free_def live_proc_def)
  show "proc_wf (go_asio_ipfs_cancel k s)"
    using assms cancel_live(3) [of s k]
    by (cases "g_node s") (simp_all add: go_asio_ipfs_cancel_def live_proc_def)
qed

lemma signal_ops_frame:
  "gos (snd (go_asio_ipfs_cancellation_allocate s)) = gos s"
  "cbs (snd (go_asio_ipfs_cancellation_allocate s)) = cbs s"
  "gos (go_asio_ipfs_cancellation_free k s) = gos s" "cbs (go_asio_ipfs_cancellation_free k s) = cbs s"
  "gos (go_asio_ipfs_cancel k s) = gos s" "cbs (go_asio_ipfs_cancel k s) = cbs s"
  "cmem (snd (go_asio_ipfs_cancellation_allocate s)) = cmem s"
  "cmem (go_asio_ipfs_cancellation_free k s) = cmem s" "cmem (go_asio_ipfs_cancel k s) = cmem s"
  by (simp_all add: go_asio_ipfs_cancellation_allocate_def go_asio_ipfs_cancellation_free_def
      go_asio_ipfs_cancel_def Let_def split: option.split)

lemma free_frame:
  "gos (snd (go_asio_ipfs_free lib s)) = gos s" "cbs (snd (go_asio_ipfs_free lib s)) = cbs s"
  "cmem (snd (go_asio_ipfs_free lib s)) = cmem s"
proof -
  have "gos (snd (go_asio_ipfs_free lib s)) = gos s \<and> cbs (snd (go_asio_ipfs_free lib s)) = cbs s \<and>
    cmem (snd (go_asio_ipfs_free lib s)) = cmem s"
  proof (cases "g_node s")
    case (Some n)
    then show ?thesis using free_eq(4,5,6) [OF Some, of lib] by simp
  qed (simp add: go_asio_ipfs_free_def)
  then show "gos (snd (go_asio_ipfs_free lib s)) = gos s" "cbs (snd (go_asio_ipfs_free lib s)) = cbs s"
    "cmem (snd (go_asio_ipfs_free lib s)) = cmem s"
    by simp_all
qed

lemma start_blocking_owed_made:
  assumes "go_asio_ipfs_start_blocking lib cfg repo scb sa s = Ret (code, t)"
  shows "owed t = owed s" and "made t = made s" and "cmem t = cmem s" and "cbs t = cbs s"
proof -
  have "owed t = owed s \<and> cmem t = cmem s \<and> cbs t = cbs s"
  proof (cases "g_node s")
    case None
    have a: "owed (snd (allocate_node scb sa s)) = owed s" "cbs (snd (allocate_node scb sa s)) = cbs s"
      "cmem (snd (allocate_node scb sa s)) = cmem s"
      by (simp_all add: owed_def allocate_node_def case_prod_beta Let_def)
    from assms start_blocking_new [OF None, of lib cfg repo scb sa]
    have start: "start_node lib (c_str cfg) (length (nodes s)) (c_str repo)
      (snd (allocate_node scb sa s)) = Ret (code, t)" by simp
    then have "cmem t = cmem s" "cbs t = cbs s"
      using start_node_frame [OF start] a(2,3) by (simp_all add: start_frame_def)
    with start_node_owed_made [OF start] a show ?thesis by simp
  next
    case (Some n)
    with assms show ?thesis by (simp add: start_blocking_exists)
  qed
  then show "owed t = owed s" and "made t = made s" and "cmem t = cmem s" and "cbs t = cbs s"
    by (simp_all add: made_def)
qed

lemma invoke_owed_made:
  assumes "invoke p k fn a s = Ret t"
  shows "owed t = add_mset (fn, a) (owed s)" and "made t = made s" and "cmem t = cmem s" and "cbs t = cbs s"
proof -
  have "op_fits p \<or> g_node s = None"
    using assms op.refused [of s _ p k fn a] by (cases "g_node s") auto
  then obtain g where "gos t = gos s @ [g]" "token g = Some (fn, a)" "cbs t = cbs s" "cmem t = cmem s"
    using assms op.starts_one_goroutine [of p k fn a s] op.no_node [of s p k fn a]
      op.reject_token [of p fn a] by auto
  then show "owed t = add_mset (fn, a) (owed s)" and "made t = made s" and "cmem t = cmem s" and "cbs t = cbs s"
    by (simp_all add: owed_def made_def map_filter_simps)
qed

text \<open>The memory calls: a fresh string, and a string that is given back.\<close>

lemma node_id_frame:
  assumes "go_asio_ipfs_node_id lib s = Ret (a, t)"
  shows "\<exists>b. a = cbrk s \<and> t = s\<lparr>cmem := (cmem s)(cbrk s \<mapsto> b), cbrk := Suc (cbrk s)\<rparr>"
  using assms by (auto simp: go_asio_ipfs_node_id_def CString_def CBytes_def split: option.splits sum.splits)

lemma memfree_frame:
  assumes "go_asio_memfree p s = Ret t"
  shows "gos t = gos s" "cbs t = cbs s" "dom (cmem t) = dom (cmem s) - set_option p" "proc_wf s \<Longrightarrow> proc_wf t"
  using assms
  by (auto simp: go_asio_memfree_def C_free_def proc_wf_def split: option.splits if_splits)

text \<open>One step: what is asked for is what is owed and made more than before, up to what is dropped.\<close>

lemma api_step_balance:
  assumes "api_step lib x e y" and "proc_wf (process x)"
  shows "owed (process y) + made (process y) + mset (dropped_of e)
    = owed (process x) + made (process x) + mset (asked_of e)"
  using assms(1)
proof (cases rule: api_step.cases)
  case (step_invoke p k fn a t)
  then show ?thesis using invoke_owed_made [OF step_invoke(3)] by simp
next
  case (step_start_blocking cfg repo scb sa code t)
  then show ?thesis using start_blocking_owed_made [OF step_start_blocking(3)] by simp
next
  case (step_node_id a t)
  from node_id_frame [OF step_node_id(3)] step_node_id show ?thesis by (auto simp: owed_def made_def)
next
  case (step_memfree p t)
  then show ?thesis using memfree_frame [OF step_memfree(3)] by (simp add: owed_def made_def)
next
  case (step_run i t)
  then obtain tk where tk: "token (gos (process x) ! i) = Some tk" by auto
  have "proc_wf (take_go i (process x))" using assms(2) by simp
  from run_go_wf_made [OF this tk step_run(5)] owed_take_go [OF step_run(3) tk] step_run
  show ?thesis by (simp add: made_def)
next
  case (step_start_async cfg repo scb sa fn a)
  then show ?thesis by (simp add: start_async_owed_made)
qed (simp_all add: go_asio_ipfs_resolve_def owed_def made_def signal_ops_frame free_frame)

lemma api_inv_step:
  assumes "api_step lib x e y" and "api_inv x"
  shows "api_inv y"
  using assms(1)
proof (cases rule: api_step.cases)
  case (step_invoke p k fn a t)
  with assms(2) show ?thesis
    by (auto simp: api_inv_def invoke_owed_made [OF step_invoke(3)] intro: op.keeps_wf)
next
  case (step_start_blocking cfg repo scb sa code t)
  with assms(2) show ?thesis
    by (auto simp: api_inv_def start_blocking_owed_made [OF step_start_blocking(3)]
        intro: proc_wf_start_blocking)
next
  case (step_node_id a t)
  from node_id_frame [OF step_node_id(3)] obtain b where a: "a = cbrk (process x)"
    and t: "t = (process x)\<lparr>cmem := (cmem (process x))(cbrk (process x) \<mapsto> b), cbrk := Suc (cbrk (process x))\<rparr>"
    by blast
  from assms(2) have new: "cbrk (process x) \<notin> set (strings x)"
    and wf: "proc_wf (process x)" by (auto simp: api_inv_def proc_wf_def)
  from wf have "proc_wf t" unfolding t by (auto simp: proc_wf_def less_Suc_eq)
  with new step_node_id(2) a t assms(2) show ?thesis by (simp add: api_inv_def)
next
  case (step_memfree p t)
  then show ?thesis using memfree_frame [OF step_memfree(3)] assms(2)
    by (cases p) (auto simp: api_inv_def)
next
  case (step_run i t)
  then obtain tk where tk: "token (gos (process x) ! i) = Some tk" by auto
  from assms(2) have "proc_wf (take_go i (process x))" by (simp add: api_inv_def)
  from run_go_wf_made [OF this tk step_run(5)] step_run assms(2)
  show ?thesis by (simp add: api_inv_def)
qed (use assms(2) in \<open>simp_all add: api_inv_def go_asio_ipfs_resolve_def proc_wf_start_async
      start_async_owed_made proc_wf_signal_ops proc_wf_free signal_ops_frame free_frame\<close>)

interpretation api: inv_system api_start "api_step lib" api_inv for lib
proof
  fix s :: "'a api_state"
  assume "api_start s"
  moreover have "cmem (init_proc sys) = Map.empty" for sys :: "'a os" by (simp add: init_proc_def)
  ultimately show "api_inv s" by (auto simp: api_start_def api_init_def api_inv_def proc_wf_init_proc)
qed (rule api_inv_step)

lemma run_balance:
  assumes "inv_system.run (api_step lib) x es y" and "api_inv x"
  shows "owed (process y) + made (process y) + mset (concat (map dropped_of es))
    = owed (process x) + made (process x) + mset (concat (map asked_of es))"
  using assms
proof (induction rule: api.run.induct)
  case (run_cons x e y es z)
  then have "proc_wf (process x)" "api_inv y" by (auto simp: api_inv_def [of x] intro: api_inv_step)
  with api_step_balance [OF run_cons(1)] run_cons.IH show ?case by (simp add: ac_simps)
qed simp

section \<open>Properties\<close>

text \<open>
  C4: in every interleaving of the exported calls and of the goroutines of the operations, each
  asynchronous call is answered at most once and never forgotten, \<open>resolve\<close> apart: the callbacks asked
  for are exactly those already made, those a started goroutine still owes, and those given to
  \<open>resolve\<close>, which nothing owes. The process stays well-formed, and the C memory it holds is that of
  the strings the caller has not given back.
\<close>

theorem callbacks_exactly_once:
  assumes "inv_system.run (api_step lib) (api_init l sys) es x"
  shows "mset (concat (map asked_of es))
      = owed (process x) + made (process x) + mset (concat (map dropped_of es)) \<and>
    proc_wf (process x) \<and> distinct (strings x) \<and> dom (cmem (process x)) = set (strings x)"
proof -
  have start: "api_start (api_init l sys)" by (auto simp: api_start_def)
  have "owed (init_proc sys) = {#}" "made (init_proc sys) = {#}"
    by (simp_all add: owed_def made_def init_proc_def map_filter_simps)
  with run_balance [OF assms api.inv_start [OF start]] api.run_from_start [OF start assms]
  show ?thesis by (simp add: api_inv_def api_init_def)
qed

text \<open>
  A session: without a node the identity and garbage collection are asked for, a name is to be
  resolved, the goroutine of the collection runs, and the string of the identity is given back.
\<close>

definition demo_logger :: logger where
  "demo_logger = \<lparr>lg_flags = 3, lg_out = Stderr\<rparr>"

definition demo_api_calls :: "api_event list" where
  "demo_api_calls = [EvNodeId, EvInvoke OpGC 0 (Some 3) None, EvResolve 0 ''Qm'' (Some 4) (Some 5), EvRun 0]"

definition demo_after_gc :: "Config option proc" where
  "demo_after_gc = call_cb (VoidCB (Some 3) IPFS_NO_NODE None) (snd (CString [] demo_init))"

lemma demo_api_calls_run:
  "inv_system.run (api_step (demo_ops_lib :: Config option ops_lib)) (api_init demo_logger (demo_os None))
     demo_api_calls \<lparr>strings = [0], alog = demo_logger, process = demo_after_gc\<rparr>"
proof -
  let ?st = "\<lambda>t. \<lparr>strings = [0], alog = demo_logger, process = t\<rparr>"
  let ?i = "api_init demo_logger (demo_os None :: Config option os)"
  let ?u = "snd (CString [] demo_init)" and ?t = "go (GoVoidCB (Some 3) IPFS_NO_NODE None) (snd (CString [] demo_init))"
  have "api_step demo_ops_lib ?i EvNodeId (?i\<lparr>strings := 0 # strings ?i, process := ?u\<rparr>)"
    by (rule step_node_id) (simp add: api_init_def go_asio_ipfs_node_id_def demo_init_def init_proc_def CString_def CBytes_def)
  moreover have "api_step demo_ops_lib (?st ?u) (EvInvoke OpGC 0 (Some 3) None) (?st ?u\<lparr>process := ?t\<rparr>)"
    by (rule step_invoke) (simp add: go_asio_ipfs_gc_def demo_init_def init_proc_def CString_def CBytes_def)
  moreover have "api_step demo_ops_lib (?st ?t) (EvResolve 0 ''Qm'' (Some 4) (Some 5))
      (?st ?t\<lparr>process := go_asio_ipfs_resolve 0 ''Qm'' (Some 4) (Some 5) (process (?st ?t))\<rparr>)"
    by (rule step_resolve)
  moreover have "api_step demo_ops_lib (?st ?t) (EvRun 0) (?st ?t\<lparr>process := demo_after_gc\<rparr>)"
    by (rule step_run) (simp_all add: demo_init_def init_proc_def go_def take_go_def demo_after_gc_def
        executeVoidCB_def call_cb_def CString_def CBytes_def)
  ultimately show ?thesis unfolding demo_api_calls_def
    by (auto simp: api_init_def go_asio_ipfs_resolve_def intro!: api.run.intros)
qed

theorem callbacks_exactly_once_witness:
  "\<exists>x. inv_system.run (api_step demo_ops_lib) (api_init demo_logger (demo_os None)) demo_api_calls x \<and>
     made (process x) + {#(Some 4, Some 5)#} = {#(Some 3, None), (Some 4, Some 5)#} \<and>
     dom (cmem (process x)) = {0}"
proof -
  have "owed demo_after_gc = {#}"
    by (simp add: owed_def demo_after_gc_def demo_init_def init_proc_def map_filter_simps CString_def CBytes_def)
  with callbacks_exactly_once [OF demo_api_calls_run]
  have "made demo_after_gc + {#(Some 4, Some 5)#} = {#(Some 3, None), (Some 4, Some 5)#} \<and>
      dom (cmem demo_after_gc) = {0}"
    by (simp add: demo_api_calls_def)
  with demo_api_calls_run show ?thesis
    by (intro exI [of _ "\<lparr>strings = [0], alog = demo_logger, process = demo_after_gc\<rparr>"] conjI) simp_all
qed

text \<open>The node a goroutine works on.\<close>

fun go_home :: "goroutine \<Rightarrow> nodeptr option" where
  "go_home (GoPublish n _ _ _ _ _) = Some n"
| "go_home (GoCalcCid n _ _ _ _) = Some n"
| "go_home (GoAdd n _ _ _ _ _) = Some n"
| "go_home (GoCat n _ _ _ _) = Some n"
| "go_home (GoPin n _ _ _ _) = Some n"
| "go_home (GoUnpin n _ _ _ _) = Some n"
| "go_home (GoGC n _ _ _) = Some n"
| "go_home _ = None"

lemma execute_data_buf_returns:
  "\<forall>a \<in> dom (cmem s). a < cbrk s \<Longrightarrow> \<exists>t. execute_data_buf fn b arg (s\<lparr>os := y\<rparr>) = Ret t"
  using execute_data_buf_eq [of "s\<lparr>os := y\<rparr>" fn b arg] by simp

lemma run_go_returns:
  assumes "\<forall>a \<in> dom (cmem s). a < cbrk s" and "token g = Some tk" and "\<not> is_start g"
    and "\<And>n. go_home g = Some n \<Longrightarrow> node (nodes s ! n) \<noteq> None \<and> api (nodes s ! n) \<noteq> None"
  shows "\<exists>t. run_go lib g s = Ret t"
  using assms execute_data_buf_returns [OF assms(1)]
  by (cases g)
     (auto simp: with_handle_def publish_def report_added_def run_cat_def is_start_def
       split: option.split sum.split prod.split files_Node.split)

end
