(* ===== verification/Cpp_Handles.thy ===== *)
theory Cpp_Handles
  imports Go_Prelude
begin

text \<open>
  The C++ side of a call (\<open>node.cpp\<close>): the class \<open>Handle\<close>, which turns the callback made by a Go thread
  and the cancellation by the program into one call of the user's callback on the asio thread, and
  the loop of \<open>node::free\<close> over the handles that are left. The state is that of one node and its
  \<open>io_service\<close>; a pointer to a handle is an index into the list of all handles ever made, and a use of
  a deleted one, like a failed \<open>assert\<close>, raises the flag \<open>faulty\<close>. Callbacks of the user may start,
  cancel and free in turn, so the job that is being run is kept apart from its end. A moved-from
  \<open>std::function\<close> is taken to be empty, as the comment in the code has it.
\<close>

section \<open>Data\<close>

type_synonym hptr = nat

text \<open>
  Where \<open>cancel_fn\<close> points to: the member \<open>destructor_cancel_fn\<close> of the handle or the \<open>Cancel\<close> object of the
  caller; and what is stored there: the empty function or the lambda of a handle.
\<close>

datatype slot = Own hptr | Ext nat
datatype cancel_fun = Skip | CancelHandle hptr

text \<open>What the Go side answers: the code and the data, empty for a call that gives none.\<close>

type_synonym answer = "32 word \<times> bytes"

datatype result = Aborted | Answered answer

datatype job = CallJob hptr answer | AbortJob hptr

datatype go_event = GoCancel u64 | GoFree u64

record Handle =
  has_cb :: bool
  cancel_fn :: slot
  cancel_signal_id :: "u64 option"
  job_count :: u32
  deleted :: bool
  awaited :: bool \<comment> \<open>the Go side has not called back yet\<close>
  outcomes :: "result list" \<comment> \<open>the calls of the user's callback\<close>

record cpp =
  hs :: "Handle list"
  links :: "hptr list"
  slots :: "slot \<Rightarrow> cancel_fun"
  queue :: "job list"
  running :: "job list"
  go_events :: "go_event list"
  faulty :: bool

definition cpp_start :: cpp where
  "cpp_start = \<lparr>hs = [], links = [], slots = (\<lambda>_. Skip), queue = [], running = [], go_events = [],
     faulty = False\<rparr>"

section \<open>Operations\<close>

definition upd_handle :: "hptr \<Rightarrow> (Handle \<Rightarrow> Handle) \<Rightarrow> cpp \<Rightarrow> cpp" where
  "upd_handle h f s = s\<lparr>hs := (hs s)[h := f (hs s ! h)]\<rparr>"

definition unlink :: "hptr \<Rightarrow> cpp \<Rightarrow> cpp" where
  "unlink h s = s\<lparr>links := remove1 h (links s)\<rparr>"

definition check :: "bool \<Rightarrow> cpp \<Rightarrow> cpp" where
  "check ok s = s\<lparr>faulty := faulty s \<or> \<not> ok\<rparr>"

definition set_slot :: "slot \<Rightarrow> cancel_fun \<Rightarrow> cpp \<Rightarrow> cpp" where
  "set_slot sl f s = s\<lparr>slots := (slots s)(sl := f)\<rparr>"

definition tell_go :: "(u64 \<Rightarrow> go_event) \<Rightarrow> u64 option \<Rightarrow> cpp \<Rightarrow> cpp" where
  "tell_go ev sig s = (case sig of None \<Rightarrow> s | Some n \<Rightarrow> s\<lparr>go_events := go_events s @ [ev n]\<rparr>)"

text \<open>The constructor, with the caller's \<open>Cancel\<close> object if there is one.\<close>

definition new_Handle :: "u64 option \<Rightarrow> nat option \<Rightarrow> cpp \<Rightarrow> cpp" where
  "new_Handle sig ext s =
     (let h = length (hs s);
          sl = (case ext of None \<Rightarrow> Own h | Some k \<Rightarrow> Ext k)
      in set_slot sl (CancelHandle h)
           (s\<lparr>hs := hs s @ [\<lparr>has_cb = True, cancel_fn = sl, cancel_signal_id = sig, job_count = 1,
                deleted = False, awaited = True, outcomes = []\<rparr>],
              links := links s @ [h]\<rparr>))"

text \<open>The two lambdas the constructor makes: \<open>cb\<close>, and what \<open>cancel_fn\<close> is set to.\<close>

definition invoke_cb :: "hptr \<Rightarrow> result \<Rightarrow> cpp \<Rightarrow> cpp" where
  "invoke_cb h ec s =
     (let s = set_slot (cancel_fn (hs s ! h)) Skip s;
          s = tell_go GoFree (cancel_signal_id (hs s ! h)) s;
          s = unlink h s
      in upd_handle h (\<lambda>x. x\<lparr>outcomes := outcomes x @ [ec]\<rparr>) s)"

definition cancel_lambda :: "hptr \<Rightarrow> cpp \<Rightarrow> cpp" where
  "cancel_lambda h s =
     (let s = check (\<not> deleted (hs s ! h)) s;
          s = unlink h s;
          s = tell_go GoCancel (cancel_signal_id (hs s ! h)) s;
          s = check (has_cb (hs s ! h)) s;
          s = check (job_count (hs s ! h) \<noteq> 0) s;
          s = upd_handle h (\<lambda>x. x\<lparr>job_count := job_count x + 1, has_cb := False\<rparr>) s;
          s = s\<lparr>queue := queue s @ [AbortJob h]\<rparr>
      in set_slot (cancel_fn (hs s ! h)) Skip s)"

definition call_slot :: "slot \<Rightarrow> cpp \<Rightarrow> cpp" where
  "call_slot sl s = (case slots s sl of Skip \<Rightarrow> s | CancelHandle h \<Rightarrow> cancel_lambda h s)"

text \<open>\<open>Handle::call\<close>, made by a Go thread, posts a job.\<close>

definition Handle_call :: "answer \<Rightarrow> hptr \<Rightarrow> cpp \<Rightarrow> cpp" where
  "Handle_call err h s =
     (let s = check (\<not> deleted (hs s ! h)) s;
          s = upd_handle h (\<lambda>x. x\<lparr>awaited := False\<rparr>) s
      in s\<lparr>queue := queue s @ [CallJob h err]\<rparr>)"

fun job_handle :: "job \<Rightarrow> hptr" where
  "job_handle (CallJob h err) = h"
| "job_handle (AbortJob h) = h"

text \<open>The \<open>io_service\<close> takes a job and runs it up to the end of the user's callback; then \<open>on_exit\<close>.\<close>

definition begin_job :: "cpp \<Rightarrow> cpp" where
  "begin_job s =
     (case queue s of
        [] \<Rightarrow> s
      | j # js \<Rightarrow>
          (let h = job_handle j;
               s = check (\<not> deleted (hs s ! h)) (s\<lparr>queue := js, running := j # running s\<rparr>)
           in case j of
                CallJob _ err \<Rightarrow> (if has_cb (hs s ! h) then invoke_cb h (Answered err) s else s)
              | AbortJob _ \<Rightarrow> invoke_cb h Aborted s))"

definition end_job :: "cpp \<Rightarrow> cpp" where
  "end_job s =
     (case running s of
        [] \<Rightarrow> s
      | j # js \<Rightarrow>
          (let h = job_handle j;
               s = check (\<not> deleted (hs s ! h)) (s\<lparr>running := js\<rparr>)
           in upd_handle h
                (\<lambda>x. x\<lparr>job_count := job_count x - 1, deleted := deleted x \<or> job_count x - 1 = 0\<rparr>) s))"

text \<open>The loop of \<open>node::free\<close>: \<open>cancel\<close> of the first handle, until there is none.\<close>

definition cancel_front :: "cpp \<Rightarrow> cpp" where
  "cancel_front s = (case links s of [] \<Rightarrow> s | h # _ \<Rightarrow> call_slot (cancel_fn (hs s ! h)) s)"

partial_function (option) free_loop :: "cpp \<Rightarrow> cpp option" where
  "free_loop s = (if links s = [] then Some s else free_loop (cancel_front s))"

declare free_loop.simps [code]

section \<open>Steps\<close>

text \<open>
  A new call may use a \<open>Cancel\<close> object that no unsettled call uses; the Go side calls back once.
\<close>

datatype cpp_event =
    Submit "u64 option" "nat option" | Answer hptr answer | CancelBy nat | BeginJob | EndJob | FreeAll

definition slot_unused :: "nat option \<Rightarrow> cpp \<Rightarrow> bool" where
  "slot_unused ext s \<longleftrightarrow>
     (\<forall>x \<in> set (hs s). outcomes x = [] \<longrightarrow> (case ext of None \<Rightarrow> True | Some k \<Rightarrow> cancel_fn x \<noteq> Ext k))"

inductive cpp_step :: "cpp \<Rightarrow> cpp_event \<Rightarrow> cpp \<Rightarrow> bool" where
  submit: "slot_unused ext s \<Longrightarrow> cpp_step s (Submit sig ext) (new_Handle sig ext s)"
| answer: "h < length (hs s) \<Longrightarrow> awaited (hs s ! h) \<Longrightarrow> cpp_step s (Answer h err) (Handle_call err h s)"
| cancel_by: "cpp_step s (CancelBy k) (call_slot (Ext k) s)"
| begin_step: "queue s \<noteq> [] \<Longrightarrow> cpp_step s BeginJob (begin_job s)"
| end_step: "running s \<noteq> [] \<Longrightarrow> cpp_step s EndJob (end_job s)"
| free_all: "free_loop s = Some t \<Longrightarrow> cpp_step s FreeAll t"

section \<open>The invariant\<close>

fun is_call :: "hptr \<Rightarrow> job \<Rightarrow> bool" where
  "is_call i (CallJob h err) = (i = h)"
| "is_call i (AbortJob h) = False"

fun is_abort :: "hptr \<Rightarrow> job \<Rightarrow> bool" where
  "is_abort i (CallJob h err) = False"
| "is_abort i (AbortJob h) = (i = h)"

definition ncall :: "hptr \<Rightarrow> job list \<Rightarrow> nat" where
  "ncall i js = length (filter (is_call i) js)"

definition nabort :: "hptr \<Rightarrow> job list \<Rightarrow> nat" where
  "nabort i js = length (filter (is_abort i) js)"

lemma ncall_simps [simp]:
  "ncall i [] = 0" "ncall i (j # js) = (if is_call i j then Suc (ncall i js) else ncall i js)"
  "ncall i (js @ ks) = ncall i js + ncall i ks"
  by (simp_all add: ncall_def)

lemma nabort_simps [simp]:
  "nabort i [] = 0" "nabort i (j # js) = (if is_abort i j then Suc (nabort i js) else nabort i js)"
  "nabort i (js @ ks) = nabort i js + nabort i ks"
  by (simp_all add: nabort_def)

text \<open>
  One handle: whether it is linked, and how many jobs of either kind are queued (\<open>cq\<close>, \<open>aq\<close>) and being
  run (\<open>cr\<close>, \<open>ar\<close>). The jobs it waits for, with the callback of the Go side, are what \<open>job_count\<close> counts;
  it is deleted when there are none. While it is linked its callback is there and a result is to
  come; once unlinked, either the abort is queued or the user's callback has been called, once.
\<close>

definition debt :: "Handle \<Rightarrow> nat" where
  "debt x = (if awaited x then 1 else 0)"

definition handle_count :: "Handle \<Rightarrow> nat \<Rightarrow> bool" where
  "handle_count x n \<longleftrightarrow> job_count x = of_nat (debt x + n) \<and> deleted x = (debt x + n = 0)"

definition phase :: "nat \<Rightarrow> bool \<Rightarrow> nat \<Rightarrow> bool \<Rightarrow> nat \<Rightarrow> nat \<Rightarrow> nat \<Rightarrow> nat \<Rightarrow> bool" where
  "phase w cb outs linked cq aq cr ar \<longleftrightarrow>
     w + cq + cr \<le> 1 \<and> aq + ar \<le> 1 \<and> outs \<le> 1 \<and>
     (linked \<longrightarrow> cb \<and> outs = 0 \<and> aq = 0 \<and> ar = 0 \<and> cr = 0 \<and> w + cq = 1) \<and>
     (\<not> linked \<and> outs = 0 \<longrightarrow> \<not> cb \<and> aq = 1) \<and>
     (outs = 1 \<longrightarrow> aq = 0 \<and> (cb \<longrightarrow> w + cq = 0))"

definition handle_ok :: "Handle \<Rightarrow> bool \<Rightarrow> nat \<Rightarrow> nat \<Rightarrow> nat \<Rightarrow> nat \<Rightarrow> bool" where
  "handle_ok x linked cq aq cr ar \<longleftrightarrow>
     handle_count x (cq + aq + cr + ar) \<and>
     phase (debt x) (has_cb x) (length (outcomes x)) linked cq aq cr ar"

definition handle_inv :: "cpp \<Rightarrow> hptr \<Rightarrow> bool" where
  "handle_inv s i \<longleftrightarrow>
     handle_ok (hs s ! i) (i \<in> set (links s)) (ncall i (queue s)) (nabort i (queue s))
       (ncall i (running s)) (nabort i (running s))"

definition slots_inv :: "cpp \<Rightarrow> bool" where
  "slots_inv s \<longleftrightarrow>
     (\<forall>sl h. slots s sl = CancelHandle h \<longrightarrow> h \<in> set (links s) \<and> cancel_fn (hs s ! h) = sl) \<and>
     (\<forall>h \<in> set (links s). slots s (cancel_fn (hs s ! h)) = CancelHandle h) \<and>
     (\<forall>i < length (hs s). \<forall>j < length (hs s). i \<noteq> j \<and> outcomes (hs s ! i) = [] \<and> outcomes (hs s ! j) = [] \<longrightarrow>
        cancel_fn (hs s ! i) \<noteq> cancel_fn (hs s ! j)) \<and>
     (\<forall>i < length (hs s). \<forall>j. cancel_fn (hs s ! i) = Own j \<longrightarrow> j = i)"

definition cpp_inv :: "cpp \<Rightarrow> bool" where
  "cpp_inv s \<longleftrightarrow> \<not> faulty s \<and> distinct (links s) \<and>
     (\<forall>h \<in> set (links s) \<union> job_handle ` set (queue s @ running s). h < length (hs s)) \<and>
     (\<forall>i < length (hs s). handle_inv s i) \<and> slots_inv s"

lemma cpp_invD:
  assumes "cpp_inv s"
  shows "\<not> faulty s" "distinct (links s)" "slots_inv s"
    "h \<in> set (links s) \<Longrightarrow> h < length (hs s)"
    "j \<in> set (queue s) \<Longrightarrow> job_handle j < length (hs s)"
    "j \<in> set (running s) \<Longrightarrow> job_handle j < length (hs s)"
    "i < length (hs s) \<Longrightarrow> handle_inv s i"
  using assms by (auto simp: cpp_inv_def)

lemmas cpp_ops = upd_handle_def unlink_def check_def set_slot_def Let_def

lemma tell_go_sel [simp]:
  "hs (tell_go ev sig s) = hs s" "links (tell_go ev sig s) = links s" "slots (tell_go ev sig s) = slots s"
  "queue (tell_go ev sig s) = queue s" "running (tell_go ev sig s) = running s"
  "faulty (tell_go ev sig s) = faulty s"
  by (simp_all add: tell_go_def split: option.split)

subsection \<open>Linked handles\<close>

lemma linked_handle:
  assumes "cpp_inv s" and "h \<in> set (links s)"
  shows "has_cb (hs s ! h)" "\<not> deleted (hs s ! h)" "job_count (hs s ! h) = 1" "outcomes (hs s ! h) = []"
    "nabort h (queue s) = 0" "nabort h (running s) = 0" "ncall h (running s) = 0"
    "debt (hs s ! h) + ncall h (queue s) = 1" "slots s (cancel_fn (hs s ! h)) = CancelHandle h"
proof -
  from assms have "handle_inv s h" by (blast intro: cpp_invD)
  with assms(2) have ok: "handle_ok (hs s ! h) True (ncall h (queue s)) (nabort h (queue s))
      (ncall h (running s)) (nabort h (running s))" by (simp add: handle_inv_def)
  then have z: "has_cb (hs s ! h)" "outcomes (hs s ! h) = []" "nabort h (queue s) = 0"
    "nabort h (running s) = 0" "ncall h (running s) = 0" "debt (hs s ! h) + ncall h (queue s) = 1"
    by (simp_all add: handle_ok_def phase_def)
  have "handle_count (hs s ! h) (ncall h (queue s))" using ok z(3,4,5) by (simp add: handle_ok_def)
  with z(6) have c: "job_count (hs s ! h) = 1" "\<not> deleted (hs s ! h)"
    by (simp_all only: handle_count_def of_nat_1)
  show "has_cb (hs s ! h)" "\<not> deleted (hs s ! h)" "job_count (hs s ! h) = 1" "outcomes (hs s ! h) = []"
    "nabort h (queue s) = 0" "nabort h (running s) = 0" "ncall h (running s) = 0"
    "debt (hs s ! h) + ncall h (queue s) = 1" by (fact z c)+
  from cpp_invD(3) [OF assms(1)] assms(2) show "slots s (cancel_fn (hs s ! h)) = CancelHandle h"
    by (simp add: slots_inv_def)
qed

lemma cancel_lambda_sel:
  "hs (cancel_lambda h s) = (hs s)[h := (hs s ! h)\<lparr>job_count := job_count (hs s ! h) + 1, has_cb := False\<rparr>]"
  "links (cancel_lambda h s) = remove1 h (links s)"
  "queue (cancel_lambda h s) = queue s @ [AbortJob h]" "running (cancel_lambda h s) = running s"
  "faulty (cancel_lambda h s) = (faulty s \<or> deleted (hs s ! h) \<or> \<not> has_cb (hs s ! h) \<or> job_count (hs s ! h) = 0)"
  "h < length (hs s) \<Longrightarrow> slots (cancel_lambda h s) = (slots s)(cancel_fn (hs s ! h) := Skip)"
  by (auto simp: cancel_lambda_def cpp_ops)

text \<open>Taking a handle off the list and emptying its slot, for \<open>cb\<close> and for the cancellation.\<close>

lemma slots_inv_unlink:
  assumes inv: "cpp_inv s" and h: "h < length (hs s)" "outcomes (hs s ! h) = []"
    and len: "length (hs t) = length (hs s)"
    and same: "\<And>i. i < length (hs s) \<Longrightarrow> cancel_fn (hs t ! i) = cancel_fn (hs s ! i)"
      "\<And>i. i < length (hs s) \<Longrightarrow> outcomes (hs t ! i) = [] \<Longrightarrow> outcomes (hs s ! i) = []"
    and t: "links t = remove1 h (links s)" "slots t = (slots s)(cancel_fn (hs s ! h) := Skip)"
  shows "slots_inv t"
proof -
  note sl = cpp_invD(3) [OF inv, unfolded slots_inv_def]
  have dist: "i \<in> set (links t) \<longleftrightarrow> i \<in> set (links s) \<and> i \<noteq> h" for i
    using cpp_invD(2) [OF inv] by (auto simp: t)
  have lt: "i < length (hs s)" if "i \<in> set (links s)" for i using cpp_invD(4) [OF inv that] .
  have "i \<in> set (links t) \<and> cancel_fn (hs t ! i) = l" if "slots t l = CancelHandle i" for l i
  proof -
    have "l \<noteq> cancel_fn (hs s ! h)" "slots s l = CancelHandle i" using that by (auto simp: t split: if_splits)
    with sl have "i \<in> set (links s)" "cancel_fn (hs s ! i) = l" by blast+
    with \<open>l \<noteq> cancel_fn (hs s ! h)\<close> same(1) lt show ?thesis by (auto simp: dist)
  qed
  moreover have "slots t (cancel_fn (hs t ! i)) = CancelHandle i" if "i \<in> set (links t)" for i
  proof -
    have i: "i \<in> set (links s)" "i \<noteq> h" "i < length (hs s)" using that lt by (auto simp: dist)
    with sl h linked_handle(4) [OF inv i(1)] have "cancel_fn (hs s ! i) \<noteq> cancel_fn (hs s ! h)" by blast
    with linked_handle(9) [OF inv i(1)] same(1) [OF i(3)] show ?thesis by (simp add: t)
  qed
  moreover have "cancel_fn (hs t ! i) \<noteq> cancel_fn (hs t ! j)" if "i < length (hs s)" "j < length (hs s)"
    "i \<noteq> j" "outcomes (hs t ! i) = []" "outcomes (hs t ! j) = []" for i j
    using sl same that by metis
  moreover have "j = i" if "i < length (hs s)" "cancel_fn (hs t ! i) = Own j" for i j
    using sl same(1) that by metis
  ultimately show ?thesis unfolding slots_inv_def len by blast
qed

lemma handle_ok_cancel:
  assumes "handle_ok x True cq 0 0 0"
  shows "handle_ok (x\<lparr>job_count := job_count x + 1, has_cb := False\<rparr>) False cq 1 0 0"
  using assms by (cases "awaited x") (auto simp: handle_ok_def handle_count_def phase_def debt_def)

lemma cpp_inv_cancel:
  assumes "cpp_inv s" and h: "h \<in> set (links s)"
  shows "cpp_inv (cancel_lambda h s)"
proof -
  note l = linked_handle [OF assms]
  have len: "h < length (hs s)" by (rule cpp_invD(4) [OF assms])
  have "handle_inv (cancel_lambda h s) i" if "i < length (hs s)" for i
  proof (cases "i = h")
    case True
    with h l(1-8) have "handle_ok (hs s ! h) True (ncall h (queue s)) 0 0 0"
      using cpp_invD(7) [OF assms(1) len] by (simp add: handle_inv_def)
    from handle_ok_cancel [OF this] True l len cpp_invD(2) [OF assms(1)] show ?thesis
      by (simp add: handle_inv_def cancel_lambda_sel)
  next
    case False
    then show ?thesis using cpp_invD(7) [OF assms(1) that]
      by (simp add: handle_inv_def cancel_lambda_sel)
  qed
  moreover have "slots_inv (cancel_lambda h s)"
    using l(4) len by (intro slots_inv_unlink [OF assms(1) len l(4)])
      (auto simp: cancel_lambda_sel nth_list_update split: if_splits)
  ultimately show ?thesis
    using assms l len by (auto simp: cpp_inv_def cancel_lambda_sel dest: in_set_remove1)
qed

subsection \<open>Cancelling by a slot, and the loop of free\<close>

lemma call_slot_cases:
  assumes "cpp_inv s"
  obtains "call_slot sl s = s"
  | h where "h \<in> set (links s)" "cancel_fn (hs s ! h) = sl" "call_slot sl s = cancel_lambda h s"
proof (cases "slots s sl")
  case Skip
  then show ?thesis using that(1) by (simp add: call_slot_def)
next
  case (CancelHandle h)
  with cpp_invD(3) [OF assms] have "h \<in> set (links s)" "cancel_fn (hs s ! h) = sl"
    unfolding slots_inv_def by blast+
  with CancelHandle show ?thesis using that(2) by (simp add: call_slot_def)
qed

lemma cpp_inv_call_slot: "cpp_inv s \<Longrightarrow> cpp_inv (call_slot sl s)"
  by (cases rule: call_slot_cases [of s sl]) (auto intro: cpp_inv_cancel)

lemma cancel_front_eq: "cpp_inv s \<Longrightarrow> links s = h # ls \<Longrightarrow> cancel_front s = cancel_lambda h s"
  using linked_handle(9) [of s h] by (simp add: cancel_front_def call_slot_def)

lemma free_loop_ends:
  "cpp_inv s \<Longrightarrow> \<exists>t. free_loop s = Some t \<and> links t = []"
proof (induction "length (links s)" arbitrary: s)
  case 0
  then show ?case by (subst free_loop.simps) simp
next
  case (Suc n)
  then obtain h ls where l: "links s = h # ls" by (cases "links s") auto
  have "cancel_front s = cancel_lambda h s" by (rule cancel_front_eq [OF Suc.prems l])
  with Suc l cpp_inv_cancel [OF Suc.prems, of h] show ?case
    by (subst free_loop.simps) (simp add: cancel_lambda_sel)
qed

lemma free_loop_induct:
  assumes "free_loop s = Some t" and "cpp_inv s"
    and "\<And>s. cpp_inv s \<Longrightarrow> links s = [] \<Longrightarrow> P s s"
    and "\<And>s h t. cpp_inv s \<Longrightarrow> h \<in> set (links s) \<Longrightarrow> links s = h # tl (links s) \<Longrightarrow>
      P (cancel_lambda h s) t \<Longrightarrow> P s t"
  shows "P s t"
  using assms(1,2)
proof (induction "length (links s)" arbitrary: s)
  case 0
  then show ?case using assms(3) by (subst (asm) free_loop.simps) simp
next
  case (Suc n)
  then obtain h ls where l: "links s = h # ls" by (cases "links s") auto
  have c: "cancel_front s = cancel_lambda h s" by (rule cancel_front_eq [OF Suc.prems(2) l])
  have "free_loop (cancel_lambda h s) = Some t"
    using Suc.prems(1) l c by (subst (asm) free_loop.simps) simp
  with Suc l cpp_inv_cancel [OF Suc.prems(2), of h] have "P (cancel_lambda h s) t"
    by (simp add: cancel_lambda_sel)
  with assms(4) [OF Suc.prems(2), of h] l show ?case by simp
qed

lemma cpp_inv_free_loop: "free_loop s = Some t \<Longrightarrow> cpp_inv s \<Longrightarrow> cpp_inv t"
  by (rule free_loop_induct [where P = "\<lambda>s t. cpp_inv t"]) auto

subsection \<open>The other steps\<close>

lemma handle_inv_cong:
  assumes "handle_inv s i" and "hs t ! i = hs s ! i" and "i \<in> set (links t) \<longleftrightarrow> i \<in> set (links s)"
    and "ncall i (queue t) = ncall i (queue s)" "nabort i (queue t) = nabort i (queue s)"
    and "ncall i (running t) = ncall i (running s)" "nabort i (running t) = nabort i (running s)"
  shows "handle_inv t i"
  using assms by (simp add: handle_inv_def)

lemma no_jobs:
  "\<forall>j \<in> set js. job_handle j < n \<Longrightarrow> ncall n js = 0 \<and> nabort n js = 0"
proof (induction js)
  case (Cons j js)
  then show ?case by (cases j) auto
qed simp

lemma new_Handle_sel:
  "hs (new_Handle sig ext s) = hs s @ [\<lparr>has_cb = True, cancel_fn = (case ext of None \<Rightarrow> Own (length (hs s)) | Some k \<Rightarrow> Ext k),
     cancel_signal_id = sig, job_count = 1, deleted = False, awaited = True, outcomes = []\<rparr>]"
  "links (new_Handle sig ext s) = links s @ [length (hs s)]"
  "slots (new_Handle sig ext s) =
     (slots s)((case ext of None \<Rightarrow> Own (length (hs s)) | Some k \<Rightarrow> Ext k) := CancelHandle (length (hs s)))"
  "queue (new_Handle sig ext s) = queue s" "running (new_Handle sig ext s) = running s"
  "faulty (new_Handle sig ext s) = faulty s"
  by (simp_all add: new_Handle_def cpp_ops)

lemma slots_inv_new:
  assumes inv: "cpp_inv s" and "slot_unused ext s"
  shows "slots_inv (new_Handle sig ext s)"
proof -
  let ?n = "length (hs s)" and ?t = "new_Handle sig ext s"
  define l where "l = (case ext of None \<Rightarrow> Own ?n | Some k \<Rightarrow> Ext k)"
  have len: "length (hs ?t) = Suc ?n" by (simp add: new_Handle_sel)
  note sl = cpp_invD(3) [OF inv, unfolded slots_inv_def]
  have fresh: "cancel_fn (hs s ! i) \<noteq> l" if "i < ?n" "outcomes (hs s ! i) = []" for i
  proof (cases ext)
    case None
    with sl that(1) show ?thesis unfolding l_def by fastforce
  next
    case (Some k)
    with assms(2) that nth_mem [OF that(1)] show ?thesis by (auto simp: slot_unused_def l_def)
  qed
  have lt: "i < ?n" if "i \<in> set (links s)" for i using cpp_invD(4) [OF inv that] .
  have l: "hs ?t ! ?n = \<lparr>has_cb = True, cancel_fn = l, cancel_signal_id = sig, job_count = 1, deleted = False,
      awaited = True, outcomes = []\<rparr>" "slots ?t = (slots s)(l := CancelHandle ?n)"
    by (simp_all add: new_Handle_sel l_def)
  have old: "hs ?t ! i = hs s ! i" if "i < ?n" for i using that by (simp add: new_Handle_sel nth_append)
  have "i \<in> set (links ?t) \<and> cancel_fn (hs ?t ! i) = k" if "slots ?t k = CancelHandle i" for k i
  proof (cases "k = l")
    case True
    with that l show ?thesis by (auto simp: new_Handle_sel)
  next
    case False
    with that l have "slots s k = CancelHandle i" by simp
    with sl lt old show ?thesis by (auto simp: new_Handle_sel(2))
  qed
  moreover have "slots ?t (cancel_fn (hs ?t ! i)) = CancelHandle i" if "i \<in> set (links ?t)" for i
  proof (cases "i = ?n")
    case False
    with that have i: "i \<in> set (links s)" by (simp add: new_Handle_sel(2))
    with linked_handle(4,9) [OF inv i] lt [OF i] fresh [of i] old [of i] l show ?thesis by simp
  qed (use l in simp)
  moreover have "cancel_fn (hs ?t ! i) \<noteq> cancel_fn (hs ?t ! j)"
    if "i < Suc ?n" "j < Suc ?n" "i \<noteq> j" "outcomes (hs ?t ! i) = []" "outcomes (hs ?t ! j) = []" for i j
    using that sl fresh [of i] fresh [of j] old [of i] old [of j] l
    by (cases "i = ?n"; cases "j = ?n") (auto simp: less_Suc_eq)
  moreover have "j = i" if "i < Suc ?n" "cancel_fn (hs ?t ! i) = Own j" for i j
    using that sl old [of i] l by (cases "i = ?n") (auto simp: l_def less_Suc_eq split: option.splits)
  ultimately show ?thesis unfolding slots_inv_def len by blast
qed

lemma cpp_inv_new:
  assumes inv: "cpp_inv s" and "slot_unused ext s"
  shows "cpp_inv (new_Handle sig ext s)"
proof -
  let ?n = "length (hs s)" and ?t = "new_Handle sig ext s"
  have j: "ncall ?n (queue s) = 0" "nabort ?n (queue s) = 0" "ncall ?n (running s) = 0" "nabort ?n (running s) = 0"
    using no_jobs [of "queue s" ?n] no_jobs [of "running s" ?n] cpp_invD(5,6) [OF inv] by auto
  have "handle_inv ?t i" if "i < Suc ?n" for i
  proof (cases "i = ?n")
    case True
    with j show ?thesis
      by (simp add: handle_inv_def handle_ok_def handle_count_def phase_def new_Handle_sel debt_def)
  next
    case False
    with that have "i < ?n" by simp
    with cpp_invD(7) [OF inv this] show ?thesis
      by (rule_tac handle_inv_cong) (auto simp: new_Handle_sel nth_append)
  qed
  with slots_inv_new [OF assms] cpp_invD(1,2) [OF inv] inv show ?thesis
    by (auto simp: cpp_inv_def new_Handle_sel less_Suc_eq)
qed

lemma Handle_call_sel:
  "hs (Handle_call err h s) = (hs s)[h := (hs s ! h)\<lparr>awaited := False\<rparr>]"
  "links (Handle_call err h s) = links s" "slots (Handle_call err h s) = slots s"
  "queue (Handle_call err h s) = queue s @ [CallJob h err]" "running (Handle_call err h s) = running s"
  "faulty (Handle_call err h s) = (faulty s \<or> deleted (hs s ! h))"
  by (simp_all add: Handle_call_def cpp_ops)

text \<open>Steps that change neither the slots nor what the invariant of the slots reads.\<close>

lemma slots_inv_cong:
  assumes "slots_inv s" and "links t = links s" and "slots t = slots s" and "length (hs t) = length (hs s)"
    and "\<And>h. h \<in> set (links s) \<Longrightarrow> h < length (hs s)"
    and "\<And>i. i < length (hs s) \<Longrightarrow> cancel_fn (hs t ! i) = cancel_fn (hs s ! i) \<and> outcomes (hs t ! i) = outcomes (hs s ! i)"
  shows "slots_inv t"
proof -
  note sl = assms(1) [unfolded slots_inv_def]
  have "h \<in> set (links t) \<and> cancel_fn (hs t ! h) = l" if "slots t l = CancelHandle h" for l h
    using sl assms(2,3,5,6) that by metis
  moreover have "slots t (cancel_fn (hs t ! h)) = CancelHandle h" if "h \<in> set (links t)" for h
    using sl assms(2,3,5,6) that by simp
  moreover have "cancel_fn (hs t ! i) \<noteq> cancel_fn (hs t ! j)" if "i < length (hs s)" "j < length (hs s)"
    "i \<noteq> j" "outcomes (hs t ! i) = []" "outcomes (hs t ! j) = []" for i j
    using sl assms(6) that by metis
  moreover have "j = i" if "i < length (hs s)" "cancel_fn (hs t ! i) = Own j" for i j
    using sl assms(6) that by metis
  ultimately show ?thesis unfolding slots_inv_def assms(4) by blast
qed

lemma handle_ok_answer:
  assumes "handle_ok x l cq aq cr ar" and "awaited x"
  shows "handle_ok (x\<lparr>awaited := False\<rparr>) l (Suc cq) aq cr ar" "\<not> deleted x"
proof -
  have d: "debt x = 1" "debt (x\<lparr>awaited := False\<rparr>) = 0" using assms(2) by (simp_all add: debt_def)
  have "phase 0 cb k l (Suc cq) aq cr ar = phase 1 cb k l cq aq cr ar" for cb k by (simp add: phase_def)
  with assms d show "handle_ok (x\<lparr>awaited := False\<rparr>) l (Suc cq) aq cr ar"
    by (simp add: handle_ok_def handle_count_def)
  show "\<not> deleted x" using assms d by (simp add: handle_ok_def handle_count_def)
qed

lemma cpp_inv_answer:
  assumes inv: "cpp_inv s" and h: "h < length (hs s)" and o: "awaited (hs s ! h)"
  shows "cpp_inv (Handle_call err h s)"
proof -
  have "handle_inv (Handle_call err h s) i" if "i < length (hs s)" for i
  proof (cases "i = h")
    case True
    with handle_ok_answer(1) [OF cpp_invD(7) [OF inv that, unfolded handle_inv_def]] o h show ?thesis
      by (simp add: handle_inv_def Handle_call_sel)
  next
    case False
    then show ?thesis using cpp_invD(7) [OF inv that] by (simp add: handle_inv_def Handle_call_sel)
  qed
  moreover have "\<not> deleted (hs s ! h)"
    using handle_ok_answer(2) [OF cpp_invD(7) [OF inv h, unfolded handle_inv_def] o] .
  moreover have "slots_inv (Handle_call err h s)"
    using cpp_invD(4) [OF inv] h
    by (intro slots_inv_cong [OF cpp_invD(3) [OF inv]]) (auto simp: Handle_call_sel nth_list_update)
  ultimately show ?thesis using inv h by (auto simp: cpp_inv_def Handle_call_sel)
qed

lemma end_job_sel:
  assumes "running s = j # js"
  shows "hs (end_job s) = (hs s)[job_handle j := (hs s ! job_handle j)
      \<lparr>job_count := job_count (hs s ! job_handle j) - 1,
       deleted := deleted (hs s ! job_handle j) \<or> job_count (hs s ! job_handle j) - 1 = 0\<rparr>]"
    "links (end_job s) = links s" "slots (end_job s) = slots s" "queue (end_job s) = queue s"
    "running (end_job s) = js" "faulty (end_job s) = (faulty s \<or> deleted (hs s ! job_handle j))"
  using assms by (simp_all add: end_job_def cpp_ops)

lemma of_nat_small_word: "n \<le> 2 \<Longrightarrow> (of_nat n :: u32) = 0 \<longleftrightarrow> n = 0"
  by (cases "n = 0"; cases "n = 1"; cases "n = 2") auto

lemma handle_count_dec:
  assumes "handle_count x (Suc n)" and "debt x + n \<le> 2"
  shows "handle_count (x\<lparr>job_count := job_count x - 1, deleted := deleted x \<or> job_count x - 1 = 0\<rparr>) n"
    "\<not> deleted x"
proof -
  have c: "job_count x - 1 = of_nat (debt x + n)" "\<not> deleted x"
    using assms(1) by (simp_all add: handle_count_def)
  moreover have "debt (x\<lparr>job_count := jc, deleted := d\<rparr>) = debt x" for jc d by (simp add: debt_def)
  ultimately show "handle_count (x\<lparr>job_count := job_count x - 1, deleted := deleted x \<or> job_count x - 1 = 0\<rparr>) n"
    using of_nat_small_word [OF assms(2)] by (simp add: handle_count_def del: of_nat_add)
  show "\<not> deleted x" by (rule c(2))
qed

lemma phase_mono: "phase w cb k l cq aq (cr + c) (ar + a) \<Longrightarrow> phase w cb k l cq aq cr ar"
  by (simp add: phase_def)

lemma phase_bound: "phase w cb k l cq aq cr ar \<Longrightarrow> w + (cq + aq + cr + ar) \<le> 2"
  by (simp add: phase_def)

lemma handle_ok_end:
  assumes "handle_ok x l cq aq (cr + c) (ar + a)" and "c + a = 1"
  shows "handle_ok (x\<lparr>job_count := job_count x - 1, deleted := deleted x \<or> job_count x - 1 = 0\<rparr>) l cq aq cr ar"
    "\<not> deleted x"
proof -
  let ?p = "phase (debt x) (has_cb x) (length (outcomes x)) l cq aq"
  have n: "cq + aq + (cr + c) + (ar + a) = Suc (cq + aq + cr + ar)" using assms(2) by simp
  from assms(1) have ph: "?p (cr + c) (ar + a)" and hc: "handle_count x (Suc (cq + aq + cr + ar))"
    by (simp_all only: handle_ok_def n)
  have ph': "?p cr ar" by (rule phase_mono [OF ph])
  have "debt (x\<lparr>job_count := jc, deleted := d\<rparr>) = debt x" for jc d by (simp add: debt_def)
  with handle_count_dec [OF hc phase_bound [OF ph']] ph'
  show "handle_ok (x\<lparr>job_count := job_count x - 1, deleted := deleted x \<or> job_count x - 1 = 0\<rparr>) l cq aq cr ar"
    "\<not> deleted x"
    by (simp_all add: handle_ok_def)
qed

lemma cpp_inv_end:
  assumes inv: "cpp_inv s" and r: "running s = j # js"
  shows "cpp_inv (end_job s)"
proof -
  let ?h = "job_handle j"
  have h: "?h < length (hs s)" using cpp_invD(6) [OF inv, of j] r by simp
  have ok: "handle_ok (hs s ! ?h) (?h \<in> set (links s)) (ncall ?h (queue s)) (nabort ?h (queue s))
      (ncall ?h js + (if is_call ?h j then 1 else 0)) (nabort ?h js + (if is_abort ?h j then 1 else 0))"
    using cpp_invD(7) [OF inv h] r by (cases j) (simp_all add: handle_inv_def)
  have one: "(if is_call ?h j then 1 else 0) + (if is_abort ?h j then 1 else 0) = (1 :: nat)" by (cases j) auto
  have "handle_inv (end_job s) i" if "i < length (hs s)" for i
  proof (cases "i = ?h")
    case True
    with handle_ok_end(1) [OF ok one] h show ?thesis by (simp add: handle_inv_def end_job_sel [OF r])
  next
    case False
    then have "\<not> is_call i j" "\<not> is_abort i j" by (cases j; simp)+
    with False cpp_invD(7) [OF inv that] r show ?thesis by (simp add: handle_inv_def end_job_sel [OF r])
  qed
  moreover have "slots_inv (end_job s)"
    using cpp_invD(4) [OF inv] h
    by (intro slots_inv_cong [OF cpp_invD(3) [OF inv]]) (auto simp: end_job_sel [OF r] nth_list_update)
  ultimately show ?thesis using inv h r handle_ok_end(2) [OF ok one]
    by (auto simp: cpp_inv_def end_job_sel [OF r])
qed

lemma invoke_cb_sel:
  "hs (invoke_cb h ec s) = (hs s)[h := (hs s ! h)\<lparr>outcomes := outcomes (hs s ! h) @ [ec]\<rparr>]"
  "links (invoke_cb h ec s) = remove1 h (links s)"
  "slots (invoke_cb h ec s) = (slots s)(cancel_fn (hs s ! h) := Skip)"
  "queue (invoke_cb h ec s) = queue s" "running (invoke_cb h ec s) = running s"
  "faulty (invoke_cb h ec s) = faulty s"
  by (simp_all add: invoke_cb_def cpp_ops)

definition take_job :: "cpp \<Rightarrow> cpp" where
  "take_job s = s\<lparr>queue := tl (queue s), running := hd (queue s) # running s\<rparr>"

lemma take_job_sel [simp]:
  "hs (take_job s) = hs s" "links (take_job s) = links s" "slots (take_job s) = slots s"
  "queue (take_job s) = tl (queue s)" "running (take_job s) = hd (queue s) # running s"
  "faulty (take_job s) = faulty s"
  by (simp_all add: take_job_def)

text \<open>What a job finds: an abort finds the callback not yet called, and so does a result unless the call was cancelled.\<close>

lemma first_job:
  assumes inv: "cpp_inv s" and q: "queue s = j # js" and h: "h = job_handle j"
  shows "h < length (hs s)" "\<not> deleted (hs s ! h)"
    "begin_job s = (case j of
       CallJob _ err \<Rightarrow> (if has_cb (hs s ! h) then invoke_cb h (Answered err) (take_job s) else take_job s)
     | AbortJob _ \<Rightarrow> invoke_cb h Aborted (take_job s))"
proof -
  show len: "h < length (hs s)" using cpp_invD(5) [OF inv, of j] q h by simp
  have "0 < ncall h (queue s) + nabort h (queue s)" using q h by (cases j) auto
  then show del: "\<not> deleted (hs s ! h)"
    using cpp_invD(7) [OF inv len] by (auto simp: handle_inv_def handle_ok_def handle_count_def)
  have "check (\<not> deleted (hs s ! h)) (s\<lparr>queue := js, running := j # running s\<rparr>) = take_job s"
    using q del by (simp add: check_def take_job_def)
  with q h show "begin_job s = (case j of
       CallJob _ err \<Rightarrow> (if has_cb (hs s ! h) then invoke_cb h (Answered err) (take_job s) else take_job s)
     | AbortJob _ \<Rightarrow> invoke_cb h Aborted (take_job s))"
    by (cases j) (simp_all add: begin_job_def Let_def check_def)
qed

lemma phase_steps:
  "phase w True k l (Suc cq) aq cr ar \<Longrightarrow> l \<and> k = 0 \<and> phase w True 1 False cq aq (Suc cr) ar"
  "phase w False k l (Suc cq) aq cr ar \<Longrightarrow> phase w False k l cq aq (Suc cr) ar"
  "phase w cb k l cq (Suc aq) cr ar \<Longrightarrow> \<not> l \<and> k = 0 \<and> phase w cb 1 False cq aq cr (Suc ar)"
  by (auto simp: phase_def)

lemma handle_ok_steps:
  "handle_ok x l (Suc cq) aq cr ar \<Longrightarrow> has_cb x \<Longrightarrow>
     l \<and> outcomes x = [] \<and> handle_ok (x\<lparr>outcomes := outcomes x @ [r]\<rparr>) False cq aq (Suc cr) ar"
  "handle_ok x l (Suc cq) aq cr ar \<Longrightarrow> \<not> has_cb x \<Longrightarrow> handle_ok x l cq aq (Suc cr) ar"
  "handle_ok x l cq (Suc aq) cr ar \<Longrightarrow>
     \<not> l \<and> outcomes x = [] \<and> handle_ok (x\<lparr>outcomes := outcomes x @ [r]\<rparr>) False cq aq cr (Suc ar)"
proof -
  have "debt (x\<lparr>outcomes := outcomes x @ [r]\<rparr>) = debt x" by (simp add: debt_def)
  moreover have "handle_count (x\<lparr>outcomes := outcomes x @ [r]\<rparr>) n = handle_count x n" for n
    by (simp add: handle_count_def debt_def)
  ultimately show
    "handle_ok x l (Suc cq) aq cr ar \<Longrightarrow> has_cb x \<Longrightarrow>
       l \<and> outcomes x = [] \<and> handle_ok (x\<lparr>outcomes := outcomes x @ [r]\<rparr>) False cq aq (Suc cr) ar"
    "handle_ok x l cq (Suc aq) cr ar \<Longrightarrow>
       \<not> l \<and> outcomes x = [] \<and> handle_ok (x\<lparr>outcomes := outcomes x @ [r]\<rparr>) False cq aq cr (Suc ar)"
    using phase_steps(1) [of "debt x" "length (outcomes x)" l cq aq cr ar]
      phase_steps(3) [of "debt x" "has_cb x" "length (outcomes x)" l cq aq cr ar]
    by (simp_all add: handle_ok_def)
  show "handle_ok x l (Suc cq) aq cr ar \<Longrightarrow> \<not> has_cb x \<Longrightarrow> handle_ok x l cq aq (Suc cr) ar"
    using phase_steps(2) [of "debt x" "length (outcomes x)" l cq aq cr ar] by (simp add: handle_ok_def)
qed

lemma cpp_inv_invoke:
  assumes inv: "cpp_inv s" and q: "queue s = j # js" and h: "h = job_handle j"
    and o: "outcomes (hs s ! h) = []"
    and ok: "handle_ok ((hs s ! h)\<lparr>outcomes := [r]\<rparr>) False (ncall h js) (nabort h js)
      (ncall h (j # running s)) (nabort h (j # running s))"
  shows "cpp_inv (invoke_cb h r (take_job s))"
proof -
  note len = first_job(1) [OF inv q h]
  have "handle_inv (invoke_cb h r (take_job s)) i" if "i < length (hs s)" for i
  proof (cases "i = h")
    case True
    with ok o len q cpp_invD(2) [OF inv] show ?thesis by (simp add: handle_inv_def invoke_cb_sel)
  next
    case False
    then have "\<not> is_call i j" "\<not> is_abort i j" using h by (cases j; simp)+
    with False cpp_invD(7) [OF inv that] q show ?thesis by (simp add: handle_inv_def invoke_cb_sel)
  qed
  moreover have "slots_inv (invoke_cb h r (take_job s))"
    using o len by (intro slots_inv_unlink [OF inv len o])
      (auto simp: invoke_cb_sel nth_list_update split: if_splits)
  ultimately show ?thesis using inv q len h
    by (auto simp: cpp_inv_def invoke_cb_sel dest: in_set_remove1)
qed

lemma cpp_inv_take:
  assumes inv: "cpp_inv s" and q: "queue s = CallJob h err # js" and "\<not> has_cb (hs s ! h)"
  shows "cpp_inv (take_job s)"
proof -
  have "handle_inv (take_job s) i" if "i < length (hs s)" for i
    using cpp_invD(7) [OF inv that] q assms(3) handle_ok_steps(2)
    by (cases "i = h") (auto simp: handle_inv_def)
  moreover have "slots_inv (take_job s)"
    using cpp_invD(4) [OF inv] by (intro slots_inv_cong [OF cpp_invD(3) [OF inv]]) auto
  ultimately show ?thesis using inv q by (auto simp: cpp_inv_def)
qed

text \<open>The two ways a job can begin.\<close>

lemma begin_job_cases:
  assumes inv: "cpp_inv s" and "queue s \<noteq> []"
  obtains (result) h err where "has_cb (hs s ! h)" "h \<in> set (links s)" "begin_job s = invoke_cb h (Answered err) (take_job s)"
      "cpp_inv (begin_job s)"
  | (abort) h where "h < length (hs s)" "h \<notin> set (links s)" "outcomes (hs s ! h) = []"
      "begin_job s = invoke_cb h Aborted (take_job s)" "cpp_inv (begin_job s)"
  | (late) "begin_job s = take_job s" "cpp_inv (begin_job s)"
proof -
  obtain j js where q: "queue s = j # js" using assms(2) by (cases "queue s") auto
  define h where "h = job_handle j"
  note f = first_job [OF inv q h_def]
  have ok: "handle_ok (hs s ! h) (h \<in> set (links s)) (ncall h (j # js)) (nabort h (j # js))
      (ncall h (running s)) (nabort h (running s))"
    using cpp_invD(7) [OF inv f(1)] q by (simp add: handle_inv_def)
  show ?thesis
  proof (cases j)
    case (CallJob h' err)
    then have j: "j = CallJob h err" by (simp add: h_def)
    show ?thesis
    proof (cases "has_cb (hs s ! h)")
      case True
      with handle_ok_steps(1) [of "hs s ! h" "h \<in> set (links s)", OF _ True, of _ _ _ _ "Answered err"] ok j
      have s1: "h \<in> set (links s)" "outcomes (hs s ! h) = []"
        "handle_ok ((hs s ! h)\<lparr>outcomes := [Answered err]\<rparr>) False (ncall h js) (nabort h js)
          (ncall h (j # running s)) (nabort h (j # running s))" by fastforce+
      from f(3) j True have b: "begin_job s = invoke_cb h (Answered err) (take_job s)" by simp
      with cpp_inv_invoke [OF inv q h_def s1(2,3)] s1(1) True show ?thesis by (intro result) auto
    next
      case False
      from f(3) j False have b: "begin_job s = take_job s" by simp
      with cpp_inv_take [OF inv q [unfolded j] False] show ?thesis by (intro late) auto
    qed
  next
    case (AbortJob h')
    then have j: "j = AbortJob h" by (simp add: h_def)
    with handle_ok_steps(3) [of "hs s ! h" "h \<in> set (links s)" _ _ _ _ Aborted] ok
    have s1: "h \<notin> set (links s)" "outcomes (hs s ! h) = []"
      "handle_ok ((hs s ! h)\<lparr>outcomes := [Aborted]\<rparr>) False (ncall h js) (nabort h js)
          (ncall h (j # running s)) (nabort h (j # running s))" by fastforce+
    from f(3) j have b: "begin_job s = invoke_cb h Aborted (take_job s)" by simp
    with cpp_inv_invoke [OF inv q h_def s1(2,3)] s1(1,2) f(1) show ?thesis by (intro abort) auto
  qed
qed

inductive_cases cpp_stepE: "cpp_step s e t"

lemma cpp_inv_step:
  assumes "cpp_step s e t" and "cpp_inv s"
  shows "cpp_inv t"
  using assms
proof cases
  case begin_step
  from assms(2) this(3) show ?thesis unfolding begin_step(2) by (cases rule: begin_job_cases) auto
next
  case end_step
  then obtain j js where "running s = j # js" by (cases "running s") auto
  with assms(2) end_step show ?thesis by (auto intro: cpp_inv_end)
qed (use assms(2) in \<open>auto intro: cpp_inv_new cpp_inv_answer cpp_inv_call_slot cpp_inv_free_loop\<close>)

lemma cpp_inv_start: "cpp_inv cpp_start"
  by (simp add: cpp_inv_def cpp_start_def slots_inv_def)

interpretation cpp: inv_system "\<lambda>s. s = cpp_start" cpp_step cpp_inv
  by unfold_locales (auto intro: cpp_inv_start cpp_inv_step)

end
