(* ===== verification/Cpp_Requests.thy ===== *)
theory Cpp_Requests
  imports Cpp_Handles
begin

text \<open>
  What the handles of \<open>node.cpp\<close> promise to their caller: the contract of a request as a small abstract
  machine, the proof that the handles implement it in every run, and that \<open>node::free\<close> ends. A run is
  checked against the steps by \<open>cpp_play\<close>, which the examples use.
\<close>

section \<open>What a caller sees\<close>

text \<open>
  The contract is a machine over labels, the events a caller can observe of a request: that it was
  asked for, that it was cancelled, and what its callback was told. A request is pending until it is
  cancelled or answered; a cancelled one is told \<open>operation_aborted\<close> and nothing else, any other what
  the Go side answered, and a settled one is not heard of again.
\<close>

datatype request = Pending | Aborting | Settled result

datatype label = Asked nat | Cancelled nat | Told nat result

inductive spec_step :: "request list \<Rightarrow> label \<Rightarrow> request list \<Rightarrow> bool" where
  ask: "spec_step rs (Asked (length rs)) (rs @ [Pending])"
| abort: "i < length rs \<Longrightarrow> rs ! i = Pending \<Longrightarrow> spec_step rs (Cancelled i) (rs[i := Aborting])"
| settle: "i < length rs \<Longrightarrow> rs ! i = Pending \<Longrightarrow>
    spec_step rs (Told i (Answered c)) (rs[i := Settled (Answered c)])"
| give_up: "i < length rs \<Longrightarrow> rs ! i = Aborting \<Longrightarrow> spec_step rs (Told i Aborted) (rs[i := Settled Aborted])"

inductive labelled :: "('c \<Rightarrow> 'l \<Rightarrow> 'c \<Rightarrow> bool) \<Rightarrow> 'c \<Rightarrow> 'l list \<Rightarrow> 'c \<Rightarrow> bool" for spec where
  labelled_nil: "labelled spec a [] a"
| labelled_cons: "spec a l b \<Longrightarrow> labelled spec b ls c \<Longrightarrow> labelled spec a (l # ls) c"

lemma labelled_one: "spec a l b \<Longrightarrow> labelled spec a [l] b"
  by (blast intro: labelled.intros)

lemma labelled_append: "labelled spec a ls b \<Longrightarrow> labelled spec b ms c \<Longrightarrow> labelled spec a (ls @ ms) c"
  by (induction rule: labelled.induct) (auto intro: labelled.intros)

text \<open>
  A run of the implementation, with the labels that can be observed of its steps, and the contract of
  an implementation: the same labels, in the same order, are a run of the specification.
\<close>

locale refined_system = inv_system +
  fixes observe :: "'a \<Rightarrow> 'b \<Rightarrow> 'a \<Rightarrow> 'l list"
    and abs_of :: "'a \<Rightarrow> 'c"
    and spec :: "'c \<Rightarrow> 'l \<Rightarrow> 'c \<Rightarrow> bool"
  assumes simulates: "step s e t \<Longrightarrow> inv s \<Longrightarrow> labelled spec (abs_of s) (observe s e t) (abs_of t)"
begin

inductive traced :: "'a \<Rightarrow> 'b list \<Rightarrow> 'l list \<Rightarrow> 'a \<Rightarrow> bool" where
  traced_nil: "traced s [] [] s"
| traced_cons: "step s e t \<Longrightarrow> traced t es ls u \<Longrightarrow> traced s (e # es) (observe s e t @ ls) u"

lemma traced_run: "traced s es ls t \<Longrightarrow> run s es t"
  by (induction rule: traced.induct) (auto intro: run.intros)

lemma run_traced: "run s es t \<Longrightarrow> \<exists>ls. traced s es ls t"
  by (induction rule: run.induct) (auto intro: traced.intros)

lemma traced_simulates: "traced s es ls t \<Longrightarrow> inv s \<Longrightarrow> labelled spec (abs_of s) ls (abs_of t)"
  by (induction rule: traced.induct) (auto intro: labelled_nil labelled_append simulates inv_step)

end

text \<open>
  What is observed of the handles: a call makes the next handle, a \<open>Cancel\<close> object cancels the handle it
  is set to, \<open>free\<close> cancels the handles that are linked, and each call of a user's callback in a step
  tells its result.
\<close>

definition told :: "cpp \<Rightarrow> cpp \<Rightarrow> label list" where
  "told s t = concat (map (\<lambda>i. map (Told i)
     (drop (if i < length (hs s) then length (outcomes (hs s ! i)) else 0) (outcomes (hs t ! i)))) [0..<length (hs t)])"

fun commanded :: "cpp \<Rightarrow> cpp_event \<Rightarrow> label list" where
  "commanded s (Submit sig ext) = [Asked (length (hs s))]"
| "commanded s (CancelBy k) = (case slots s (Ext k) of Skip \<Rightarrow> [] | CancelHandle h \<Rightarrow> [Cancelled h])"
| "commanded s FreeAll = map Cancelled (links s)"
| "commanded s _ = []"

definition observed :: "cpp \<Rightarrow> cpp_event \<Rightarrow> cpp \<Rightarrow> label list" where
  "observed s e t = commanded s e @ told s t"

definition request_of :: "Handle \<Rightarrow> bool \<Rightarrow> request" where
  "request_of x linked =
     (case outcomes x of r # _ \<Rightarrow> Settled r | [] \<Rightarrow> if linked then Pending else Aborting)"

definition requests :: "cpp \<Rightarrow> request list" where
  "requests s = map (\<lambda>i. request_of (hs s ! i) (i \<in> set (links s))) [0..<length (hs s)]"

text \<open>In the specification the labels of one request are fixed by where it stands.\<close>

fun about :: "label \<Rightarrow> nat" where
  "about (Asked h) = h"
| "about (Cancelled h) = h"
| "about (Told h r) = h"

fun history :: "nat \<Rightarrow> request \<Rightarrow> label list" where
  "history h Pending = [Asked h]"
| "history h Aborting = [Asked h, Cancelled h]"
| "history h (Settled Aborted) = [Asked h, Cancelled h, Told h Aborted]"
| "history h (Settled (Answered c)) = [Asked h, Told h (Answered c)]"

definition story :: "nat \<Rightarrow> request list \<Rightarrow> label list" where
  "story h rs = (if h < length rs then history h (rs ! h) else [])"

lemma story_step: "spec_step rs l rs' \<Longrightarrow> story h rs' = story h rs @ (if about l = h then [l] else [])"
  by (induction rule: spec_step.induct) (auto simp: story_def nth_append nth_list_update less_Suc_eq)

lemma story_labelled:
  "labelled spec_step rs ls rs' \<Longrightarrow> story h rs' = story h rs @ filter (\<lambda>l. about l = h) ls"
  by (induction rule: labelled.induct) (simp_all add: story_step)

lemma length_requests [simp]: "length (requests s) = length (hs s)"
  by (simp add: requests_def)

lemma requests_nth [simp]: "i < length (hs s) \<Longrightarrow> requests s ! i = request_of (hs s ! i) (i \<in> set (links s))"
  by (simp add: requests_def)

lemma requests_eqI:
  assumes "length (hs t) = length (hs s)"
    and "\<And>i. i < length (hs s) \<Longrightarrow> request_of (hs t ! i) (i \<in> set (links t)) = requests s ! i"
  shows "requests t = requests s"
  using assms by (intro nth_equalityI) auto

lemma requests_updI:
  assumes "length (hs t) = length (hs s)" and "h < length (hs s)"
    and "request_of (hs t ! h) (h \<in> set (links t)) = r"
    and "\<And>i. i < length (hs s) \<Longrightarrow> i \<noteq> h \<Longrightarrow> hs t ! i = hs s ! i \<and> (i \<in> set (links t) \<longleftrightarrow> i \<in> set (links s))"
  shows "requests t = (requests s)[h := r]"
proof (intro nth_equalityI)
  fix i assume "i < length (requests t)"
  then show "requests t ! i = (requests s)[h := r] ! i"
    using assms by (cases "i = h") auto
qed (simp add: assms)

lemma requests_cancel:
  assumes "cpp_inv s" and "h \<in> set (links s)"
  shows "requests (cancel_lambda h s) = (requests s)[h := Aborting]" "requests s ! h = Pending"
proof -
  have h: "h < length (hs s)" by (rule cpp_invD(4) [OF assms])
  note l = linked_handle [OF assms] and d = cpp_invD(2) [OF assms(1)]
  show "requests (cancel_lambda h s) = (requests s)[h := Aborting]"
    using h l d by (intro requests_updI) (auto simp: cancel_lambda_sel request_of_def)
  show "requests s ! h = Pending" using h l assms(2) by (simp add: request_of_def)
qed

lemma concat_one:
  assumes "h < n" and "\<And>i. i < n \<Longrightarrow> i \<noteq> h \<Longrightarrow> f i = []"
  shows "concat (map f [0..<n]) = f h"
  using assms
proof (induction n)
  case (Suc n)
  have "concat (map f [0..<n]) = []" if "h = n" using Suc.prems(2) that by simp
  with Suc show ?case by (cases "h = n") (auto simp: less_Suc_eq)
qed simp

lemma told_none:
  assumes "\<And>i. i < length (hs t) \<Longrightarrow> outcomes (hs t ! i) = (if i < length (hs s) then outcomes (hs s ! i) else [])"
  shows "told s t = []"
  using assms by (simp add: told_def)

lemma told_one:
  assumes "length (hs t) = length (hs s)" and "h < length (hs s)"
    and "outcomes (hs t ! h) = outcomes (hs s ! h) @ [r]"
    and "\<And>i. i < length (hs s) \<Longrightarrow> i \<noteq> h \<Longrightarrow> outcomes (hs t ! i) = outcomes (hs s ! i)"
  shows "told s t = [Told h r]"
proof -
  have "told s t = map (Told h)
      (drop (if h < length (hs s) then length (outcomes (hs s ! h)) else 0) (outcomes (hs t ! h)))"
    unfolding told_def assms(1) using assms(2,4) by (intro concat_one) simp_all
  with assms(2,3) show ?thesis by simp
qed

lemma told_invoke:
  assumes "h < length (hs s)"
  shows "told s (invoke_cb h r (take_job s)) = [Told h r]"
  using assms by (intro told_one) (simp_all add: invoke_cb_sel)

lemma spec_cancel:
  assumes "cpp_inv s" and "h \<in> set (links s)"
  shows "spec_step (requests s) (Cancelled h) (requests (cancel_lambda h s))"
  using requests_cancel [OF assms] cpp_invD(4) [OF assms] by (auto intro: spec_step.abort)

lemma sim_cancel_by:
  assumes "cpp_inv s"
  shows "labelled spec_step (requests s) (observed s (CancelBy k) (call_slot (Ext k) s)) (requests (call_slot (Ext k) s))"
proof (cases "slots s (Ext k)")
  case Skip
  then show ?thesis by (simp add: observed_def call_slot_def told_none labelled_nil)
next
  case (CancelHandle h)
  with cpp_invD(3) [OF assms] have h: "h \<in> set (links s)" unfolding slots_inv_def by blast
  have "told s (cancel_lambda h s) = []"
    using cpp_invD(4) [OF assms h] by (intro told_none) (auto simp: cancel_lambda_sel(1) nth_list_update)
  with CancelHandle labelled_one [where spec = spec_step, OF spec_cancel [OF assms h]] show ?thesis
    by (simp add: observed_def call_slot_def)
qed

lemma sim_free_loop:
  assumes "free_loop s = Some t" and "cpp_inv s"
  shows "labelled spec_step (requests s) (map Cancelled (links s)) (requests t) \<and>
    map outcomes (hs t) = map outcomes (hs s)"
  using assms
proof (rule free_loop_induct [where P = "\<lambda>s t. labelled spec_step (requests s) (map Cancelled (links s)) (requests t) \<and>
    map outcomes (hs t) = map outcomes (hs s)"])
  fix s h t
  assume inv: "cpp_inv s" and h: "h \<in> set (links s)" and l: "links s = h # tl (links s)"
    and IH: "labelled spec_step (requests (cancel_lambda h s)) (map Cancelled (links (cancel_lambda h s))) (requests t) \<and>
      map outcomes (hs t) = map outcomes (hs (cancel_lambda h s))"
  have ln: "links (cancel_lambda h s) = tl (links s)" by (subst cancel_lambda_sel, subst l) simp
  have "map outcomes (hs (cancel_lambda h s)) = map outcomes (hs s)"
    using cpp_invD(4) [OF inv h] by (simp add: cancel_lambda_sel map_update list_update_same_conv)
  moreover have "labelled spec_step (requests s) (Cancelled h # map Cancelled (tl (links s))) (requests t)"
    using IH spec_cancel [OF inv h] unfolding ln by (blast intro: labelled_cons)
  ultimately show "labelled spec_step (requests s) (map Cancelled (links s)) (requests t) \<and>
      map outcomes (hs t) = map outcomes (hs s)"
    using IH l by (metis list.simps(9))
qed (simp add: labelled_nil)

lemma requests_new:
  assumes "cpp_inv s"
  shows "requests (new_Handle sig ext s) = requests s @ [Pending]"
  using cpp_invD(4) [OF assms]
  by (auto simp: requests_def new_Handle_sel nth_append request_of_def)

lemma requests_invoke:
  assumes "cpp_inv s" and "h < length (hs s)" and "outcomes (hs s ! h) = []"
  shows "requests (invoke_cb h r (take_job s)) = (requests s)[h := Settled r]"
  using assms(2,3) cpp_invD(2) [OF assms(1)]
  by (intro requests_updI) (auto simp: invoke_cb_sel request_of_def)

lemma sim_begin:
  assumes inv: "cpp_inv s" and "queue s \<noteq> []"
  shows "labelled spec_step (requests s) (told s (begin_job s)) (requests (begin_job s))"
  using assms
proof (cases rule: begin_job_cases)
  case (result h err)
  have h: "h < length (hs s)" by (rule cpp_invD(4) [OF inv result(2)])
  note o = linked_handle(4) [OF inv result(2)]
  have "spec_step (requests s) (Told h (Answered err)) ((requests s)[h := Settled (Answered err)])"
    using requests_cancel(2) [OF inv result(2)] h by (intro spec_step.settle) simp_all
  with requests_invoke [OF inv h o] told_invoke [OF h] result(3) show ?thesis
    by (auto intro: labelled_one)
next
  case (abort h)
  have "spec_step (requests s) (Told h Aborted) ((requests s)[h := Settled Aborted])"
    using abort by (intro spec_step.give_up) (simp_all add: request_of_def)
  with requests_invoke [OF inv abort(1,3)] told_invoke [OF abort(1)] abort(4) show ?thesis
    by (auto intro: labelled_one)
next
  case late
  have "told s (take_job s) = []" by (rule told_none) simp
  with late(1) have "requests (begin_job s) = requests s" "told s (begin_job s) = []"
    by (simp_all add: requests_def)
  then show ?thesis by (simp add: labelled_nil)
qed

lemma cpp_simulates:
  "cpp_step s e t \<Longrightarrow> cpp_inv s \<Longrightarrow> labelled spec_step (requests s) (observed s e t) (requests t)"
proof (induction rule: cpp_step.induct)
  case (submit ext s sig)
  have "told s (new_Handle sig ext s) = []" by (rule told_none) (simp add: new_Handle_sel nth_append)
  with submit spec_step.ask [of "requests s"] show ?case
    by (simp add: observed_def requests_new labelled_one)
next
  case (answer h s err)
  then have "requests (Handle_call err h s) = requests s"
    by (intro requests_eqI) (auto simp: Handle_call_sel nth_list_update request_of_def)
  moreover have "told s (Handle_call err h s) = []"
    using answer(1) by (intro told_none) (auto simp: Handle_call_sel nth_list_update)
  ultimately show ?case by (simp add: observed_def labelled_nil)
next
  case (cancel_by s k)
  then show ?case by (rule_tac sim_cancel_by)
next
  case (begin_step s)
  then show ?case using sim_begin by (simp add: observed_def)
next
  case (end_step s)
  then obtain j js where r: "running s = j # js" by (cases "running s") auto
  then have "requests (end_job s) = requests s"
    using cpp_invD(6) [OF end_step.prems, of j]
    by (intro requests_eqI) (auto simp: end_job_sel [OF r] nth_list_update request_of_def)
  moreover have "told s (end_job s) = []"
    using cpp_invD(6) [OF end_step.prems, of j] r
    by (intro told_none) (auto simp: end_job_sel [OF r] nth_list_update)
  ultimately show ?case by (simp add: observed_def labelled_nil)
next
  case (free_all s t)
  note f = sim_free_loop [OF free_all]
  then have "length (hs t) = length (hs s)" by (metis length_map)
  with f have "told s t = []" by (intro told_none) (metis nth_map)
  with f show ?case by (simp add: observed_def)
qed

interpretation cpp_spec: refined_system "\<lambda>s. s = cpp_start" cpp_step cpp_inv observed requests spec_step
  by unfold_locales (rule cpp_simulates)

section \<open>Properties\<close>

text \<open>
  C16: In every run of calls, answers, cancellations, jobs and frees, what a caller observes is a run
  of the contract: the labels of a handle are that it was asked for, then either that it was
  cancelled and told \<open>operation_aborted\<close>, in this order, or that it was told the answer of the Go side,
  up to the point the handle has reached, and there is no other label: no second result, no answer
  after a cancellation, no \<open>operation_aborted\<close> without one.
\<close>

theorem requests_refine_contract:
  assumes "cpp_spec.traced cpp_start es ls t"
  shows "labelled spec_step [] ls (requests t) \<and>
    (\<forall>h. filter (\<lambda>l. about l = h) ls = (if h < length (hs t) then history h (requests t ! h) else []))"
proof -
  have l: "labelled spec_step [] ls (requests t)"
    using cpp_spec.traced_simulates [OF assms cpp_inv_start] by (simp add: requests_def cpp_start_def)
  show ?thesis using story_labelled [OF l] l by (simp add: story_def)
qed

text \<open>
  A call that is cancelled while its answer is already posted, and one that is answered.
\<close>

definition demo_events :: "cpp_event list" where
  "demo_events = [Submit (Some 7) (Some 0), Submit (Some 8) None, Answer 0 (0, ''x''), CancelBy 0, Answer 1 (3, []),
     BeginJob, EndJob, BeginJob, EndJob, BeginJob, EndJob]"

fun cpp_exec :: "cpp_event \<Rightarrow> cpp \<Rightarrow> cpp option" where
  "cpp_exec (Submit sig ext) s = (if slot_unused ext s then Some (new_Handle sig ext s) else None)"
| "cpp_exec (Answer h err) s = (if h < length (hs s) \<and> awaited (hs s ! h) then Some (Handle_call err h s) else None)"
| "cpp_exec (CancelBy k) s = Some (call_slot (Ext k) s)"
| "cpp_exec BeginJob s = (if queue s \<noteq> [] then Some (begin_job s) else None)"
| "cpp_exec EndJob s = (if running s \<noteq> [] then Some (end_job s) else None)"
| "cpp_exec FreeAll s = free_loop s"

fun cpp_play :: "cpp_event list \<Rightarrow> cpp \<Rightarrow> cpp option" where
  "cpp_play [] s = Some s"
| "cpp_play (e # es) s = (case cpp_exec e s of None \<Rightarrow> None | Some t \<Rightarrow> cpp_play es t)"

lemma cpp_exec_step: "cpp_exec e s = Some t \<Longrightarrow> cpp_step s e t"
  by (cases e) (auto intro: cpp_step.intros split: if_splits)

lemma cpp_play_run: "cpp_play es s = Some t \<Longrightarrow> cpp.run s es t"
  by (induction es s rule: cpp_play.induct)
     (auto intro: cpp.run_nil cpp.run_cons cpp_exec_step split: option.splits)

definition played :: "cpp_event list \<Rightarrow> cpp" where
  "played es = (case cpp_play es cpp_start of Some t \<Rightarrow> t | None \<Rightarrow> cpp_start)"

lemma played_run: "cpp_play es cpp_start \<noteq> None \<Longrightarrow> cpp.run cpp_start es (played es)"
  by (auto simp: played_def intro: cpp_play_run)

text \<open>The labels of a run that is played.\<close>

fun cpp_labels :: "cpp_event list \<Rightarrow> cpp \<Rightarrow> label list" where
  "cpp_labels [] s = []"
| "cpp_labels (e # es) s = (case cpp_exec e s of None \<Rightarrow> [] | Some t \<Rightarrow> observed s e t @ cpp_labels es t)"

lemma cpp_play_traced: "cpp_play es s = Some t \<Longrightarrow> cpp_spec.traced s es (cpp_labels es s) t"
  by (induction es s rule: cpp_play.induct)
     (auto intro: cpp_spec.traced.intros cpp_exec_step split: option.splits)

lemma demo_run: "cpp.run cpp_start demo_events (played demo_events)"
  by (rule played_run) code_simp

theorem requests_refine_contract_witness:
  "filter (\<lambda>l. about l = 0) (cpp_labels demo_events cpp_start) = [Asked 0, Cancelled 0, Told 0 Aborted] \<and>
   filter (\<lambda>l. about l = 1) (cpp_labels demo_events cpp_start) = [Asked 1, Told 1 (Answered (3, []))]"
proof -
  have r: "requests (played demo_events) = [Settled Aborted, Settled (Answered (3, []))]"
    "length (hs (played demo_events)) = 2" by code_simp+
  have "cpp_play demo_events cpp_start \<noteq> None" by code_simp
  then have "cpp_spec.traced cpp_start demo_events (cpp_labels demo_events cpp_start) (played demo_events)"
    by (auto simp: played_def intro: cpp_play_traced)
  from requests_refine_contract [OF this] r show ?thesis by (simp del: requests_nth)
qed

lemma phase_outcomes:
  "phase w cb k l cq aq cr ar \<Longrightarrow> k \<le> 1"
  "phase 0 cb k l 0 0 0 0 \<Longrightarrow> k = 1"
  by (auto simp: phase_def)

lemma handle_outcomes:
  assumes "cpp_inv t" and "i < length (hs t)"
  shows "length (outcomes (hs t ! i)) \<le> 1"
    "awaited (hs t ! i) \<Longrightarrow> \<not> deleted (hs t ! i)"
    "\<not> awaited (hs t ! i) \<Longrightarrow> queue t = [] \<Longrightarrow> running t = [] \<Longrightarrow>
      length (outcomes (hs t ! i)) = 1 \<and> deleted (hs t ! i)"
proof -
  let ?x = "hs t ! i"
  have ph: "phase (debt ?x) (has_cb ?x) (length (outcomes ?x)) (i \<in> set (links t)) (ncall i (queue t))
      (nabort i (queue t)) (ncall i (running t)) (nabort i (running t))"
    and hc: "handle_count ?x (ncall i (queue t) + nabort i (queue t) + ncall i (running t) + nabort i (running t))"
    using cpp_invD(7) [OF assms] unfolding handle_inv_def handle_ok_def by blast+
  show "length (outcomes ?x) \<le> 1" by (rule phase_outcomes(1) [OF ph])
  show "awaited ?x \<Longrightarrow> \<not> deleted ?x" using hc by (simp add: debt_def handle_count_def)
  assume a: "\<not> awaited ?x" "queue t = []" "running t = []"
  then have "length (outcomes ?x) = 1" using ph by (intro phase_outcomes(2)) (simp add: debt_def)
  with a hc show "length (outcomes ?x) = 1 \<and> deleted ?x" by (simp add: debt_def handle_count_def)
qed

text \<open>
  In every run no deleted handle is used and no assertion fails, the user's callback is called at most
  once per call, and when the Go side has answered and no job is left it has been called exactly
  once and the handle is deleted.
\<close>

theorem callback_called_once:
  assumes "cpp.run cpp_start es t"
  shows "\<not> faulty t \<and> (\<forall>x \<in> set (hs t). length (outcomes x) \<le> 1 \<and>
    (\<not> awaited x \<and> queue t = [] \<and> running t = [] \<longrightarrow> length (outcomes x) = 1 \<and> deleted x))"
proof -
  have inv: "cpp_inv t" using cpp.run_inv [OF assms cpp_inv_start] .
  with cpp_invD(1) [OF inv] handle_outcomes(1,3) [OF inv] show ?thesis by (auto simp: in_set_conv_nth)
qed

theorem callback_called_once_witness:
  "\<not> faulty (played demo_events) \<and> map outcomes (hs (played demo_events)) = [[Aborted], [Answered (3, [])]] \<and>
   list_all deleted (hs (played demo_events))"
proof -
  have "queue (played demo_events) = []" "running (played demo_events) = []"
    "list_all (\<lambda>x. \<not> awaited x) (hs (played demo_events))"
    "map outcomes (hs (played demo_events)) = [[Aborted], [Answered (3, [])]]"
    by code_simp+
  with callback_called_once [OF demo_run] show ?thesis by (auto simp: list_all_iff)
qed

lemma request_pending_iff:
  assumes "cpp_inv s" and "i < length (hs s)"
  shows "requests s ! i = Pending \<longleftrightarrow> i \<in> set (links s)"
  using assms linked_handle(4) [OF assms(1), of i] by (auto simp: request_of_def split: list.splits)

lemma cancel_lambda_events:
  "go_events (cancel_lambda h s) =
     go_events s @ (case cancel_signal_id (hs s ! h) of None \<Rightarrow> [] | Some n \<Rightarrow> [GoCancel n])"
  by (simp add: cancel_lambda_def cpp_ops tell_go_def split: option.split)

definition freed :: "cpp \<Rightarrow> cpp \<Rightarrow> bool" where
  "freed s t \<longleftrightarrow> links t = [] \<and> length (hs t) = length (hs s) \<and> set (go_events s) \<subseteq> set (go_events t) \<and>
     (\<forall>i < length (hs s).
        requests t ! i = (if requests s ! i = Pending then Aborting else requests s ! i) \<and>
        cancel_signal_id (hs t ! i) = cancel_signal_id (hs s ! i) \<and>
        (\<forall>n. requests s ! i = Pending \<and> cancel_signal_id (hs s ! i) = Some n \<longrightarrow> GoCancel n \<in> set (go_events t)))"

lemma free_loop_freed: "free_loop s = Some t \<Longrightarrow> cpp_inv s \<Longrightarrow> freed s t"
proof (rule free_loop_induct [where P = freed])
  fix s assume "cpp_inv s" "links s = []"
  then show "freed s s" by (auto simp: freed_def request_of_def split: list.splits)
next
  fix s h t assume inv: "cpp_inv s" and h: "h \<in> set (links s)" and f: "freed (cancel_lambda h s) t"
  have len: "h < length (hs s)" by (rule cpp_invD(4) [OF inv h])
  note r = requests_cancel [OF inv h]
  have "cancel_signal_id (hs (cancel_lambda h s) ! i) = cancel_signal_id (hs s ! i)" for i
    using len by (cases "i = h") (simp_all add: cancel_lambda_sel)
  then show "freed s t"
    using f r len unfolding freed_def
    by (auto simp: cancel_lambda_sel(1) cancel_lambda_events nth_list_update simp del: requests_nth split: if_splits)
qed

definition demo_pending :: "cpp_event list" where
  "demo_pending = [Submit (Some 7) (Some 0), Submit (Some 8) None, Answer 1 (3, []), BeginJob, Submit (Some 9) None]"

text \<open>
  A handle that is linked while no slot is set to it is never taken off the list by \<open>free\<close>.
\<close>

lemma free_loop_stuck:
  assumes "h \<in> set (links s)" and "\<And>sl. slots s sl \<noteq> CancelHandle h"
  shows "free_loop s = None"
proof -
  define lost where "lost x \<longleftrightarrow> h \<in> set (links x) \<and> (\<forall>sl. slots x sl \<noteq> CancelHandle h)" for x :: cpp
  have front: "lost (cancel_front x)" if "lost x" for x
  proof -
    have c: "lost (cancel_lambda h' x)" if "h' \<noteq> h" for h'
    proof -
      have "slots (cancel_lambda h' x) = (slots x)(cancel_fn (hs (cancel_lambda h' x) ! h') := Skip)"
        by (simp add: cancel_lambda_def cpp_ops)
      with \<open>lost x\<close> that show ?thesis by (simp add: lost_def cancel_lambda_sel(2))
    qed
    have "lost (call_slot sl x)" for sl
    proof (cases "slots x sl")
      case (CancelHandle h')
      with \<open>lost x\<close> have "h' \<noteq> h" by (auto simp: lost_def)
      with c CancelHandle show ?thesis by (simp add: call_slot_def)
    qed (use \<open>lost x\<close> in \<open>simp add: call_slot_def\<close>)
    with \<open>lost x\<close> show ?thesis by (simp add: cancel_front_def split: list.split)
  qed
  have "\<not> lost x" if "free_loop x = Some y" for x y
    using that
  proof (rule free_loop.raw_induct [where P = "\<lambda>x y. \<not> lost x", rotated])
    fix f x y
    assume "\<And>x y. f x = Some y \<Longrightarrow> \<not> lost x" and "(if links x = [] then Some x else f (cancel_front x)) = Some y"
    moreover have "links x \<noteq> []" if "lost x" using that by (auto simp: lost_def)
    ultimately show "\<not> lost x" using front [of x] by (metis (full_types))
  qed
  moreover have "lost s" using assms by (simp add: lost_def)
  ultimately show ?thesis by (cases "free_loop s") auto
qed

text \<open>
  A \<open>Cancel\<close> object that is given to a second call before the abort of the first has run: the abort
  empties the object, and with it the function the second handle would be cancelled by.
\<close>

definition reuse_cancel :: "u64 option \<Rightarrow> u64 option \<Rightarrow> nat \<Rightarrow> cpp \<Rightarrow> cpp" where
  "reuse_cancel sig1 sig2 k s =
     end_job (begin_job (new_Handle sig2 (Some k) (call_slot (Ext k) (new_Handle sig1 (Some k) s))))"

text \<open>
  C39: In any state a program can reach, with no job posted, let a call be made with a \<open>Cancel\<close> object
  that is free, be cancelled by it, and the object be given to a second call before the asio thread
  runs the abort. Then the first call is told \<open>operation_aborted\<close>, but the second is pending and can no
  longer be cancelled, by the object or by \<open>free\<close>, and the loop of \<open>node::free\<close> does not end.
\<close>

theorem reused_cancel_hangs_free:
  assumes "cpp.run cpp_start es s" and "slot_unused (Some k) s" and "queue s = []"
  shows "free_loop (reuse_cancel sig1 sig2 k s) = None \<and>
    call_slot (Ext k) (reuse_cancel sig1 sig2 k s) = reuse_cancel sig1 sig2 k s \<and>
    requests (reuse_cancel sig1 sig2 k s) ! length (hs s) = Settled Aborted \<and>
    requests (reuse_cancel sig1 sig2 k s) ! Suc (length (hs s)) = Pending"
proof -
  let ?n = "length (hs s)" and ?u = "reuse_cancel sig1 sig2 k s"
  define s1 where "s1 = new_Handle sig1 (Some k) s"
  define s3 where "s3 = new_Handle sig2 (Some k) (cancel_lambda ?n s1)"
  have inv: "cpp_inv s" using cpp.run_inv [OF assms(1) cpp_inv_start] .
  have n: "?n \<notin> set (links s)" "Suc ?n \<notin> set (links s)"
    using cpp_invD(4) [OF inv, of ?n] cpp_invD(4) [OF inv, of "Suc ?n"] by auto
  have sl: "slots s l \<noteq> CancelHandle (Suc ?n)" for l
    using cpp_invD(3) [OF inv] n unfolding slots_inv_def by blast
  have s1: "call_slot (Ext k) s1 = cancel_lambda ?n s1" by (simp add: s1_def call_slot_def new_Handle_sel)
  have s3: "queue s3 = [AbortJob ?n]" "links s3 = links s @ [Suc ?n]" "cancel_fn (hs s3 ! ?n) = Ext k"
    "length (hs s3) = Suc (Suc ?n)" "outcomes (hs s3 ! ?n) = []" "outcomes (hs s3 ! Suc ?n) = []"
    "slots s3 = (slots s)(Ext k := CancelHandle (Suc ?n))"
    using n assms(3)
    by (simp_all add: s3_def s1_def new_Handle_sel cancel_lambda_sel remove1_append nth_append)
  have u: "?u = end_job (begin_job s3)" by (simp add: reuse_cancel_def s3_def s1 flip: s1_def)
  have v: "links ?u = links s @ [Suc ?n]" "slots ?u = (slots s)(Ext k := Skip)" "length (hs ?u) = Suc (Suc ?n)"
    "outcomes (hs ?u ! ?n) = [Aborted]" "outcomes (hs ?u ! Suc ?n) = []"
    using n s3 unfolding u
    by (simp_all add: begin_job_def end_job_def invoke_cb_sel cpp_ops remove1_append remove1_idem)
  have "free_loop ?u = None"
    by (rule free_loop_stuck [of "Suc ?n"]) (use v sl in auto)
  moreover have "call_slot (Ext k) ?u = ?u" by (simp add: call_slot_def v(2))
  ultimately show ?thesis using v n by (simp add: request_of_def)
qed

theorem reused_cancel_hangs_free_witness:
  "free_loop (reuse_cancel (Some 7) (Some 8) 0 (played [Submit (Some 6) None])) = None"
proof -
  have "cpp.run cpp_start [Submit (Some 6) None] (played [Submit (Some 6) None])" by (rule played_run) code_simp
  moreover have "slot_unused (Some 0) (played [Submit (Some 6) None])" "queue (played [Submit (Some 6) None]) = []"
    by code_simp+
  ultimately show ?thesis using reused_cancel_hangs_free by blast
qed

end
