(* ===== verification/Cpp_Node.thy ===== *)
theory Cpp_Node
  imports Node_Props Cpp_Requests
begin

text \<open>
  The class \<open>asio_ipfs::node\<close> (\<open>node.cpp\<close>) over both sides: the constructor, \<open>free\<close> and \<open>id\<close>. A node object
  is its \<open>_impl\<close>, the state of its handles or nothing; the Go side is the process state. An exception
  is its message. What the handles tell the Go side is kept in \<open>go_events\<close> and carried out here.
\<close>

section \<open>Operations\<close>

fun tell :: "go_event \<Rightarrow> 'w proc \<Rightarrow> 'w proc" where
  "tell (GoCancel n) s = go_asio_ipfs_cancel n s"
| "tell (GoFree n) s = go_asio_ipfs_cancellation_free n s"

definition node_ctor ::
  "((bytes \<times> json) list \<Rightarrow> string) \<Rightarrow> ('w, 'z) node_lib_scheme \<Rightarrow> config \<Rightarrow> cptr \<Rightarrow> cptr \<Rightarrow> 'w proc \<Rightarrow>
   ((string + cpp option) \<times> 'w proc) outcome" where
  "node_ctor dump lib cfg scb impl s =
     (case config_to_json dump cfg of
        Inl msg \<Rightarrow> Ret (Inl msg, s)
      | Inr cfg_s \<Rightarrow>
          bind_outcome
            (go_asio_ipfs_start_blocking lib (cfg_s @ [CHR 0x00]) (repo_root cfg @ [CHR 0x00]) scb impl s)
            (\<lambda>(ec, s). Ret (if ec \<noteq> IPFS_SUCCESS then Inl (ec_message (make_error_code (code_num ec))) else Inr (Some cpp_start), s)))"

text \<open>
  \<open>free\<close> gives the exception if there is one, what is left of the object, and the process; \<open>None\<close> if its
  loop does not end.
\<close>

definition node_free ::
  "('w, 'z) node_lib_scheme \<Rightarrow> cpp option \<Rightarrow> 'w proc \<Rightarrow> (string option \<times> cpp option \<times> 'w proc) option" where
  "node_free lib impl s =
     (case impl of
        None \<Rightarrow> Some (None, None, s)
      | Some c \<Rightarrow>
          (case free_loop c of
             None \<Rightarrow> None
           | Some c' \<Rightarrow>
               (case go_asio_ipfs_free lib (fold tell (drop (length (go_events c)) (go_events c')) s) of
                  (ec, s) \<Rightarrow>
                    Some (if ec \<noteq> IPFS_SUCCESS then (Some (ec_message (make_error_code (code_num ec))), Some c', s)
                          else (None, None, s)))))"

section \<open>Facts\<close>

lemmas error_text_defs = ec_message_def make_error_code_def message_def

text \<open>The loop of \<open>free\<close> only cancels, and cancelling leaves the node as it is.\<close>

lemma free_loop_events:
  "free_loop c = Some c' \<Longrightarrow> cpp_inv c \<Longrightarrow> \<exists>ns. go_events c' = go_events c @ map GoCancel ns"
proof (rule free_loop_induct [where P = "\<lambda>s t. \<exists>ns. go_events t = go_events s @ map GoCancel ns"])
  fix s h t
  assume "\<exists>ns. go_events t = go_events (cancel_lambda h s) @ map GoCancel ns"
  then obtain ns where "go_events t = go_events (cancel_lambda h s) @ map GoCancel ns" ..
  then show "\<exists>ns. go_events t = go_events s @ map GoCancel ns"
    by (cases "cancel_signal_id (hs s ! h)")
       (auto simp: cancel_lambda_events intro: exI [of _ ns] exI [of _ "_ # ns"])
qed auto

lemma fold_cancel_live:
  "live_proc s \<Longrightarrow> live_proc (fold tell (map GoCancel ns) s) \<and> cur (fold tell (map GoCancel ns) s) = cur s"
  by (induction ns arbitrary: s) (auto simp: cancel_live(2,3))

lemma start_blocking_failed:
  assumes "g_node s = None" and "go_asio_ipfs_start_blocking lib c_cfg c_repo scb arg s = Ret (ec, t)"
  shows "g_node t = Some (length (nodes s))"
proof -
  have "start_node lib (c_str c_cfg) (length (nodes s)) (c_str c_repo) (snd (allocate_node scb arg s)) = Ret (ec, t)"
    using assms by (simp add: start_blocking_new)
  with start_node_frame [OF this] allocate_node_new [OF assms(1)] show ?thesis
    by (auto simp: start_frame_def)
qed

text \<open>A node that was constructed calls back to the function and the object it was given.\<close>

lemma node_ctor_callback:
  assumes "g_node s = None" and "node_ctor dump lib cfg scb impl s = Ret (Inr obj, t)"
  shows "g_node t = Some (length (nodes s))" "state_cb (nodes t ! length (nodes s)) = scb"
    "state_cb_arg (nodes t ! length (nodes s)) = impl"
proof -
  let ?n = "length (nodes s)"
  from assms(2) obtain c_cfg c_repo ec where b: "go_asio_ipfs_start_blocking lib c_cfg c_repo scb impl s = Ret (ec, t)"
    by (auto simp: node_ctor_def split: sum.splits outcome.splits prod.splits if_splits)
  show "g_node t = Some ?n" by (rule start_blocking_failed [OF assms(1) b])
  have "start_node lib (c_str c_cfg) ?n (c_str c_repo) (snd (allocate_node scb impl s)) = Ret (ec, t)"
    using b assms(1) by (simp add: start_blocking_new)
  from start_node_frame [OF this] have "same_identity (nodes (snd (allocate_node scb impl s)) ! ?n) (nodes t ! ?n)"
    using allocate_node_new(3) [OF assms(1)] by (simp add: start_frame_def)
  then show "state_cb (nodes t ! ?n) = scb" "state_cb_arg (nodes t ! ?n) = impl"
    using allocate_node_new(4) [OF assms(1)] by (simp_all add: same_identity_def)
qed

section \<open>Properties\<close>

text \<open>
  C7: A constructor that throws because the start failed makes every later constructor throw: the Go side
  keeps the half-started node, and as there is no object there is nothing to call \<open>free\<close> on. Only a
  configuration without bootstrap addresses is refused before the Go side is asked.
\<close>

theorem failed_constructor_blocks_all:
  assumes "g_node s = None" and "bootstrap cfg \<noteq> []" and "node_ctor dump lib cfg scb impl s = Ret (Inl msg, t)"
    and "bootstrap cfg' \<noteq> []"
  shows "node_ctor dump lib cfg' scb' impl' t = Ret (Inl ''node aleady exists'', t)"
proof -
  from assms(2,3) obtain ec where
    "go_asio_ipfs_start_blocking lib (dump (config_members cfg) @ [CHR 0x00]) (repo_root cfg @ [CHR 0x00]) scb impl s
      = Ret (ec, t)"
    by (auto simp: node_ctor_def config_to_json_def)
  from start_blocking_failed [OF assms(1) this] assms(4) show ?thesis
    by (simp add: node_ctor_def config_to_json_def start_blocking_exists error_text_defs)
qed

definition demo_cfg :: config where
  "demo_cfg = config_defaults\<lparr>repo_root := ''/home/r'', bootstrap := [''peer1''], swarm_key := ''key''\<rparr>"

theorem failed_constructor_blocks_all_witness:
  "\<exists>t. node_ctor (\<lambda>_. ''?'') demo_node_lib demo_cfg (Some 1) (Some 2) demo_init =
       Ret (Inl ''failed to parse IPFS config'', t) \<and>
     node_ctor (\<lambda>_. ''?'') demo_node_lib demo_cfg (Some 1) (Some 2) t = Ret (Inl ''node aleady exists'', t)"
proof -
  have "case node_ctor (\<lambda>_. ''?'') demo_node_lib demo_cfg (Some 1) (Some 2) demo_init of
      Ret (Inl msg, t) \<Rightarrow> msg = ''failed to parse IPFS config'' | _ \<Rightarrow> False"
    by code_simp
  then obtain t where r: "node_ctor (\<lambda>_. ''?'') demo_node_lib demo_cfg (Some 1) (Some 2) demo_init =
      Ret (Inl ''failed to parse IPFS config'', t)"
    by (auto split: outcome.splits prod.splits sum.splits)
  have "g_node demo_init = None" "bootstrap demo_cfg \<noteq> []"
    by (simp_all add: demo_init_def init_proc_def demo_cfg_def)
  from failed_constructor_blocks_all [OF this r this(2), of "Some 1" "Some 2"] r show ?thesis by blast
qed

text \<open>
  C15: \<open>free\<close> of a node, in any reachable state of its calls, returns without an exception and leaves the
  object empty: every call that was pending is being aborted, the Go side has no node any more and
  its context and the contexts of the registered calls are cancelled, and a second \<open>free\<close> does nothing.
\<close>

theorem free_ends_node:
  assumes "cpp.run cpp_start es c" and "live_proc s"
  shows "\<exists>c' t. free_loop c = Some c' \<and> freed c c' \<and> node_free lib (Some c) s = Some (None, None, t) \<and>
    g_node t = None \<and> ctx_done (ctxs t) (ctx (cur s)) \<and>
    (\<forall>k c. cancel_signals (cur s) k = Some c \<longrightarrow> ctx_done (ctxs t) c) \<and>
    node_free lib None t = Some (None, None, t)"
proof -
  have inv: "cpp_inv c" using cpp.run_inv [OF assms(1) cpp_inv_start] .
  from free_loop_ends [OF inv] obtain c' where c': "free_loop c = Some c'" by blast
  define s1 where "s1 = fold tell (drop (length (go_events c)) (go_events c')) s"
  from free_loop_events [OF c' inv] obtain ns where "go_events c' = go_events c @ map GoCancel ns" ..
  with fold_cancel_live [OF assms(2), of ns] have live: "live_proc s1" "cur s1 = cur s"
    by (simp_all add: s1_def)
  then obtain n where n: "g_node s1 = Some n" by (auto simp: live_proc_def)
  let ?t = "snd (go_asio_ipfs_free lib s1)"
  note f = free_eq [OF n, of lib]
  have "node_wf (ctxs s1) (nodes s1 ! n)" using live(1) n by (simp add: live_proc_def proc_wf_def)
  with live n have wf: "ctx_wf (ctxs s1)" "node_wf (ctxs s1) (cur s)"
    by (simp_all add: live_proc_def proc_wf_def flip: live(2)) (simp add: cur_def)
  have cs: "ctxs ?t = cancel_ctx (ctx (cur s)) (ctxs s1)"
    using f(3) wf(2) live(2) n by (simp add: node_wf_def cur_def)
  have "ctx_done (ctxs ?t) (ctx (cur s))" unfolding cs using ctxp.kill_self wf(2) by (auto simp: node_wf_def)
  moreover have "ctx_done (ctxs ?t) x" if "cancel_signals (cur s) k = Some x" for k x
    using ctxp.kill_root_reaches [OF wf(1), of "ctx (cur s)" x] wf(2) that
    unfolding cs by (auto simp: node_wf_def)
  moreover have "node_free lib (Some c) s = Some (None, None, ?t)"
    using f(1) c' by (auto simp: node_free_def s1_def split: prod.split)
  moreover have "node_free lib None ?t = Some (None, None, ?t)" by (simp add: node_free_def)
  ultimately show ?thesis using c' free_loop_freed [OF c' inv] f(2) by blast
qed

theorem free_ends_node_witness:
  "\<exists>t. node_free demo_node_lib (Some (played demo_pending)) demo_called = Some (None, None, t) \<and>
     g_node t = None \<and> ctx_done (ctxs t) 1"
proof -
  have run: "cpp.run cpp_start demo_pending (played demo_pending)" by (rule played_run) code_simp
  have live: "live_proc demo_called" using demo_called_wf by (auto simp: live_proc_def)
  have "cancel_signals (cur demo_called) 0 = Some 1" using demo_called_wf by (simp add: cur_def)
  with free_ends_node [OF run live, of demo_node_lib] show ?thesis by blast
qed

end
