(* ===== verification/Cpp_System.thy ===== *)
theory Cpp_System
  imports Api_System Cpp_Node
begin

text \<open>
  Both languages as one system: the methods of \<open>asio_ipfs::node\<close> (\<open>node.cpp\<close>) with \<open>call_ipfs\<close>, the
  goroutines of the Go side, the callbacks they make into the handles, and the asio thread. The
  properties are about every interleaving of the program, the goroutines and the asio thread.
\<close>

section \<open>The methods of the node\<close>

definition CID_SIZE :: nat where
  "CID_SIZE = 46"

text \<open>
  What a method asks of the Go side; \<open>None\<close> is a failed \<open>assert\<close>. The \<open>data\<close> of a \<open>std::string\<close> ends with
  a zero byte. The lifetime is given in nanoseconds and cut to whole seconds, towards zero.
\<close>

datatype node_call =
    NPublish string "64 word"
  | NAdd bytes u64 bool
  | NCalcCid bytes u64
  | NCat string
  | NPin string
  | NUnpin string
  | NGC

definition seconds_of :: "64 word \<Rightarrow> 64 word" where
  "seconds_of d = word_of_int (sgn (sint d) * (\<bar>sint d\<bar> div 1000000000))"

fun operation_of :: "node_call \<Rightarrow> operation option" where
  "operation_of (NPublish cid d) =
     (if length cid = CID_SIZE then Some (OpPublish (cid @ [CHR 0x00]) (seconds_of d)) else None)"
| "operation_of (NAdd buf sz p) = Some (OpAdd buf sz p)"
| "operation_of (NCalcCid buf sz) = Some (OpCalcCid buf sz)"
| "operation_of (NCat cid) = (if length cid = CID_SIZE then Some (OpCat (cid @ [CHR 0x00])) else None)"
| "operation_of (NPin cid) = (if length cid = CID_SIZE then Some (OpPin (cid @ [CHR 0x00])) else None)"
| "operation_of (NUnpin cid) = (if length cid = CID_SIZE then Some (OpUnpin (cid @ [CHR 0x00])) else None)"
| "operation_of NGC = Some OpGC"

text \<open>
  The callback of an operation is the instance of \<open>callback_function\<close> for its result: nothing, a
  string, a vector of bytes. Its argument is the handle.
\<close>

fun callback_function :: "operation \<Rightarrow> cptr" where
  "callback_function (OpCalcCid _ _) = Some 1"
| "callback_function (OpAdd _ _ _) = Some 1"
| "callback_function (OpCat _) = Some 2"
| "callback_function _ = Some 0"

definition call_ipfs :: "operation \<Rightarrow> nat option \<Rightarrow> cpp \<times> 'w proc \<Rightarrow> (cpp \<times> 'w proc) outcome" where
  "call_ipfs p ext cs =
     (case cs of (c, s) \<Rightarrow>
        (case go_asio_ipfs_cancellation_allocate s of
           (sig, s) \<Rightarrow>
             bind_outcome (invoke p sig (callback_function p) (Some (length (hs c))) s)
               (\<lambda>s. Ret (new_Handle (Some sig) ext c, s))))"

definition resolve :: "string \<Rightarrow> nat option \<Rightarrow> cpp \<times> 'w proc \<Rightarrow> cpp \<times> 'w proc" where
  "resolve ipns_id ext cs =
     (case cs of (c, s) \<Rightarrow>
        (case go_asio_ipfs_cancellation_allocate s of
           (sig, s) \<Rightarrow>
             (new_Handle (Some sig) ext c,
              go_asio_ipfs_resolve sig (ipns_id @ [CHR 0x00]) (Some 1) (Some (length (hs c))) s)))"

text \<open>\<open>node::id\<close> copies the string and releases it.\<close>

definition node_id :: "('w, 'z) ops_lib_scheme \<Rightarrow> 'w proc \<Rightarrow> (string \<times> 'w proc) outcome" where
  "node_id lib s =
     bind_outcome (go_asio_ipfs_node_id lib s)
       (\<lambda>(cid, s).
          let ret = c_str (the (cmem s cid))
          in bind_outcome (go_asio_memfree (Some cid) s) (\<lambda>s. Ret (ret, s)))"

text \<open>\<open>node::build\<close> goes through \<open>call_ipfs_nocancel\<close>: there is no signal.\<close>

definition build ::
  "((bytes \<times> json) list \<Rightarrow> string) \<Rightarrow> config \<Rightarrow> cptr \<Rightarrow> cptr \<Rightarrow> nat option \<Rightarrow> cpp \<times> 'w proc \<Rightarrow>
   string + (cpp \<times> 'w proc)" where
  "build dump cfg scb impl ext cs =
     (case cs of (c, s) \<Rightarrow>
        (case config_to_json dump cfg of
           Inl msg \<Rightarrow> Inl msg
         | Inr cfg_s \<Rightarrow>
             Inr (new_Handle None ext c,
                  go_asio_ipfs_start_async (cfg_s @ [CHR 0x00]) (repo_root cfg @ [CHR 0x00]) scb impl
                    (Some 0) (Some (length (hs c))) s)))"

text \<open>
  A callback of the Go side, as the handle and the answer it carries: \<open>std::string(data, data + size)\<close>
  or the vector of the same bytes.
\<close>

fun cb_answer :: "callback \<Rightarrow> (hptr \<times> answer) option" where
  "cb_answer (VoidCB fn code arg) = map_option (\<lambda>h. (h, (word_of_int (code_num code), []))) arg"
| "cb_answer (DataCB fn code p b n arg) = map_option (\<lambda>h. (h, (word_of_int (code_num code), take n b))) arg"
| "cb_answer _ = None"

text \<open>
  The Go side calls through a bare pointer: a call with a code only must be one of \<open>callback_function<>\<close>,
  a call with data one of the other two instances. A call of the wrong kind is undefined behaviour,
  and raises the flag of the handles.
\<close>

fun cb_fits :: "callback \<Rightarrow> bool" where
  "cb_fits (VoidCB fn code arg) = (fn = Some 0)"
| "cb_fits (DataCB fn code p b n arg) = (fn = Some 1 \<or> fn = Some 2)"
| "cb_fits _ = True"

definition call_back :: "callback \<Rightarrow> cpp \<Rightarrow> cpp" where
  "call_back cb c =
     (case cb_answer cb of None \<Rightarrow> c | Some (h, ans) \<Rightarrow> Handle_call ans h (check (cb_fits cb) c))"

text \<open>
  \<open>node_impl::stateCB\<close>, when it is the function that is called, calls the function of the object it is
  given; the callbacks of the other kinds are not made to it.
\<close>

definition stateCB_ptr :: cptr where
  "stateCB_ptr = Some 1"

fun node_stateCB :: "callback \<Rightarrow> (cptr \<times> string \<times> u32) option" where
  "node_stateCB (StateCB fn self err peercnt) =
     (if fn = stateCB_ptr then Some (self, case err of None \<Rightarrow> [] | Some txt \<Rightarrow> txt, peercnt) else None)"
| "node_stateCB _ = None"

section \<open>Steps\<close>

text \<open>
  A program has one node object at a time: none, one that \<open>build\<close> is making, known by the handle of
  that call, or one that can be used. The callback of \<open>build\<close> makes the object, or deletes it when it
  gets an error, the abort included. \<open>app_silent\<close> collects the handles of \<open>resolve\<close>, which the Go side
  does not answer.
\<close>

datatype node_obj = NoNode | Building hptr | Ready

definition after_ctor :: "string + 'a \<Rightarrow> node_obj" where
  "after_ctor r = (if is_error r then NoNode else Ready)"

definition after_free :: "string option \<Rightarrow> node_obj" where
  "after_free exc = (if exc = None then NoNode else Ready)"

definition after_build :: "cpp \<Rightarrow> node_obj \<Rightarrow> node_obj" where
  "after_build c ob =
     (case ob of
        Building h \<Rightarrow>
          (case outcomes (hs c ! h) of
             [] \<Rightarrow> ob
           | r # _ \<Rightarrow> (case r of Aborted \<Rightarrow> NoNode | Answered (ec, _) \<Rightarrow> if ec \<noteq> 0 then NoNode else Ready))
      | _ \<Rightarrow> ob)"

record 'w app =
  app_obj :: node_obj
  app_cpp :: cpp
  app_proc :: "'w proc"
  app_silent :: "hptr list"

datatype app_event =
    AppNew config cptr cptr
  | AppBuild config cptr cptr "nat option"
  | AppCall node_call "nat option"
  | AppResolve string "nat option"
  | AppRun nat
  | AppAsio cpp_event
  | AppFree

definition is_asio :: "cpp_event \<Rightarrow> bool" where
  "is_asio e = (case e of CancelBy _ \<Rightarrow> True | BeginJob \<Rightarrow> True | EndJob \<Rightarrow> True | _ \<Rightarrow> False)"

text \<open>What the handles told the Go side in a step.\<close>

definition new_events :: "cpp \<Rightarrow> cpp \<Rightarrow> go_event list" where
  "new_events c c' = drop (length (go_events c)) (go_events c')"

inductive app_step ::
  "((bytes \<times> json) list \<Rightarrow> string) \<Rightarrow> ('w, 'z) ops_lib_scheme \<Rightarrow> 'w app \<Rightarrow> app_event \<Rightarrow> 'w app \<Rightarrow> bool"
  for dump lib where
  app_new: "app_obj x = NoNode \<Longrightarrow> node_ctor dump lib cfg scb impl (app_proc x) = Ret (r, s) \<Longrightarrow>
    app_step dump lib x (AppNew cfg scb impl)
      (x\<lparr>app_obj := after_ctor r, app_proc := s\<rparr>)"
| app_build: "app_obj x = NoNode \<Longrightarrow> slot_unused ext (app_cpp x) \<Longrightarrow>
    build dump cfg scb impl ext (app_cpp x, app_proc x) = Inr (c, s) \<Longrightarrow>
    app_step dump lib x (AppBuild cfg scb impl ext)
      (x\<lparr>app_obj := Building (length (hs (app_cpp x))), app_cpp := c, app_proc := s\<rparr>)"
| app_call: "app_obj x = Ready \<Longrightarrow> slot_unused ext (app_cpp x) \<Longrightarrow> operation_of nc = Some p \<Longrightarrow>
    call_ipfs p ext (app_cpp x, app_proc x) = Ret (c, s) \<Longrightarrow>
    app_step dump lib x (AppCall nc ext) (x\<lparr>app_cpp := c, app_proc := s\<rparr>)"
| app_resolve: "app_obj x = Ready \<Longrightarrow> slot_unused ext (app_cpp x) \<Longrightarrow>
    resolve ipns_id ext (app_cpp x, app_proc x) = (c, s) \<Longrightarrow>
    app_step dump lib x (AppResolve ipns_id ext)
      (x\<lparr>app_cpp := c, app_proc := s, app_silent := app_silent x @ [length (hs (app_cpp x))]\<rparr>)"
| app_run: "i < length (gos (app_proc x)) \<Longrightarrow> token (gos (app_proc x) ! i) \<noteq> None \<Longrightarrow>
    run_go lib (gos (app_proc x) ! i) (take_go i (app_proc x)) = Ret s \<Longrightarrow>
    app_step dump lib x (AppRun i)
      (x\<lparr>app_cpp := fold call_back (drop (length (cbs (app_proc x))) (cbs s)) (app_cpp x), app_proc := s\<rparr>)"
| app_asio: "is_asio e \<Longrightarrow> cpp_step (app_cpp x) e c \<Longrightarrow>
    app_step dump lib x (AppAsio e)
      (x\<lparr>app_obj := after_build c (app_obj x), app_cpp := c,
         app_proc := fold tell (new_events (app_cpp x) c) (app_proc x)\<rparr>)"
| app_free: "app_obj x = Ready \<Longrightarrow> free_loop (app_cpp x) = Some c \<Longrightarrow>
    node_free lib (Some (app_cpp x)) (app_proc x) = Some (exc, impl, s) \<Longrightarrow>
    app_step dump lib x AppFree
      (x\<lparr>app_obj := after_free exc, app_cpp := c, app_proc := s\<rparr>)"

definition app_init :: "'w os \<Rightarrow> 'w app" where
  "app_init sys = \<lparr>app_obj = NoNode, app_cpp = cpp_start, app_proc = init_proc sys, app_silent = []\<rparr>"

text \<open>The same steps as a function, for the examples.\<close>

fun app_exec ::
  "((bytes \<times> json) list \<Rightarrow> string) \<Rightarrow> ('w, 'z) ops_lib_scheme \<Rightarrow> app_event \<Rightarrow> 'w app \<Rightarrow> 'w app option" where
  "app_exec dump lib (AppNew cfg scb impl) x =
     (if app_obj x \<noteq> NoNode then None
      else case node_ctor dump lib cfg scb impl (app_proc x) of
        Ret (r, s) \<Rightarrow> Some (x\<lparr>app_obj := after_ctor r, app_proc := s\<rparr>)
      | _ \<Rightarrow> None)"
| "app_exec dump lib (AppBuild cfg scb impl ext) x =
     (if app_obj x \<noteq> NoNode \<or> \<not> slot_unused ext (app_cpp x) then None
      else case build dump cfg scb impl ext (app_cpp x, app_proc x) of
        Inr (c, s) \<Rightarrow> Some (x\<lparr>app_obj := Building (length (hs (app_cpp x))), app_cpp := c, app_proc := s\<rparr>)
      | _ \<Rightarrow> None)"
| "app_exec dump lib (AppCall nc ext) x =
     (if app_obj x \<noteq> Ready \<or> \<not> slot_unused ext (app_cpp x) then None
      else case operation_of nc of
        None \<Rightarrow> None
      | Some p \<Rightarrow> (case call_ipfs p ext (app_cpp x, app_proc x) of
          Ret (c, s) \<Rightarrow> Some (x\<lparr>app_cpp := c, app_proc := s\<rparr>) | _ \<Rightarrow> None))"
| "app_exec dump lib (AppResolve ipns_id ext) x =
     (if app_obj x \<noteq> Ready \<or> \<not> slot_unused ext (app_cpp x) then None
      else case resolve ipns_id ext (app_cpp x, app_proc x) of
        (c, s) \<Rightarrow> Some (x\<lparr>app_cpp := c, app_proc := s, app_silent := app_silent x @ [length (hs (app_cpp x))]\<rparr>))"
| "app_exec dump lib (AppRun i) x =
     (if i < length (gos (app_proc x)) \<and> token (gos (app_proc x) ! i) \<noteq> None
      then case run_go lib (gos (app_proc x) ! i) (take_go i (app_proc x)) of
        Ret s \<Rightarrow> Some (x\<lparr>app_cpp := fold call_back (drop (length (cbs (app_proc x))) (cbs s)) (app_cpp x), app_proc := s\<rparr>)
      | _ \<Rightarrow> None
      else None)"
| "app_exec dump lib (AppAsio e) x =
     (if is_asio e
      then case cpp_exec e (app_cpp x) of
        None \<Rightarrow> None
      | Some c \<Rightarrow> Some (x\<lparr>app_obj := after_build c (app_obj x), app_cpp := c,
                    app_proc := fold tell (new_events (app_cpp x) c) (app_proc x)\<rparr>)
      else None)"
| "app_exec dump lib AppFree x =
     (if app_obj x \<noteq> Ready then None
      else case free_loop (app_cpp x) of
        None \<Rightarrow> None
      | Some c \<Rightarrow> (case node_free lib (Some (app_cpp x)) (app_proc x) of
          None \<Rightarrow> None
        | Some (exc, impl, s) \<Rightarrow>
            Some (x\<lparr>app_obj := after_free exc, app_cpp := c, app_proc := s\<rparr>)))"

fun app_play ::
  "((bytes \<times> json) list \<Rightarrow> string) \<Rightarrow> ('w, 'z) ops_lib_scheme \<Rightarrow> app_event list \<Rightarrow> 'w app \<Rightarrow> 'w app option" where
  "app_play dump lib [] x = Some x"
| "app_play dump lib (e # es) x = (case app_exec dump lib e x of None \<Rightarrow> None | Some y \<Rightarrow> app_play dump lib es y)"

lemma app_exec_step: "app_exec dump lib e x = Some y \<Longrightarrow> app_step dump lib x e y"
  by (cases e)
     (auto intro: app_step.intros cpp_exec_step split: if_splits outcome.splits sum.splits option.splits prod.splits)

section \<open>The invariant\<close>

text \<open>
  The handles that wait for the Go side are exactly the arguments of the goroutines that still owe a
  callback, and the silent ones; what a handle got or is about to get was reported by the Go side,
  which reports once to a handle. The links are those of the current object.
\<close>

definition waiting :: "cpp \<Rightarrow> hptr multiset" where
  "waiting c = mset (filter (\<lambda>h. awaited (hs c ! h)) [0..<length (hs c)])"

definition go_owes :: "'w proc \<Rightarrow> hptr multiset" where
  "go_owes s = mset (List.map_filter (\<lambda>g. Option.bind (token g) snd) (gos s))"

definition answers :: "cpp \<Rightarrow> (hptr \<times> answer) set" where
  "answers c = {(h, a). CallJob h a \<in> set (queue c) \<union> set (running c)} \<union>
     {(h, a). h < length (hs c) \<and> Answered a \<in> set (outcomes (hs c ! h))}"

definition go_answers :: "'w proc \<Rightarrow> (hptr \<times> answer) list" where
  "go_answers s = List.map_filter cb_answer (cbs s)"

definition obj_inv :: "node_obj \<Rightarrow> cpp \<Rightarrow> bool" where
  "obj_inv ob c \<longleftrightarrow>
     (case ob of NoNode \<Rightarrow> links c = [] | Building h \<Rightarrow> h < length (hs c) \<and> set (links c) \<subseteq> {h} | Ready \<Rightarrow> True)"

definition answer_inv :: "cpp \<Rightarrow> 'w proc \<Rightarrow> bool" where
  "answer_inv c s \<longleftrightarrow> answers c \<subseteq> set (go_answers s) \<and> distinct (map fst (go_answers s)) \<and>
     (\<forall>h \<in> fst ` set (go_answers s). h < length (hs c) \<and> \<not> awaited (hs c ! h))"

text \<open>A goroutine carries the instance of \<open>callback_function\<close> for the kind of its callback.\<close>

fun go_fits :: "goroutine \<Rightarrow> bool" where
  "go_fits (GoDataCB fn _ _) = (fn = Some 1 \<or> fn = Some 2)"
| "go_fits (GoCalcCid _ _ _ fn _) = (fn = Some 1 \<or> fn = Some 2)"
| "go_fits (GoAdd _ _ _ _ fn _) = (fn = Some 1 \<or> fn = Some 2)"
| "go_fits (GoCat _ _ _ fn _) = (fn = Some 1 \<or> fn = Some 2)"
| "go_fits g = (case token g of None \<Rightarrow> True | Some (fn, _) \<Rightarrow> fn = Some 0)"

definition app_inv :: "'w app \<Rightarrow> bool" where
  "app_inv x \<longleftrightarrow> list_all go_fits (gos (app_proc x)) \<and> cpp_inv (app_cpp x) \<and> proc_wf (app_proc x) \<and> cmem (app_proc x) = Map.empty \<and>
     waiting (app_cpp x) = go_owes (app_proc x) + mset (app_silent x) \<and>
     answer_inv (app_cpp x) (app_proc x) \<and> obj_inv (app_obj x) (app_cpp x)"

subsection \<open>The Go side\<close>

lemma go_owes_cong: "gos t = gos s \<Longrightarrow> go_owes t = go_owes s"
  by (simp add: go_owes_def)

lemma go_answers_cong: "cbs t = cbs s \<Longrightarrow> go_answers t = go_answers s"
  by (simp add: go_answers_def)

text \<open>It is the part of what is owed that has an argument.\<close>

lemma go_owes_owed: "go_owes s = image_mset the (filter_mset (\<lambda>a. a \<noteq> None) (image_mset snd (owed s)))"
proof -
  have "mset (List.map_filter (\<lambda>g. Option.bind (token g) snd) gs) =
      image_mset the (filter_mset (\<lambda>a. a \<noteq> None) (image_mset snd (mset (List.map_filter token gs))))" for gs
    by (induction gs) (auto simp: map_filter_simps split: option.splits)
  then show ?thesis by (simp add: go_owes_def owed_def)
qed

text \<open>Carrying out what the handles ask for leaves goroutines, callbacks and memory alone.\<close>

lemma tell_frame:
  "gos (tell e s) = gos s" "cbs (tell e s) = cbs s" "cmem (tell e s) = cmem s"
  "proc_wf s \<Longrightarrow> proc_wf (tell e s)"
  by (cases e; simp add: signal_ops_frame proc_wf_signal_ops)+

lemma fold_tell_frame:
  "gos (fold tell es s) = gos s \<and> cbs (fold tell es s) = cbs s \<and> cmem (fold tell es s) = cmem s \<and>
   (proc_wf s \<longrightarrow> proc_wf (fold tell es s))"
  by (induction es arbitrary: s) (simp_all add: tell_frame)

text \<open>A goroutine that owes a callback makes that one.\<close>

lemma run_go_one_callback:
  assumes "proc_wf s" and "token g = Some (fn, arg)" and "run_go lib g s = Ret t"
  shows "\<exists>cb. cbs t = cbs s @ [cb] \<and> cb_token cb = Some (fn, arg)"
proof (cases "is_start g")
  case False
  have "\<forall>a \<in> dom (cmem s). a < cbrk s" using assms(1) by (simp add: proc_wf_def)
  from run_go_reported [OF this assms(2,3) False] show ?thesis by (auto simp: reported_def)
next
  case True
  then obtain cfg n root where "g = GoStart cfg n root fn arg"
    using assms(2) by (cases g) (simp_all add: is_start_def)
  with assms(3) obtain code u where u: "start_node lib cfg n root s = Ret (code, u)"
    "t = call_cb (VoidCB fn code arg) u" by (auto simp: run_start_def)
  with start_node_frame [OF u(1)] show ?thesis by (simp add: start_frame_def)
qed

lemma service_fits: "is_service g \<Longrightarrow> go_fits g"
  by (cases g) (simp_all add: is_service_def)

lemma start_node_fits:
  assumes "start_node lib cfg n root s = Ret (code, t)" and "list_all go_fits (gos s)"
  shows "list_all go_fits (gos t)"
  using start_node_frame [OF assms(1)] assms(2) by (auto simp: start_frame_def list_all_iff service_fits)

lemma start_blocking_fits:
  assumes "go_asio_ipfs_start_blocking lib cfg repo scb sa s = Ret (code, t)" and "list_all go_fits (gos s)"
  shows "list_all go_fits (gos t)"
proof (cases "g_node s")
  case None
  from assms(1) start_blocking_new [OF None, of lib cfg repo scb sa]
  have "start_node lib (c_str cfg) (length (nodes s)) (c_str repo) (snd (allocate_node scb sa s)) = Ret (code, t)"
    by simp
  from start_node_fits [OF this] assms(2) allocate_node_new(6) [OF None] show ?thesis by simp
qed (use assms in \<open>simp add: start_blocking_exists\<close>)

lemma start_async_fits:
  "list_all go_fits (gos s) \<Longrightarrow> list_all go_fits (gos (go_asio_ipfs_start_async cfg repo scb sa (Some 0) a s))"
  by (simp add: go_asio_ipfs_start_async_def allocate_node_def case_prod_beta Let_def)

lemma invoke_fits:
  assumes "invoke p k (callback_function p) a s = Ret t" and "list_all go_fits (gos s)"
  shows "list_all go_fits (gos t)"
proof -
  have "go_fits (op_reject p (callback_function p) a)" "go_fits (op_job p n c (callback_function p) a)" for n c
    by (cases p; simp)+
  moreover have "\<exists>g. gos t = gos s @ [g] \<and>
      (g = op_reject p (callback_function p) a \<or> (\<exists>n c. g = op_job p n c (callback_function p) a))"
  proof (cases "g_node s")
    case None
    with assms(1) op.no_node [OF None, of p] show ?thesis by auto
  next
    case (Some n)
    have "op_fits p" by (rule ccontr) (use op.refused [OF Some, of p k "callback_function p" a] assms(1) in simp)
    with assms(1) op.with_node [OF Some this] have
      "gos t = gos s @ [op_job p n (length (ctxs s)) (callback_function p) a]" by auto
    then show ?thesis by blast
  qed
  ultimately show ?thesis using assms(2) by auto
qed

lemma run_go_fits:
  assumes "proc_wf s" and "go_fits g" and "token g = Some tk" and "run_go lib g s = Ret t"
    and "cbs t = cbs s @ [cb]"
  shows "cb_fits cb" "list_all go_fits (gos s) \<Longrightarrow> list_all go_fits (gos t)"
proof -
  have mem: "\<forall>a \<in> dom (cmem s). a < cbrk s" using assms(1) by (simp add: proc_wf_def)
  have buf: "execute_data_buf fn b arg (s\<lparr>os := y\<rparr>) = Ret (s\<lparr>os := y, cbrk := Suc (cbrk s),
      cbs := cbs s @ [DataCB fn IPFS_SUCCESS (Some (cbrk s)) b (length b) arg]\<rparr>)" for fn b arg y
    using execute_data_buf_eq [of "s\<lparr>os := y\<rparr>" fn b arg] mem by simp
  have "cb_fits cb \<and> (list_all go_fits (gos s) \<longrightarrow> list_all go_fits (gos t))"
  proof (cases "is_start g")
    case True
    then obtain cfg n root fn arg where g: "g = GoStart cfg n root fn arg"
      using assms(3) by (cases g) (simp_all add: is_start_def)
    with assms(4) obtain code u where u: "start_node lib cfg n root s = Ret (code, u)"
      "t = call_cb (VoidCB fn code arg) u" by (auto simp: run_start_def)
    with start_node_frame [OF u(1)] start_node_fits [OF u(1)] assms(2,5) g show ?thesis
      by (auto simp: start_frame_def)
  next
    case False
    from run_go_reported [OF mem assms(3,4) False] have "gos t = gos s" by (simp add: reported_def)
    moreover have "cb_fits cb"
      using assms(2-5) False
      by (cases g) (auto simp: with_handle_def report_added_def run_cat_def is_start_def buf report_code_def
          executeVoidCB_def execute_data_nil_def
          split: option.splits sum.splits prod.splits files_Node.splits)
    ultimately show ?thesis by simp
  qed
  then show "cb_fits cb" "list_all go_fits (gos s) \<Longrightarrow> list_all go_fits (gos t)" by simp_all
qed

lemma cb_answer_token:
  "cb_token cb = Some (fn, Some h) \<Longrightarrow> \<exists>a. cb_answer cb = Some (h, a)"
  "cb_token cb = Some (fn, None) \<Longrightarrow> cb_answer cb = None"
  by (cases cb; auto)+

subsection \<open>The handles\<close>

lemma count_waiting: "count (waiting c) i = (if i < length (hs c) \<and> awaited (hs c ! i) then 1 else 0)"
  using distinct_count_atmost_1 [of "filter (\<lambda>h. awaited (hs c ! h)) [0..<length (hs c)]"]
  by (auto simp: waiting_def simp del: mset_filter)

lemma in_waiting: "h \<in># waiting c \<longleftrightarrow> h < length (hs c) \<and> awaited (hs c ! h)"
  by (auto simp: waiting_def)

lemma waiting_new: "waiting (new_Handle sig ext c) = add_mset (length (hs c)) (waiting c)"
  by (rule multiset_eqI) (auto simp: count_waiting new_Handle_sel nth_append less_Suc_eq)

lemma waiting_Handle_call:
  "h < length (hs c) \<Longrightarrow> awaited (hs c ! h) \<Longrightarrow> waiting c = add_mset h (waiting (Handle_call a h c))"
  by (rule multiset_eqI) (auto simp: count_waiting Handle_call_sel nth_list_update)

text \<open>The asio thread and the loop of \<open>free\<close> do not change who waits, and make up no answers.\<close>

definition quiet :: "cpp \<Rightarrow> cpp \<Rightarrow> bool" where
  "quiet c d \<longleftrightarrow> length (hs d) = length (hs c) \<and> set (links d) \<subseteq> set (links c) \<and> answers d \<subseteq> answers c \<and>
     (\<forall>i < length (hs c). awaited (hs d ! i) = awaited (hs c ! i))"

lemma quiet_refl: "quiet c c"
  by (simp add: quiet_def)

lemma quiet_trans: "quiet c d \<Longrightarrow> quiet d e \<Longrightarrow> quiet c e"
  by (auto simp: quiet_def)

lemma quiet_waiting: "quiet c d \<Longrightarrow> waiting d = waiting c"
  by (rule multiset_eqI) (auto simp: count_waiting quiet_def)

lemma quiet_cancel: "quiet c (cancel_lambda h c)"
  by (cases "h < length (hs c)")
     (auto simp: quiet_def answers_def cancel_lambda_sel nth_list_update list_update_beyond
       dest: set_remove1_subset [THEN subsetD] split: if_splits)

lemma quiet_end: "quiet c (end_job c)"
proof (cases "running c")
  case (Cons j js)
  show ?thesis
    by (cases "job_handle j < length (hs c)")
       (auto simp: quiet_def answers_def end_job_sel [OF Cons] Cons nth_list_update split: if_splits)
qed (simp add: end_job_def quiet_refl)

lemma quiet_call_slot: "cpp_inv c \<Longrightarrow> quiet c (call_slot sl c)"
  by (cases rule: call_slot_cases [of c sl]) (auto simp: quiet_refl quiet_cancel)

lemma quiet_free_loop: "free_loop c = Some d \<Longrightarrow> cpp_inv c \<Longrightarrow> quiet c d"
  by (rule free_loop_induct [where P = quiet]) (auto intro: quiet_refl quiet_trans quiet_cancel)

lemma quiet_take: "queue c \<noteq> [] \<Longrightarrow> quiet c (take_job c)"
  by (cases "queue c") (auto simp: quiet_def answers_def)

lemma quiet_invoke:
  "r = Aborted \<or> (\<exists>a. r = Answered a \<and> (h, a) \<in> answers c) \<Longrightarrow> quiet c (invoke_cb h r c)"
  by (cases "h < length (hs c)")
     (auto simp: quiet_def answers_def invoke_cb_sel nth_list_update dest: set_remove1_subset [THEN subsetD] split: if_splits)

lemma quiet_begin:
  assumes "cpp_inv c" and "queue c \<noteq> []"
  shows "quiet c (begin_job c)"
proof -
  obtain j js where q: "queue c = j # js" using assms(2) by (cases "queue c") auto
  have "(h, a) \<in> answers (take_job c)" if "j = CallJob h a" for h a using q that by (simp add: answers_def)
  with first_job(3) [OF assms(1) q refl] quiet_invoke [of _ _ "take_job c"] have "quiet (take_job c) (begin_job c)"
    by (cases j) (auto simp: quiet_refl)
  with quiet_take [OF assms(2)] show ?thesis by (rule quiet_trans)
qed

lemma quiet_asio: "cpp_step c e d \<Longrightarrow> is_asio e \<Longrightarrow> cpp_inv c \<Longrightarrow> quiet c d"
  by (auto elim!: cpp_stepE simp: is_asio_def intro: quiet_call_slot quiet_end quiet_begin)

subsection \<open>Every step keeps the invariant\<close>

lemma obj_inv_quiet:
  assumes "quiet c d" and "cpp_inv d" and "obj_inv ob c"
  shows "obj_inv (after_build d ob) d"
proof (cases ob)
  case (Building h)
  with assms have h: "h < length (hs d)" "set (links d) \<subseteq> {h}" by (auto simp: obj_inv_def quiet_def)
  show ?thesis
  proof (cases "outcomes (hs d ! h)")
    case (Cons r rs)
    with linked_handle(4) [OF assms(2), of h] have "h \<notin> set (links d)" by auto
    with h(2) have "links d = []" by (cases "links d") auto
    with Building Cons show ?thesis by (simp add: obj_inv_def after_build_def split: result.split)
  qed (use Building h in \<open>simp add: obj_inv_def after_build_def\<close>)
qed (use assms in \<open>auto simp: obj_inv_def after_build_def quiet_def\<close>)

lemma app_inv_quiet:
  assumes "app_inv x" and "quiet (app_cpp x) c" and "cpp_inv c" and "obj_inv ob c"
    and s: "gos s = gos (app_proc x)" "cbs s = cbs (app_proc x)" "cmem s = cmem (app_proc x)" "proc_wf s"
  shows "app_inv (x\<lparr>app_obj := ob, app_cpp := c, app_proc := s\<rparr>)"
proof -
  have "answer_inv c s" using assms(1,2) by (auto simp: app_inv_def answer_inv_def quiet_def go_answers_cong [OF s(2)])
  then show ?thesis using assms quiet_waiting [OF assms(2)] go_owes_cong [OF s(1)] by (simp add: app_inv_def)
qed

lemma answers_new: "answers (new_Handle sig ext c) = answers c"
  by (auto simp: answers_def new_Handle_sel nth_append less_Suc_eq)

lemma answer_inv_new:
  assumes "answer_inv c s" and "cbs t = cbs s"
  shows "answer_inv (new_Handle sig ext c) t"
  using assms(1) by (auto simp: answer_inv_def answers_new go_answers_cong [OF assms(2)] new_Handle_sel nth_append)

lemma app_inv_new:
  assumes "app_inv x" and "slot_unused ext (app_cpp x)" and "ob = Ready \<or> app_obj x = NoNode \<and> ob = Building (length (hs (app_cpp x)))"
    and s: "cbs s = cbs (app_proc x)" "cmem s = cmem (app_proc x)" "proc_wf s" "list_all go_fits (gos s)"
    and "go_owes s + mset sil = add_mset (length (hs (app_cpp x))) (go_owes (app_proc x) + mset (app_silent x))"
  shows "app_inv (x\<lparr>app_obj := ob, app_cpp := new_Handle sig ext (app_cpp x), app_proc := s, app_silent := sil\<rparr>)"
proof -
  have "obj_inv ob (new_Handle sig ext (app_cpp x))"
    using assms(1,3) by (auto simp: app_inv_def obj_inv_def new_Handle_sel)
  with assms answer_inv_new [of "app_cpp x" "app_proc x" s sig ext] show ?thesis
    by (simp add: app_inv_def waiting_new cpp_inv_new)
qed

lemma answer_inv_call:
  assumes "answer_inv c s" and "h < length (hs c)" and "awaited (hs c ! h)" and "go_answers t = go_answers s @ [(h, a)]"
  shows "answer_inv (Handle_call a h c) t"
proof -
  have "answers (Handle_call a h c) = insert (h, a) (answers c)"
    using assms(2) by (auto simp: answers_def Handle_call_sel nth_list_update split: if_splits)
  moreover have "h \<notin> fst ` set (go_answers s)" using assms(1,3) by (auto simp: answer_inv_def)
  ultimately show ?thesis using assms
    by (auto simp: answer_inv_def Handle_call_sel nth_list_update)
qed

lemma app_inv_run:
  assumes inv: "app_inv x" and i: "i < length (gos (app_proc x))" and tk: "token (gos (app_proc x) ! i) = Some (fn, arg)"
    and r: "run_go lib (gos (app_proc x) ! i) (take_go i (app_proc x)) = Ret s"
  shows "app_inv (x\<lparr>app_cpp := fold call_back (drop (length (cbs (app_proc x))) (cbs s)) (app_cpp x), app_proc := s\<rparr>)"
proof -
  let ?c = "app_cpp x" and ?s = "app_proc x"
  have wf: "proc_wf (take_go i ?s)" using inv by (simp add: app_inv_def)
  from run_go_one_callback [OF wf tk r] obtain cb where cb: "cbs s = cbs ?s @ [cb]" "cb_token cb = Some (fn, arg)"
    by auto
  have s: "proc_wf s" "cmem s = Map.empty" and o: "owed ?s = add_mset (fn, arg) (owed s)"
    using run_go_wf_made [OF wf tk r] owed_take_go [OF i tk] inv by (auto simp: app_inv_def)
  have "go_fits (gos ?s ! i)" using inv i by (simp add: app_inv_def list_all_length)
  moreover have "list_all go_fits (gos (take_go i ?s))"
    using inv by (auto simp: app_inv_def take_go_def list_all_iff dest: in_set_takeD in_set_dropD)
  ultimately have fit: "cb_fits cb" "list_all go_fits (gos s)"
    using run_go_fits [OF wf _ tk r, of cb] cb(1) by simp_all
  show ?thesis
  proof (cases arg)
    case None
    with cb_answer_token(2) cb(2) have "cb_answer cb = None" by blast
    with cb s inv o None fit show ?thesis
      by (simp add: app_inv_def call_back_def answer_inv_def go_answers_def map_filter_simps go_owes_owed)
  next
    case (Some h)
    with cb_answer_token(1) cb(2) obtain a where a: "cb_answer cb = Some (h, a)" by blast
    have o: "go_owes ?s = add_mset h (go_owes s)" using o Some by (simp add: go_owes_owed)
    with inv have "h \<in># waiting ?c" by (simp add: app_inv_def)
    then have h: "h < length (hs ?c)" "awaited (hs ?c ! h)" by (simp_all add: in_waiting)
    have "answer_inv (Handle_call a h ?c) s"
      by (rule answer_inv_call [of _ ?s]) (use inv h a cb(1) in \<open>simp_all add: app_inv_def go_answers_def map_filter_simps\<close>)
    moreover have "waiting (Handle_call a h ?c) = go_owes s + mset (app_silent x)"
      using waiting_Handle_call [OF h, of a] inv o by (simp add: app_inv_def)
    moreover have "obj_inv (app_obj x) (Handle_call a h ?c)"
      using inv by (auto simp: app_inv_def obj_inv_def Handle_call_sel split: node_obj.splits)
    moreover have "check True ?c = ?c" by (simp add: check_def)
    ultimately show ?thesis using s inv h a cb(1) fit by (simp add: app_inv_def call_back_def cpp_inv_answer)
  qed
qed

lemma allocate_frame:
  assumes "go_asio_ipfs_cancellation_allocate s = (sig, s1)"
  shows "owed s1 = owed s" "cbs s1 = cbs s" "cmem s1 = cmem s" "proc_wf s \<Longrightarrow> proc_wf s1" "gos s1 = gos s"
proof -
  have e: "s1 = snd (go_asio_ipfs_cancellation_allocate s)" using assms by simp
  show "owed s1 = owed s" by (rule owed_cong) (simp add: e signal_ops_frame)
  show "cbs s1 = cbs s" "cmem s1 = cmem s" "proc_wf s \<Longrightarrow> proc_wf s1" "gos s1 = gos s"
    by (simp_all add: e signal_ops_frame proc_wf_signal_ops)
qed

lemma app_inv_ctor:
  assumes inv: "app_inv x" and "app_obj x = NoNode" and "node_ctor dump lib cfg scb impl (app_proc x) = Ret (r, s)"
  shows "app_inv (x\<lparr>app_obj := after_ctor r, app_proc := s\<rparr>)"
proof -
  from assms(3) consider "s = app_proc x" "is_error r" | c_cfg c_repo ec where
    "go_asio_ipfs_start_blocking lib c_cfg c_repo scb impl (app_proc x) = Ret (ec, s)"
    by (auto simp: node_ctor_def split: sum.splits outcome.splits prod.splits)
  then have s: "owed s = owed (app_proc x)" "cbs s = cbs (app_proc x)" "cmem s = cmem (app_proc x)" "proc_wf s"
    "list_all go_fits (gos s)"
    using inv by (cases; auto simp: app_inv_def dest: start_blocking_owed_made
        intro: proc_wf_start_blocking start_blocking_fits)+
  then have "answer_inv (app_cpp x) s" using inv by (simp add: app_inv_def answer_inv_def go_answers_def)
  with s inv assms(2) show ?thesis by (auto simp: app_inv_def go_owes_owed obj_inv_def after_ctor_def)
qed

lemma app_inv_build:
  assumes inv: "app_inv x" and "app_obj x = NoNode" and "slot_unused ext (app_cpp x)"
    and "build dump cfg scb impl ext (app_cpp x, app_proc x) = Inr (c, s)"
  shows "app_inv (x\<lparr>app_obj := Building (length (hs (app_cpp x))), app_cpp := c, app_proc := s\<rparr>)"
proof -
  from assms(4) obtain cfg_s where c: "c = new_Handle None ext (app_cpp x)" and
    s: "s = go_asio_ipfs_start_async (cfg_s @ [CHR 0x00]) (repo_root cfg @ [CHR 0x00]) scb impl (Some 0)
      (Some (length (hs (app_cpp x)))) (app_proc x)"
    by (auto simp: build_def split: sum.splits)
  have "app_inv (x\<lparr>app_obj := Building (length (hs (app_cpp x))), app_cpp := c, app_proc := s, app_silent := app_silent x\<rparr>)"
    unfolding c by (rule app_inv_new)
      (use assms in \<open>simp_all add: s app_inv_def go_owes_owed start_async_owed_made proc_wf_start_async start_async_fits\<close>)
  then show ?thesis by simp
qed

lemma app_inv_call:
  assumes inv: "app_inv x" and "app_obj x = Ready" and "slot_unused ext (app_cpp x)"
    and "call_ipfs p ext (app_cpp x, app_proc x) = Ret (c, s)"
  shows "app_inv (x\<lparr>app_cpp := c, app_proc := s\<rparr>)"
proof -
  obtain sig s1 where s1: "go_asio_ipfs_cancellation_allocate (app_proc x) = (sig, s1)"
    by (cases "go_asio_ipfs_cancellation_allocate (app_proc x)")
  with assms(4) have c: "c = new_Handle (Some sig) ext (app_cpp x)" and
    i: "invoke p sig (callback_function p) (Some (length (hs (app_cpp x)))) s1 = Ret s"
    by (auto simp: call_ipfs_def split: outcome.splits)
  note a = allocate_frame [OF s1]
  have "proc_wf s" using inv a(4) op.keeps_wf [OF _ i] by (simp add: app_inv_def)
  moreover have "list_all go_fits (gos s)" using inv a(5) invoke_fits [OF i] by (simp add: app_inv_def)
  ultimately have "app_inv (x\<lparr>app_obj := Ready, app_cpp := c, app_proc := s, app_silent := app_silent x\<rparr>)"
    unfolding c by (intro app_inv_new)
      (use assms a invoke_owed_made [OF i] in \<open>simp_all add: app_inv_def go_owes_owed\<close>)
  then show ?thesis using assms(2) by (cases x) simp
qed

lemma app_inv_resolve:
  assumes inv: "app_inv x" and "app_obj x = Ready" and "slot_unused ext (app_cpp x)"
    and "resolve ipns_id ext (app_cpp x, app_proc x) = (c, s)"
  shows "app_inv (x\<lparr>app_cpp := c, app_proc := s, app_silent := app_silent x @ [length (hs (app_cpp x))]\<rparr>)"
proof -
  obtain sig s1 where s1: "go_asio_ipfs_cancellation_allocate (app_proc x) = (sig, s1)"
    by (cases "go_asio_ipfs_cancellation_allocate (app_proc x)")
  with assms(4) have c: "c = new_Handle (Some sig) ext (app_cpp x)" and s: "s = s1"
    by (auto simp: resolve_def go_asio_ipfs_resolve_def)
  have "app_inv (x\<lparr>app_obj := Ready, app_cpp := c, app_proc := s,
      app_silent := app_silent x @ [length (hs (app_cpp x))]\<rparr>)"
    unfolding c by (rule app_inv_new)
      (use assms allocate_frame [OF s1] in \<open>simp_all add: s app_inv_def go_owes_owed\<close>)
  then show ?thesis using assms(2) by (cases x) simp
qed

lemma app_inv_free:
  assumes inv: "app_inv x" and "free_loop (app_cpp x) = Some c"
    and "node_free lib (Some (app_cpp x)) (app_proc x) = Some (exc, impl, s)"
  shows "app_inv (x\<lparr>app_obj := after_free exc, app_cpp := c, app_proc := s\<rparr>)"
proof -
  have q: "quiet (app_cpp x) c" and c: "cpp_inv c" and l: "links c = []"
    using inv assms(2) free_loop_ends [of "app_cpp x"]
    by (auto simp: app_inv_def intro: quiet_free_loop cpp_inv_free_loop)
  obtain s0 where s0: "s0 = fold tell (new_events (app_cpp x) c) (app_proc x)" by simp
  with assms(2,3) have s: "s = snd (go_asio_ipfs_free lib s0)"
    by (auto simp: node_free_def new_events_def split: prod.splits if_splits)
  show ?thesis
    by (rule app_inv_quiet [OF inv q c])
       (use inv l in \<open>simp_all add: app_inv_def s s0 free_frame fold_tell_frame proc_wf_free obj_inv_def after_free_def\<close>)
qed

lemma app_inv_asio:
  assumes inv: "app_inv x" and "is_asio e" and "cpp_step (app_cpp x) e c"
  shows "app_inv (x\<lparr>app_obj := after_build c (app_obj x), app_cpp := c,
    app_proc := fold tell (new_events (app_cpp x) c) (app_proc x)\<rparr>)"
proof -
  have c: "cpp_inv c" using inv cpp_inv_step [OF assms(3)] by (simp add: app_inv_def)
  have q: "quiet (app_cpp x) c" using quiet_asio [OF assms(3,2)] inv by (simp add: app_inv_def)
  show ?thesis
    by (rule app_inv_quiet [OF inv q c obj_inv_quiet [OF q c]]) (use inv in \<open>simp_all add: app_inv_def fold_tell_frame\<close>)
qed

lemmas app_inv_intros =
  app_inv_ctor app_inv_build app_inv_call app_inv_resolve app_inv_run app_inv_asio app_inv_free

lemma app_inv_step: "app_step dump lib x e y \<Longrightarrow> app_inv x \<Longrightarrow> app_inv y"
  by (induction rule: app_step.induct) (auto intro: app_inv_intros)

interpretation app: inv_system "\<lambda>x. \<exists>sys. x = app_init sys" "app_step dump lib" app_inv for dump lib
proof
  fix x :: "'a app"
  assume "\<exists>sys. x = app_init sys"
  moreover have "waiting cpp_start = {#}" "answers cpp_start = {}" "obj_inv NoNode cpp_start"
    by (auto simp: waiting_def answers_def obj_inv_def cpp_start_def)
  moreover have "go_owes (init_proc sys) = {#}" "go_answers (init_proc sys) = []" "cmem (init_proc sys) = Map.empty" "gos (init_proc sys) = []"
    for sys :: "'a os" by (simp_all add: go_owes_def go_answers_def init_proc_def map_filter_simps)
  ultimately show "app_inv x"
    by (auto simp: app_init_def app_inv_def cpp_inv_start proc_wf_init_proc answer_inv_def)
qed (rule app_inv_step)

section \<open>A session for the examples\<close>

lemma app_play_run: "app_play dump lib es x = Some y \<Longrightarrow> inv_system.run (app_step dump lib) x es y"
  by (induction dump lib es x rule: app_play.induct)
     (auto intro: app.run_nil app.run_cons app_exec_step split: option.splits)

text \<open>
  A node is constructed; data is added, a read is started and cancelled, and a name is to be resolved;
  then the goroutines run, and the jobs.
\<close>

definition demo_calls :: "app_event list" where
  "demo_calls = [AppNew demo_cfg (Some 1) (Some 2), AppCall (NAdd ''data'' 4 False) None,
     AppCall (NCat (replicate CID_SIZE CHR ''q'')) (Some 0), AppResolve ''peer'' None, AppAsio (CancelBy 0)]"

definition demo_settling :: "app_event list" where
  "demo_settling = [AppRun 2, AppRun 2, AppAsio BeginJob, AppAsio EndJob, AppAsio BeginJob, AppAsio EndJob,
     AppAsio BeginJob, AppAsio EndJob]"

definition demo_play :: "app_event list \<Rightarrow> Config option app option" where
  "demo_play es = app_play sorted_dump demo_ops_lib es (app_init (demo_os None))"

lemma demo_play_run:
  "demo_play es = Some x \<Longrightarrow> inv_system.run (app_step sorted_dump demo_ops_lib) (app_init (demo_os None)) es x"
  unfolding demo_play_def by (rule app_play_run)

lemma demo_settled:
  obtains x where "demo_play (demo_calls @ demo_settling) = Some x"
    "map outcomes (hs (app_cpp x)) = [[Answered (0, ''Qm'')], [Aborted], []]"
    "queue (app_cpp x) = []" "running (app_cpp x) = []" "map token (gos (app_proc x)) = [None, None]" "app_silent x = [2]"
    "app_obj x = Ready" "g_node (app_proc x) = Some 0" "node (nodes (app_proc x) ! 0) = Some 5"
    "api (nodes (app_proc x) ! 0) = Some 9" "\<not> ctx_done (ctxs (app_proc x)) (ctx (nodes (app_proc x) ! 0))"
proof -
  have "(case demo_play (demo_calls @ demo_settling) of None \<Rightarrow> False | Some x \<Rightarrow>
      map outcomes (hs (app_cpp x)) = [[Answered (0, ''Qm'')], [Aborted], []] \<and>
      queue (app_cpp x) = [] \<and> running (app_cpp x) = [] \<and> map token (gos (app_proc x)) = [None, None] \<and> app_silent x = [2] \<and>
      app_obj x = Ready \<and> g_node (app_proc x) = Some 0 \<and> node (nodes (app_proc x) ! 0) = Some 5 \<and>
      api (nodes (app_proc x) ! 0) = Some 9 \<and> \<not> ctx_done (ctxs (app_proc x)) (ctx (nodes (app_proc x) ! 0)))"
    by code_simp
  then show thesis using that by (auto split: option.splits)
qed

end
