(* ===== verification/Cpp_Calls.thy ===== *)
theory Cpp_Calls
  imports Cpp_System
begin

text \<open>
  What a program sees of the node, over both languages: every call is settled once, with what the Go
  side reported, and can be settled without help of the program; the exceptions are \<open>resolve\<close>, which is
  never answered, and a build that is cancelled, which leaves a node nobody owns.
\<close>

section \<open>Settling every call\<close>

text \<open>
  C1: In every interleaving of the program, the goroutines and the asio thread: no deleted handle is
  used and no assertion of the handles fails, the Go side reports to a handle at most once, the
  user's callback is called at most once and if not with the abort then with exactly the code and
  the bytes the Go side reported, and when no goroutine owes a report and no job is left, every
  call but \<open>resolve\<close> has been answered and its handle is deleted.
\<close>

theorem node_calls_settled_once:
  assumes "inv_system.run (app_step dump lib) (app_init sys) es x"
  shows "\<not> faulty (app_cpp x) \<and> distinct (map fst (go_answers (app_proc x))) \<and>
    (\<forall>h < length (hs (app_cpp x)).
       length (outcomes (hs (app_cpp x) ! h)) \<le> 1 \<and>
       (\<forall>a. Answered a \<in> set (outcomes (hs (app_cpp x) ! h)) \<longrightarrow> (h, a) \<in> set (go_answers (app_proc x))) \<and>
       (h \<notin> set (app_silent x) \<and> go_owes (app_proc x) = {#} \<and> queue (app_cpp x) = [] \<and> running (app_cpp x) = [] \<longrightarrow>
          length (outcomes (hs (app_cpp x) ! h)) = 1 \<and> deleted (hs (app_cpp x) ! h)))"
proof -
  have inv: "app_inv x" using app.run_from_start [OF _ assms] by blast
  then have c: "cpp_inv (app_cpp x)" and w: "waiting (app_cpp x) = go_owes (app_proc x) + mset (app_silent x)"
    and a: "answers (app_cpp x) \<subseteq> set (go_answers (app_proc x))" "distinct (map fst (go_answers (app_proc x)))"
    by (simp_all add: app_inv_def answer_inv_def)
  have "\<not> awaited (hs (app_cpp x) ! h)" if "h < length (hs (app_cpp x))" "h \<notin> set (app_silent x)" "go_owes (app_proc x) = {#}" for h
    using in_waiting [of h "app_cpp x"] that w by simp
  with cpp_invD(1) [OF c] handle_outcomes(1,3) [OF c] a show ?thesis by (auto simp: answers_def)
qed

theorem node_calls_settled_once_witness:
  "\<exists>x. demo_play (demo_calls @ demo_settling) = Some x \<and> \<not> faulty (app_cpp x) \<and>
     (0, (0, ''Qm'')) \<in> set (go_answers (app_proc x)) \<and> deleted (hs (app_cpp x) ! 0) \<and>
     deleted (hs (app_cpp x) ! 1) \<and> outcomes (hs (app_cpp x) ! 1) = [Aborted]"
proof (rule demo_settled)
  fix x
  assume x: "demo_play (demo_calls @ demo_settling) = Some x"
    and outs: "map outcomes (hs (app_cpp x)) = [[Answered (0, ''Qm'')], [Aborted], []]"
    and idle: "queue (app_cpp x) = []" "running (app_cpp x) = []" "map token (gos (app_proc x)) = [None, None]"
      "app_silent x = [2]"
  have n: "length (hs (app_cpp x)) = 3" using arg_cong [OF outs, of length] by simp
  have o: "outcomes (hs (app_cpp x) ! i) = [[Answered (0, ''Qm'')], [Aborted], []] ! i" if "i < 3" for i
    using nth_map [of i "hs (app_cpp x)" outcomes] n that outs by simp
  have "go_owes (app_proc x) = {#}" using idle(3) by (auto simp: go_owes_def map_eq_Cons_conv map_filter_simps)
  with node_calls_settled_once [OF demo_play_run [OF x]] idle n o [of 0] o [of 1] x show ?thesis by force
qed

text \<open>Goroutines that can run: no start is under way, and their nodes have a core and an API.\<close>

definition go_ready :: "Node list \<Rightarrow> goroutine \<Rightarrow> bool" where
  "go_ready ns g \<longleftrightarrow> token g = None \<or> \<not> is_start g \<and>
     (case go_home g of None \<Rightarrow> True | Some n \<Rightarrow> node (ns ! n) \<noteq> None \<and> api (ns ! n) \<noteq> None)"

definition ops_ready :: "'w proc \<Rightarrow> bool" where
  "ops_ready s \<longleftrightarrow> (\<forall>g \<in> set (gos s). go_ready (nodes s) g)"

definition unaided :: "app_event set" where
  "unaided = range AppRun \<union> {AppAsio BeginJob, AppAsio EndJob}"

definition same_calls :: "'w app \<Rightarrow> 'w app \<Rightarrow> bool" where
  "same_calls x y \<longleftrightarrow> length (hs (app_cpp y)) = length (hs (app_cpp x)) \<and> app_silent y = app_silent x"

definition reaches ::
  "((bytes \<times> json) list \<Rightarrow> string) \<Rightarrow> ('w, 'z) ops_lib_scheme \<Rightarrow> 'w app \<Rightarrow> 'w app \<Rightarrow> bool" where
  "reaches dump lib x y \<longleftrightarrow>
     (\<exists>es. inv_system.run (app_step dump lib) x es y \<and> set es \<subseteq> unaided) \<and> same_calls x y"

lemma reaches_refl: "reaches dump lib x x"
  by (auto simp: reaches_def same_calls_def intro!: exI [of _ "[]"] app.run_nil)

lemma reaches_step:
  "app_step dump lib x e y \<Longrightarrow> e \<in> unaided \<Longrightarrow> same_calls x y \<Longrightarrow> reaches dump lib y z \<Longrightarrow> reaches dump lib x z"
  unfolding reaches_def same_calls_def by (metis app.run_cons insert_subset list.simps(15))

lemma reaches_trans: "reaches dump lib x y \<Longrightarrow> reaches dump lib y z \<Longrightarrow> reaches dump lib x z"
  unfolding reaches_def same_calls_def by (metis Un_least app.run_append set_append)

lemma owed_empty_or_goroutine:
  assumes "owed s \<noteq> {#}"
  obtains i fn arg where "i < length (gos s)" "token (gos s ! i) = Some (fn, arg)"
proof -
  have "\<exists>g \<in> set (gos s). token g \<noteq> None"
    using assms by (auto simp: owed_def List.map_filter_def filter_empty_conv)
  with that show thesis by (auto simp: in_set_conv_nth)
qed

lemma ops_ready_sub: "set (gos t) \<subseteq> set (gos s) \<Longrightarrow> nodes t = nodes s \<Longrightarrow> ops_ready s \<Longrightarrow> ops_ready t"
  by (auto simp: ops_ready_def)

lemma run_some_goroutine:
  assumes inv: "app_inv x" and rdy: "ops_ready (app_proc x)" and "owed (app_proc x) \<noteq> {#}"
  obtains i y where "app_step dump lib x (AppRun i) y" "ops_ready (app_proc y)" "same_calls x y"
    "size (owed (app_proc y)) < size (owed (app_proc x))"
proof -
  let ?s = "app_proc x"
  obtain i fn arg where i: "i < length (gos ?s)" and tk: "token (gos ?s ! i) = Some (fn, arg)"
    by (rule owed_empty_or_goroutine [OF assms(3)])
  have g: "gos ?s ! i \<in> set (gos ?s)" using i by simp
  have wf: "proc_wf (take_go i ?s)" using inv by (simp add: app_inv_def)
  then have mem: "\<forall>a \<in> dom (cmem (take_go i ?s)). a < cbrk (take_go i ?s)" by (simp add: proc_wf_def)
  have rg: "go_ready (nodes ?s) (gos ?s ! i)" using rdy g by (simp add: ops_ready_def)
  then have st: "\<not> is_start (gos ?s ! i)" using tk by (simp add: go_ready_def)
  have "node (nodes (take_go i ?s) ! n) \<noteq> None \<and> api (nodes (take_go i ?s) ! n) \<noteq> None" if "go_home (gos ?s ! i) = Some n" for n
    using rg tk that by (simp add: go_ready_def)
  from run_go_returns [OF mem tk st this, of lib] obtain s where s: "run_go lib (gos ?s ! i) (take_go i ?s) = Ret s" by blast
  let ?y = "x\<lparr>app_cpp := fold call_back (drop (length (cbs ?s)) (cbs s)) (app_cpp x), app_proc := s\<rparr>"
  have rep: "reported (fn, arg) (take_go i ?s) s" by (rule run_go_reported [OF mem tk s st])
  show thesis
  proof
    show "app_step dump lib x (AppRun i) ?y" by (rule app_step.app_run) (use i tk s in simp_all)
    have "set (gos s) \<subseteq> set (gos ?s)" "nodes s = nodes ?s"
      using rep by (auto simp: reported_def take_go_def dest: in_set_takeD in_set_dropD)
    then have "ops_ready s" by (rule ops_ready_sub [OF _ _ rdy])
    then show "ops_ready (app_proc ?y)" by simp
    have "length (hs (call_back cb c)) = length (hs c)" for cb c
      by (simp add: call_back_def Handle_call_sel check_def split: option.split prod.split)
    moreover obtain cb where "cbs s = cbs ?s @ [cb]" using rep by (auto simp: reported_def)
    ultimately show "same_calls x ?y" by (simp add: same_calls_def)
    have "owed ?s = add_mset (fn, arg) (owed s)" using run_go_wf_made [OF wf tk s] owed_take_go [OF i tk] by simp
    then show "size (owed (app_proc ?y)) < size (owed ?s)" by simp
  qed
qed

lemma run_all_goroutines:
  "app_inv x \<Longrightarrow> ops_ready (app_proc x) \<Longrightarrow> \<exists>y. reaches dump lib x y \<and> owed (app_proc y) = {#}"
proof (induction "size (owed (app_proc x))" arbitrary: x rule: less_induct)
  case less
  show ?case
  proof (cases "owed (app_proc x) = {#}")
    case True
    then show ?thesis by (blast intro: reaches_refl)
  next
    case False
    obtain i z where z: "app_step dump lib x (AppRun i) z" "ops_ready (app_proc z)" "same_calls x z"
      "size (owed (app_proc z)) < size (owed (app_proc x))"
      by (rule run_some_goroutine [OF less.prems False])
    have "app_inv z" by (rule app_inv_step [OF z(1) less.prems(1)])
    from less.hyps [OF z(4) this z(2)] obtain y where "reaches dump lib z y" "owed (app_proc y) = {#}" by blast
    with reaches_step [OF z(1) _ z(3)] show ?thesis by (auto simp: unaided_def)
  qed
qed

lemma begin_job_jobs:
  "queue c \<noteq> [] \<Longrightarrow> queue (begin_job c) = tl (queue c) \<and> running (begin_job c) = hd (queue c) # running c"
  by (cases "queue c") (auto simp: begin_job_def Let_def check_def invoke_cb_sel split: job.split)

lemma asio_step:
  assumes "app_inv x" and "cpp_step (app_cpp x) e c" and "e = BeginJob \<or> e = EndJob"
  obtains y where "app_step dump lib x (AppAsio e) y" "AppAsio e \<in> unaided" "same_calls x y" "app_cpp y = c"
    "owed (app_proc y) = owed (app_proc x)"
proof -
  let ?s = "fold tell (new_events (app_cpp x) c) (app_proc x)"
  let ?y = "x\<lparr>app_obj := after_build c (app_obj x), app_cpp := c, app_proc := ?s\<rparr>"
  have asio: "is_asio e" using assms(3) by (auto simp: is_asio_def)
  from assms(1) have "quiet (app_cpp x) c" using quiet_asio [OF assms(2) asio] by (simp add: app_inv_def)
  then have "same_calls x ?y" by (simp add: same_calls_def quiet_def)
  moreover have "app_step dump lib x (AppAsio e) ?y" by (rule app_step.app_asio [OF asio assms(2)])
  moreover have "owed ?s = owed (app_proc x)" by (rule owed_cong) (simp add: fold_tell_frame)
  ultimately show thesis using that [of ?y] assms(3) by (auto simp: unaided_def)
qed

lemma run_all_jobs:
  "app_inv x \<Longrightarrow> \<exists>y. reaches dump lib x y \<and> owed (app_proc y) = owed (app_proc x) \<and>
     queue (app_cpp y) = [] \<and> running (app_cpp y) = []"
proof (induction "2 * length (queue (app_cpp x)) + length (running (app_cpp x))" arbitrary: x rule: less_induct)
  case less
  have next_step: ?case
    if st: "cpp_step (app_cpp x) e c" "e = BeginJob \<or> e = EndJob"
      and less_jobs: "2 * length (queue c) + length (running c) < 2 * length (queue (app_cpp x)) + length (running (app_cpp x))" for e c
  proof -
    obtain z where z: "app_step dump lib x (AppAsio e) z" "AppAsio e \<in> unaided" "same_calls x z" "app_cpp z = c"
      "owed (app_proc z) = owed (app_proc x)" by (rule asio_step [OF less.prems st])
    have "app_inv z" by (rule app_inv_step [OF z(1) less.prems])
    with less.hyps [of z] less_jobs z(4) obtain y where "reaches dump lib z y" "owed (app_proc y) = owed (app_proc z)"
      "queue (app_cpp y) = []" "running (app_cpp y) = []" by blast
    with reaches_step [OF z(1-3)] z(5) show ?thesis by auto
  qed
  consider "queue (app_cpp x) = []" "running (app_cpp x) = []" | "queue (app_cpp x) \<noteq> []" | "running (app_cpp x) \<noteq> []" by blast
  then show ?case
  proof cases
    case 1
    then show ?thesis by (blast intro: reaches_refl)
  next
    case 2
    then show ?thesis using begin_job_jobs [OF 2]
      by (intro next_step [OF cpp_step.begin_step [OF 2]]) (cases "queue (app_cpp x)"; simp)+
  next
    case 3
    then obtain j js where j: "running (app_cpp x) = j # js" by (cases "running (app_cpp x)") auto
    show ?thesis by (intro next_step [OF cpp_step.end_step [OF 3]]) (simp_all add: end_job_sel [OF j] j)
  qed
qed

text \<open>
  C3: From every state the program can reach in which no start is under way and the nodes of the
  running operations have come up, the goroutines and the asio thread alone can bring every call
  but \<open>resolve\<close> to its end: its callback has been called once and its handle is deleted. This holds
  also after the node was freed and for calls that were cancelled.
\<close>

theorem node_calls_can_finish:
  assumes "inv_system.run (app_step dump lib) (app_init sys) es x" and "ops_ready (app_proc x)"
  shows "\<exists>es' y. inv_system.run (app_step dump lib) x es' y \<and>
    set es' \<subseteq> range AppRun \<union> {AppAsio BeginJob, AppAsio EndJob} \<and>
    length (hs (app_cpp y)) = length (hs (app_cpp x)) \<and>
    (\<forall>h < length (hs (app_cpp x)). h \<notin> set (app_silent x) \<longrightarrow>
       length (outcomes (hs (app_cpp y) ! h)) = 1 \<and> deleted (hs (app_cpp y) ! h))"
proof -
  have inv: "app_inv x" using app.run_from_start [OF _ assms(1)] by blast
  obtain z where z: "reaches dump lib x z" "owed (app_proc z) = {#}"
    using run_all_goroutines [OF inv assms(2)] by blast
  have "app_inv z" using z(1) inv app.run_inv by (auto simp: reaches_def)
  then obtain y where y: "reaches dump lib z y" "owed (app_proc y) = {#}" "queue (app_cpp y) = []" "running (app_cpp y) = []"
    using run_all_jobs z(2) by metis
  have xy: "reaches dump lib x y" by (rule reaches_trans [OF z(1) y(1)])
  then obtain es' where es': "inv_system.run (app_step dump lib) x es' y" "set es' \<subseteq> unaided"
    and n: "length (hs (app_cpp y)) = length (hs (app_cpp x))" "app_silent y = app_silent x"
    by (auto simp: reaches_def same_calls_def)
  have "app_inv y" using app.run_inv [OF es'(1) inv] .
  then have c: "cpp_inv (app_cpp y)" and w: "waiting (app_cpp y) = mset (app_silent x)"
    using y(2) n(2) by (simp_all add: app_inv_def go_owes_owed)
  have "\<not> awaited (hs (app_cpp y) ! h)" if "h < length (hs (app_cpp x))" "h \<notin> set (app_silent x)" for h
    using in_waiting [of h "app_cpp y"] that w n(1) by simp
  with handle_outcomes(3) [OF c] y(3,4) n(1) es' show ?thesis unfolding unaided_def by metis
qed

theorem node_calls_can_finish_witness:
  "\<exists>x es y. demo_play demo_calls = Some x \<and> inv_system.run (app_step sorted_dump demo_ops_lib) x es y \<and>
     list_all deleted (take 2 (hs (app_cpp y)))"
proof -
  have "(case demo_play demo_calls of None \<Rightarrow> False | Some x \<Rightarrow>
      ops_ready (app_proc x) \<and> app_silent x = [2] \<and> length (hs (app_cpp x)) = 3)"
    by code_simp
  then obtain x where x: "demo_play demo_calls = Some x" and r: "ops_ready (app_proc x)"
    and l: "app_silent x = [2]" "length (hs (app_cpp x)) = 3" by (auto split: option.splits)
  from node_calls_can_finish [OF demo_play_run [OF x] r] obtain es y where
    run: "inv_system.run (app_step sorted_dump demo_ops_lib) x es y" and n: "length (hs (app_cpp y)) = 3"
    and d: "\<forall>h < 3. h \<notin> {2} \<longrightarrow> deleted (hs (app_cpp y) ! h)"
    unfolding l by auto
  from d have "\<forall>h < 2. deleted (hs (app_cpp y) ! h)" by simp
  with n have "list_all deleted (take 2 (hs (app_cpp y)))" by (simp add: list_all_length)
  with x run show ?thesis by blast
qed

section \<open>Resolving\<close>

text \<open>
  C18: A call of \<open>resolve\<close> is never answered: in every reachable state its callback has not been called,
  or, after a cancellation, with the abort; and its handle is never deleted, so that the work object
  in it keeps the \<open>io_service\<close> from ever running out of work.
\<close>

theorem resolve_never_answered:
  assumes "inv_system.run (app_step dump lib) (app_init sys) es x" and "h \<in> set (app_silent x)"
  shows "h < length (hs (app_cpp x)) \<and> outcomes (hs (app_cpp x) ! h) \<in> {[], [Aborted]} \<and> \<not> deleted (hs (app_cpp x) ! h)"
proof -
  have inv: "app_inv x" using app.run_from_start [OF _ assms(1)] by blast
  then have c: "cpp_inv (app_cpp x)" and w: "waiting (app_cpp x) = go_owes (app_proc x) + mset (app_silent x)"
    and a: "answer_inv (app_cpp x) (app_proc x)"
    by (simp_all add: app_inv_def)
  have h: "h < length (hs (app_cpp x))" "awaited (hs (app_cpp x) ! h)"
    using in_waiting [of h "app_cpp x"] w assms(2) by auto
  have "Answered b \<notin> set (outcomes (hs (app_cpp x) ! h))" for b
  proof
    assume "Answered b \<in> set (outcomes (hs (app_cpp x) ! h))"
    with h(1) have "(h, b) \<in> answers (app_cpp x)" by (simp add: answers_def)
    with a have "h \<in> fst ` set (go_answers (app_proc x))" by (auto simp: answer_inv_def image_iff intro: rev_bexI)
    with a h(2) show False by (auto simp: answer_inv_def)
  qed
  then have "set (outcomes (hs (app_cpp x) ! h)) \<subseteq> {Aborted}" by (auto, metis result.exhaust)
  with handle_outcomes(1) [OF c h(1)] have "outcomes (hs (app_cpp x) ! h) \<in> {[], [Aborted]}"
    by (cases "outcomes (hs (app_cpp x) ! h)") auto
  with h handle_outcomes(2) [OF c h] show ?thesis by simp
qed

theorem resolve_never_answered_witness:
  "\<exists>x. demo_play (demo_calls @ demo_settling) = Some x \<and> 2 < length (hs (app_cpp x)) \<and>
     \<not> deleted (hs (app_cpp x) ! 2) \<and> outcomes (hs (app_cpp x) ! 2) \<in> {[], [Aborted]}"
proof (rule demo_settled)
  fix x
  assume x: "demo_play (demo_calls @ demo_settling) = Some x" and "app_silent x = [2]"
  with resolve_never_answered [OF demo_play_run [OF x], of 2] show ?thesis by auto
qed

section \<open>Publishing\<close>

lemma seconds_of_bounds: "\<bar>sint (d :: 64 word)\<bar> div 1000000000 \<le> 9223372036"
proof -
  have "- (2 ^ 63) \<le> sint d" "sint d < 2 ^ 63"
    using sint_range_size [of d] by (simp_all add: word_size)
  then show ?thesis by (auto simp: abs_if)
qed

lemma sint_word_of_small: "\<bar>k\<bar> \<le> 9223372036 \<Longrightarrow> sint (word_of_int k :: 64 word) = k"
  by (simp add: int_word_sint mod_pos_pos_trivial abs_le_iff)

lemma sint_seconds_of: "sint (seconds_of d) = sgn (sint d) * (\<bar>sint d\<bar> div 1000000000)"
proof -
  have "\<bar>sgn (sint d) * (\<bar>sint d\<bar> div 1000000000)\<bar> \<le> 9223372036"
    using seconds_of_bounds [of d] by (simp add: abs_mult)
  then show ?thesis unfolding seconds_of_def by (rule sint_word_of_small)
qed

text \<open>A duration in nanoseconds, cut towards zero to whole seconds.\<close>

definition whole_seconds :: "64 word \<Rightarrow> int" where
  "whole_seconds d = sgn (sint d) * (\<bar>sint d\<bar> div 1000000000) * 1000000000"

lemma duration_seconds: "duration_of (seconds_of d) = whole_seconds d"
proof -
  have "\<bar>sint (seconds_of d)\<bar> \<le> 9223372036"
    using seconds_of_bounds [of d] by (simp add: sint_seconds_of abs_mult)
  from duration_of_exact [OF this] show ?thesis by (simp add: sint_seconds_of whole_seconds_def)
qed

text \<open>
  C34: The lifetime of a publication, which the C++ side cuts to seconds and the Go side multiplies out
  again, never wraps around, although the product of the Go side can: it is the duration that was
  asked for, cut towards zero to whole seconds.
\<close>

theorem publish_lifetime_exact:
  "duration_of (seconds_of d) = whole_seconds d \<and> 1000000000 dvd whole_seconds d \<and>
   \<bar>duration_of (seconds_of d)\<bar> \<le> \<bar>sint d\<bar> \<and> \<bar>sint d - duration_of (seconds_of d)\<bar> < 1000000000"
  unfolding duration_seconds by (cases "sint d \<ge> 0") (auto simp: whole_seconds_def sgn_if abs_if)

section \<open>Cancelling a build\<close>

text \<open>
  C17: A build that is cancelled before the start has been answered gives the program no node, but the Go
  side goes on with it: the call carries no signal, the Go side keeps the node and its pointer to the
  state callback's object, which the abort has deleted, and every later constructor throws.
\<close>

theorem cancelled_build_blocks_all:
  assumes "app_obj x = NoNode" and "g_node (app_proc x) = None" and "queue (app_cpp x) = []"
    and "slot_unused (Some k) (app_cpp x)" and "bootstrap cfg \<noteq> []" and "bootstrap cfg' \<noteq> []"
  shows "\<exists>y n. inv_system.run (app_step dump lib) x
      [AppBuild cfg scb impl (Some k), AppAsio (CancelBy k), AppAsio BeginJob] y \<and>
    app_obj y = NoNode \<and> outcomes (hs (app_cpp y) ! length (hs (app_cpp x))) = [Aborted] \<and>
    g_node (app_proc y) = Some n \<and> state_cb_arg (nodes (app_proc y) ! n) = impl \<and>
    node_ctor dump lib cfg' scb' impl' (app_proc y) = Ret (Inl ''node aleady exists'', app_proc y)"
proof -
  let ?h = "length (hs (app_cpp x))"
  define c1 where "c1 = new_Handle None (Some k) (app_cpp x)"
  define c2 where "c2 = cancel_lambda ?h c1"
  define c3 where "c3 = begin_job c2"
  define s where "s = go_asio_ipfs_start_async (dump (config_members cfg) @ [CHR 0x00]) (repo_root cfg @ [CHR 0x00])
    scb impl (Some 0) (Some ?h) (app_proc x)"
  have sig: "cancel_signal_id (hs c1 ! ?h) = None" "?h < length (hs c1)" "outcomes (hs c1 ! ?h) = []"
    by (simp_all add: c1_def new_Handle_sel)
  have c2: "call_slot (Ext k) c1 = c2" "hs c2 ! ?h = (hs c1 ! ?h)\<lparr>job_count := job_count (hs c1 ! ?h) + 1, has_cb := False\<rparr>"
    "queue c2 = [AbortJob ?h]" "new_events c1 c2 = []"
    using assms(3) sig by (simp_all add: c2_def call_slot_def c1_def new_Handle_sel cancel_lambda_sel new_events_def
        cancel_lambda_events)
  have len: "?h < length (hs c2)" using sig by (simp add: c2_def cancel_lambda_sel)
  have c3: "outcomes (hs c3 ! ?h) = [Aborted]" "new_events c2 c3 = []"
    using c2(2,3) sig len by (simp_all add: c3_def begin_job_def invoke_cb_def cpp_ops tell_go_def new_events_def)
  let ?x1 = "x\<lparr>app_obj := Building ?h, app_cpp := c1, app_proc := s\<rparr>"
  let ?x2 = "?x1\<lparr>app_obj := Building ?h, app_cpp := c2, app_proc := s\<rparr>"
  let ?y = "?x2\<lparr>app_obj := NoNode, app_cpp := c3, app_proc := s\<rparr>"
  have "build dump cfg scb impl (Some k) (app_cpp x, app_proc x) = Inr (c1, s)"
    using assms(5) by (simp add: build_def config_to_json_def c1_def s_def)
  from app_step.app_build [OF assms(1,4) this] have s1: "app_step dump lib x (AppBuild cfg scb impl (Some k)) ?x1" .
  have "app_step dump lib ?x1 (AppAsio (CancelBy k)) ?x2"
    using app_step.app_asio [of "CancelBy k" ?x1 c2 dump lib] cpp_step.cancel_by [of c1 k] c2 sig
    by (simp add: is_asio_def after_build_def)
  moreover have "app_step dump lib ?x2 (AppAsio BeginJob) ?y"
    using app_step.app_asio [of BeginJob ?x2 c3 dump lib] cpp_step.begin_step [of c2] c2(3) c3
    by (simp add: is_asio_def after_build_def c3_def)
  ultimately have "inv_system.run (app_step dump lib) x [AppBuild cfg scb impl (Some k), AppAsio (CancelBy k), AppAsio BeginJob] ?y"
    using s1 by (blast intro: app.run.intros)
  moreover have g: "g_node s = Some (length (nodes (app_proc x)))" "state_cb_arg (nodes s ! length (nodes (app_proc x))) = impl"
    using assms(2) by (simp_all add: s_def go_asio_ipfs_start_async_def allocate_node_def case_prod_beta Let_def)
  moreover have "node_ctor dump lib cfg' scb' impl' s = Ret (Inl ''node aleady exists'', s)"
    using assms(6) g(1) by (simp add: node_ctor_def config_to_json_def start_blocking_exists error_text_defs)
  ultimately show ?thesis using c3(1) by (intro exI [of _ ?y] exI [of _ "length (nodes (app_proc x))"]) simp
qed

theorem cancelled_build_blocks_all_witness:
  "\<exists>y. inv_system.run (app_step sorted_dump demo_ops_lib) (app_init (demo_os None))
      [AppBuild demo_cfg (Some 1) (Some 2) (Some 0), AppAsio (CancelBy 0), AppAsio BeginJob] y \<and>
    outcomes (hs (app_cpp y) ! 0) = [Aborted] \<and>
    node_ctor sorted_dump demo_ops_lib demo_cfg (Some 1) (Some 3) (app_proc y) = Ret (Inl ''node aleady exists'', app_proc y)"
proof -
  let ?x = "app_init (demo_os None) :: Config option app"
  have "app_obj ?x = NoNode" "g_node (app_proc ?x) = None" "queue (app_cpp ?x) = []" "slot_unused (Some 0) (app_cpp ?x)"
    "bootstrap demo_cfg \<noteq> []" "hs (app_cpp ?x) = []"
    by (simp_all add: app_init_def init_proc_def cpp_start_def slot_unused_def demo_cfg_def)
  with cancelled_build_blocks_all [OF this(1-5) this(5), of sorted_dump demo_ops_lib "Some 1" "Some 2" "Some 1" "Some 3"]
  show ?thesis by auto
qed

section \<open>The state callback\<close>

text \<open>
  C37: Once the constructor of \<open>node\<close> has returned, a report of the monitor of its node reaches
  \<open>node_impl::stateCB\<close> with the object of that constructor, and so the program's state callback, with the
  text of the error, or the empty text when there is none, and the number of peers; the copy of the
  text is released.
\<close>

theorem state_report_reaches_program:
  assumes "g_node s = None" and "node_ctor dump lib cfg stateCB_ptr impl s = Ret (Inr obj, t)"
    and "proc_wf u" and "\<forall>e. err = Some e \<longrightarrow> CHR 0x00 \<notin> set (etext e)"
  shows "\<exists>n v cb. g_node t = Some n \<and> makeStateCB (nodes t ! n) err peercnt u = Ret v \<and> cmem v = cmem u \<and>
    cbs v = cbs u @ [cb] \<and> node_stateCB cb = Some (impl, case err of None \<Rightarrow> [] | Some e \<Rightarrow> etext e, peercnt)"
proof -
  let ?n = "length (nodes s)"
  have f: "g_node t = Some ?n" "state_cb (nodes t ! ?n) = stateCB_ptr" "state_cb_arg (nodes t ! ?n) = impl"
    by (rule node_ctor_callback [OF assms(1,2)])+
  have "\<exists>v cb. makeStateCB (nodes t ! ?n) err peercnt u = Ret v \<and> cmem v = cmem u \<and> cbs v = cbs u @ [cb] \<and>
      node_stateCB cb = Some (impl, case err of None \<Rightarrow> [] | Some e \<Rightarrow> etext e, peercnt)"
  proof (cases err)
    case None
    then show ?thesis by (simp add: makeStateCB_def Let_def f)
  next
    case (Some e)
    have "\<forall>a \<in> dom (cmem u). a < cbrk u" using assms(3) by (simp add: proc_wf_def)
    then have "cmem u (cbrk u) = None" by (metis domIff less_irrefl)
    with Some assms(4) show ?thesis
      by (auto simp: makeStateCB_def CString_def CBytes_def C_free_def call_cb_def c_str_CString Let_def fun_upd_idem f)
  qed
  with f(1) show ?thesis by blast
qed

theorem state_report_reaches_program_witness:
  "\<exists>obj t n v cb. node_ctor sorted_dump demo_node_lib demo_cfg stateCB_ptr (Some 2) demo_init = Ret (Inr obj, t) \<and>
     makeStateCB (nodes t ! n) (Some (Errorf ''api'')) 7 demo_ready = Ret v \<and>
     cbs v = [cb] \<and> node_stateCB cb = Some (Some 2, ''api'', 7)"
proof -
  have "case node_ctor sorted_dump demo_node_lib demo_cfg stateCB_ptr (Some 2) demo_init of
      Ret (Inr obj, t) \<Rightarrow> True | _ \<Rightarrow> False"
    by code_simp
  then obtain obj t where r: "node_ctor sorted_dump demo_node_lib demo_cfg stateCB_ptr (Some 2) demo_init = Ret (Inr obj, t)"
    by (auto split: outcome.splits prod.splits sum.splits)
  have "CHR 0x00 \<notin> set (etext (Errorf ''api''))" by code_simp
  moreover have "cbs demo_ready = []" "etext (Errorf ''api'') = ''api''" by code_simp+
  moreover have "g_node demo_init = None" by (simp add: demo_init_def init_proc_def)
  ultimately have "\<exists>n v cb. makeStateCB (nodes t ! n) (Some (Errorf ''api'')) 7 demo_ready = Ret v \<and>
     cbs v = [cb] \<and> node_stateCB cb = Some (Some 2, ''api'', 7)"
    using state_report_reaches_program [OF _ r demo_ready_wf, of "Some (Errorf ''api'')" 7] by auto
  with r show ?thesis by blast
qed

section \<open>The identity\<close>

text \<open>
  C36: \<open>node::id\<close> gives the identity of the node in base 58, or the empty string when the Go side has no
  node, and leaves the memory as it was; with a working key encoder it fails exactly when the node
  has no core, as after a constructor that threw before the core was made.
\<close>

theorem id_gives_identity:
  assumes "keyencode_KeyEncoderFromString lib ''b58mh'' = Inr ke" and "proc_wf s"
    and "CHR 0x00 \<notin> set (ke_FormatID lib ke (node_Identity lib core))"
  shows "(is_panic (node_id lib s) \<longleftrightarrow> (\<exists>n. g_node s = Some n \<and> node (nodes s ! n) = None)) \<and>
    (\<forall>r t. node_id lib s = Ret (r, t) \<longrightarrow> t = s\<lparr>cbrk := Suc (cbrk s)\<rparr> \<and>
      (g_node s = None \<longrightarrow> r = []) \<and>
      (\<forall>n. g_node s = Some n \<and> node (nodes s ! n) = Some core \<longrightarrow> r = ke_FormatID lib ke (node_Identity lib core)))"
proof -
  note call = node_id_allocates_or_panics [OF assms(1,2)]
  show ?thesis
  proof (cases "go_asio_ipfs_node_id lib s")
    case (Panic m)
    with call show ?thesis by (simp add: node_id_def)
  next
    case (Ret v)
    obtain i t where v: "v = (i, t)" by (cases v)
    with call Ret have f: "C_free (Some i) t = Ret (s\<lparr>cbrk := Suc (cbrk s)\<rparr>)"
      "cmem t i = Some ((case g_node s of None \<Rightarrow> []
         | Some n \<Rightarrow> ke_FormatID lib ke (node_Identity lib (the (node (nodes s ! n))))) @ [CHR 0x00])" by auto
    moreover have "c_str [CHR 0x00] = []" by (simp add: c_str_def)
    ultimately show ?thesis using Ret v call assms(3)
      by (auto simp: node_id_def go_asio_memfree_def c_str_CString)
  qed
qed

lemma demo_ops_encoder: "keyencode_KeyEncoderFromString demo_ops_lib ''b58mh'' = Inr 3"
  "ke_FormatID demo_ops_lib 3 (node_Identity demo_ops_lib 5) = ''QmNode''"
  by code_simp+

theorem id_gives_identity_witness:
  "\<exists>t. node_id demo_ops_lib demo_ready = Ret (''QmNode'', t) \<and> cmem t = cmem demo_ready"
proof -
  have "CHR 0x00 \<notin> set (ke_FormatID demo_ops_lib 3 (node_Identity demo_ops_lib 5))"
    by (simp add: demo_ops_encoder)
  note id = id_gives_identity [OF demo_ops_encoder(1) demo_ready_wf this]
  then obtain r t where "node_id demo_ops_lib demo_ready = Ret (r, t)"
    using demo_ready_facts by (cases "node_id demo_ops_lib demo_ready") auto
  with id show ?thesis using demo_ready_facts by (auto simp: demo_ops_encoder)
qed

end
