(* ===== verification/Cpp_Pipeline.thy ===== *)
theory Cpp_Pipeline
  imports Cpp_Calls
begin

text \<open>
  One call from its method to the user's callback: the reference \<open>node_answer\<close> says, per method, which
  function of go-ipfs is asked with which arguments and what the user's callback is given, and the
  two sides of the repository together are proved to compute it.
\<close>

section \<open>What a method computes\<close>

definition code_answer :: "ipfs_code \<Rightarrow> goerror option \<times> 'w os \<Rightarrow> answer \<times> 'w os" where
  "code_answer failed r =
     ((if fst r = None then 0 else word_of_int (code_num failed), []), snd r)"

definition data_answer :: "ipfs_code \<Rightarrow> (goerror + bytes) \<times> 'w os \<Rightarrow> answer \<times> 'w os" where
  "data_answer failed r =
     (case fst r of Inl e \<Rightarrow> (word_of_int (code_num failed), []) | Inr b \<Rightarrow> (0, b), snd r)"

fun node_answer ::
  "('w, 'z) ops_lib_scheme \<Rightarrow> handle \<Rightarrow> handle \<Rightarrow> node_call \<Rightarrow> 'w os \<Rightarrow> answer \<times> 'w os" where
  "node_answer lib core a (NPublish cid d) sys =
     (case path_ParseCidToPath lib cid of
        Inl e \<Rightarrow> code_answer IPFS_PUBLISH_FAILED (Some e, sys)
      | Inr p \<Rightarrow> code_answer IPFS_PUBLISH_FAILED
          (PublishWithEOL lib core False p (time_Now lib sys + whole_seconds d) sys))"
| "node_answer lib core a (NAdd buf sz p) sys =
     data_answer IPFS_ADD_FAILED (Unixfs_Add lib a False (take (unat sz) buf) (PinOpt p) sys)"
| "node_answer lib core a (NCalcCid buf sz) sys =
     data_answer IPFS_CALC_CID_FAILED (Unixfs_Add lib a False (take (unat sz) buf) (HashOnly True) sys)"
| "node_answer lib core a (NCat cid) sys =
     (case Unixfs_Get lib a False cid sys of
        (Inr (FilesFile f), sys) \<Rightarrow> data_answer IPFS_READ_FAILED (ioutil_ReadAll lib f sys)
      | (_, sys) \<Rightarrow> ((word_of_int (code_num IPFS_CAT_FAILED), []), sys))"
| "node_answer lib core a (NPin cid) sys = code_answer IPFS_PIN_FAILED (Pin_Add lib a False cid sys)"
| "node_answer lib core a (NUnpin cid) sys = code_answer IPFS_UNPIN_FAILED (Pin_Rm lib a False cid sys)"
| "node_answer lib core a NGC sys = code_answer IPFS_GC_FAILED (collect_garbage lib core False sys)"

text \<open>What a method asks of its arguments: a CID of the right length, and no more than two gigabytes.\<close>

definition cid_ok :: "string \<Rightarrow> bool" where
  "cid_ok cid \<longleftrightarrow> length cid = CID_SIZE \<and> CHR 0x00 \<notin> set cid"

fun call_ok :: "node_call \<Rightarrow> bool" where
  "call_ok (NPublish cid d) = cid_ok cid"
| "call_ok (NAdd buf sz p) = (unat sz < 2 ^ 31)"
| "call_ok (NCalcCid buf sz) = (unat sz < 2 ^ 31)"
| "call_ok (NCat cid) = cid_ok cid"
| "call_ok (NPin cid) = cid_ok cid"
| "call_ok (NUnpin cid) = cid_ok cid"
| "call_ok NGC = True"

section \<open>The goroutine of a call\<close>

lemma small_size: "unat (sz :: u64) < 2 ^ 31 \<Longrightarrow> fits_int sz \<and> unat sz mod 2 ^ 32 = unat sz"
proof -
  assume a: "unat sz < 2 ^ 31"
  then have "int (unat sz) < 2 ^ 31" by (simp only: of_nat_less_numeral_power_cancel_iff)
  then have "uint sz < 2 ^ 31" by simp
  with a show ?thesis by (simp add: fits_int_def)
qed

lemma call_ok_accepted: "call_ok nc \<Longrightarrow> \<exists>p. operation_of nc = Some p \<and> op_fits p"
  by (cases nc) (auto simp: cid_ok_def small_size)

lemma goroutine_answers:
  assumes "call_ok nc" and "operation_of nc = Some p" and mem: "\<forall>i \<in> dom (cmem s). i < cbrk s"
    and "node (nodes s ! n) = Some core" "api (nodes s ! n) = Some a" and "\<not> ctx_done (ctxs s) c"
  shows "\<exists>t cb. run_go lib (op_job p n c (callback_function p) (Some h)) s = Ret t \<and> cbs t = cbs s @ [cb] \<and> cb_fits cb \<and>
    cb_answer cb = Some (h, fst (node_answer lib core a nc (os s))) \<and> os t = snd (node_answer lib core a nc (os s)) \<and>
    g_node t = g_node s \<and> nodes t = nodes s \<and> ctxs t = ctxs s"
proof -
  note buf = execute_data_buf_eq [of "s\<lparr>os := y\<rparr>" fn b "Some h" for y fn b, simplified, OF mem]
  show ?thesis
    using assms(1,2,4-6)
    by (cases nc)
       (auto simp: cid_ok_def c_str_CString small_size with_handle_def publish_def report_code_def executeVoidCB_def
         report_added_def run_cat_def execute_data_nil_def buf code_answer_def data_answer_def duration_seconds
         split: option.splits sum.splits prod.splits files_Node.splits)
qed

section \<open>The steps of a call\<close>

lemma allocate_eq:
  assumes "g_node s = Some n" and "n < length (nodes s)"
  defines "s1 \<equiv> snd (go_asio_ipfs_cancellation_allocate s)"
  shows "nodes s1 ! n = (nodes s ! n)\<lparr>next_cancel_signal_id := next_cancel_signal_id (nodes s ! n) + 1\<rparr>"
    "g_node s1 = Some n" "ctxs s1 = ctxs s" "os s1 = os s" "gos s1 = gos s" "cbs s1 = cbs s"
    "length (nodes s1) = length (nodes s)"
  using assms by (simp_all add: go_asio_ipfs_cancellation_allocate_def Let_def nodes_upd_node)

lemma tell_os: "os (fold tell es s) = os s"
proof (induction es arbitrary: s)
  case (Cons e es)
  have "os (tell e s) = os s"
    by (cases e) (simp_all add: go_asio_ipfs_cancel_def go_asio_ipfs_cancellation_free_def Let_def split: option.split)
  with Cons show ?case by simp
qed simp

text \<open>The Go side of a call: it registers the signal, and its goroutine finds the node as it was.\<close>

lemma go_side_answers:
  assumes "proc_wf s" and g: "g_node s = Some n"
    and "node (nodes s ! n) = Some core" "api (nodes s ! n) = Some a" "\<not> ctx_done (ctxs s) (ctx (nodes s ! n))"
    and nc: "call_ok nc" "operation_of nc = Some p" "op_fits p"
    and sig: "go_asio_ipfs_cancellation_allocate s = (sig, s1)"
  shows "\<exists>s2 t cb. invoke p sig (callback_function p) (Some h) s1 = Ret s2 \<and> length (gos s) < length (gos s2) \<and>
    token (gos s2 ! length (gos s)) \<noteq> None \<and>
    run_go lib (gos s2 ! length (gos s)) (take_go (length (gos s)) s2) = Ret t \<and>
    cbs t = cbs s2 @ [cb] \<and> cb_fits cb \<and> cb_answer cb = Some (h, fst (node_answer lib core a nc (os s))) \<and>
    os t = snd (node_answer lib core a nc (os s))"
proof -
  have n: "n < length (nodes s)" using assms(1) g by (simp add: proc_wf_def)
  note al = allocate_eq [OF g n, unfolded sig snd_conv]
  let ?fn = "callback_function p"
  let ?g = "op_job p n (length (ctxs s1)) (callback_function p) (Some h)" and ?w = "snd (withCancel n sig s1)"
  have wf1: "proc_wf s1" using proc_wf_signal_ops(1) [OF assms(1)] sig by simp
  have i: "invoke p sig ?fn (Some h) s1 = Ret (go ?g ?w)" by (rule op.with_node [OF al(2) nc(3)])
  have gs: "gos (go ?g ?w) = gos s @ [?g]" using al(5) by (simp add: go_def)
  have tg: "take_go (length (gos s)) (go ?g ?w) = ?w" using al(5) by (simp add: take_go_def go_def)
  have "proc_wf ?w" using proc_wf_withCancel [OF wf1, of n sig] n al(7) by simp
  then have mem: "\<forall>i \<in> dom (cmem ?w). i < cbrk ?w" by (simp add: proc_wf_def)
  have w: "node (nodes ?w ! n) = Some core" "api (nodes ?w ! n) = Some a" "\<not> ctx_done (ctxs ?w) (length (ctxs s1))"
    using assms(3-5) al n by (simp_all add: nodes_withCancel)
  from goroutine_answers [OF nc(1,2) mem w, of lib h] al(4,6) obtain t cb where
    "run_go lib ?g ?w = Ret t" "cbs t = cbs ?w @ [cb]" "cb_fits cb" "cb_answer cb = Some (h, fst (node_answer lib core a nc (os s)))"
    "os t = snd (node_answer lib core a nc (os s))" by auto
  then show ?thesis using i gs tg op.job_token [of p n "length (ctxs s1)" ?fn "Some h"]
    by (intro exI [of _ "go ?g ?w"] exI [of _ t] exI [of _ cb]) simp
qed

text \<open>The C++ side of a call that is answered at once.\<close>

lemma cpp_side_settles:
  fixes c :: cpp and ans :: answer and sig :: "u64 option" and ext :: "nat option"
  assumes "queue c = []"
  defines "h \<equiv> length (hs c)" and "c2 \<equiv> Handle_call ans (length (hs c)) (new_Handle sig ext c)"
  shows "queue c2 \<noteq> []" "running (begin_job c2) \<noteq> []"
    "outcomes (hs (end_job (begin_job c2)) ! h) = [Answered ans]" "deleted (hs (end_job (begin_job c2)) ! h)"
proof -
  have q: "queue c2 = [CallJob h ans]" "has_cb (hs c2 ! h)" "outcomes (hs c2 ! h) = []" "job_count (hs c2 ! h) = 1"
    "h < length (hs c2)"
    using assms(1) by (simp_all add: c2_def h_def Handle_call_sel new_Handle_sel)
  then show "queue c2 \<noteq> []" by simp
  have r: "running (begin_job c2) = CallJob h ans # running c2" using begin_job_jobs [of c2] q(1) by simp
  then show "running (begin_job c2) \<noteq> []" by simp
  have b: "hs (begin_job c2) = (hs c2)[h := (hs c2 ! h)\<lparr>outcomes := [Answered ans]\<rparr>]"
    using q by (simp add: begin_job_def invoke_cb_sel check_def Let_def)
  then show "outcomes (hs (end_job (begin_job c2)) ! h) = [Answered ans]" "deleted (hs (end_job (begin_job c2)) ! h)"
    using q(4,5) by (simp_all add: end_job_sel [OF r])
qed

text \<open>
  C2: A call on a node that is up, with arguments in range, gives the user's callback exactly what the
  function of go-ipfs behind it gives for the same arguments: the bytes or the code of the failure
  on every branch, on the state of the world the call found; after it the handle is gone.
\<close>

theorem node_call_end_to_end:
  assumes "inv_system.run (app_step dump lib) (app_init sys) es x" and "app_obj x = Ready"
    and "g_node (app_proc x) = Some n" and "node (nodes (app_proc x) ! n) = Some core"
    and "api (nodes (app_proc x) ! n) = Some a" and "\<not> ctx_done (ctxs (app_proc x)) (ctx (nodes (app_proc x) ! n))"
    and "queue (app_cpp x) = []" and "slot_unused ext (app_cpp x)" and "call_ok nc"
  shows "\<exists>y. inv_system.run (app_step dump lib) x
      [AppCall nc ext, AppRun (length (gos (app_proc x))), AppAsio BeginJob, AppAsio EndJob] y \<and>
    outcomes (hs (app_cpp y) ! length (hs (app_cpp x))) = [Answered (fst (node_answer lib core a nc (os (app_proc x))))] \<and>
    deleted (hs (app_cpp y) ! length (hs (app_cpp x))) \<and>
    os (app_proc y) = snd (node_answer lib core a nc (os (app_proc x)))"
proof -
  let ?c = "app_cpp x" and ?s = "app_proc x" and ?h = "length (hs (app_cpp x))"
  let ?ans = "fst (node_answer lib core a nc (os (app_proc x)))"
  have "app_inv x" using app.run_from_start [OF _ assms(1)] by blast
  then have wf: "proc_wf ?s" by (simp add: app_inv_def)
  from call_ok_accepted [OF assms(9)] obtain p where p: "operation_of nc = Some p" "op_fits p" by blast
  obtain sig s1 where sig: "go_asio_ipfs_cancellation_allocate ?s = (sig, s1)"
    by (cases "go_asio_ipfs_cancellation_allocate ?s")
  from go_side_answers [OF wf assms(3-6,9) p sig, of ?h lib] obtain s2 t cb where
    go1: "invoke p sig (callback_function p) (Some ?h) s1 = Ret s2" and
    go2: "length (gos ?s) < length (gos s2)" "token (gos s2 ! length (gos ?s)) \<noteq> None"
      "run_go lib (gos s2 ! length (gos ?s)) (take_go (length (gos ?s)) s2) = Ret t" and
    t: "cbs t = cbs s2 @ [cb]" "cb_answer cb = Some (?h, ?ans)" "os t = snd (node_answer lib core a nc (os ?s))" "cb_fits cb"
    by blast
  define c1 where "c1 = new_Handle (Some sig) ext ?c"
  define c2 where "c2 = Handle_call ?ans ?h c1"
  note c = cpp_side_settles [OF assms(7), of ?ans "Some sig" ext, folded c1_def, folded c2_def]
  define t3 where "t3 = fold tell (new_events c2 (begin_job c2)) t"
  define t4 where "t4 = fold tell (new_events (begin_job c2) (end_job (begin_job c2))) t3"
  let ?x1 = "x\<lparr>app_cpp := c1, app_proc := s2\<rparr>" and ?x2 = "x\<lparr>app_cpp := c2, app_proc := t\<rparr>"
  let ?x3 = "x\<lparr>app_cpp := begin_job c2, app_proc := t3\<rparr>" and ?y = "x\<lparr>app_cpp := end_job (begin_job c2), app_proc := t4\<rparr>"
  have "app_step dump lib x (AppCall nc ext) ?x1"
    by (rule app_step.app_call [OF assms(2,8) p(1)]) (simp add: call_ipfs_def sig go1 c1_def)
  moreover have "app_step dump lib ?x1 (AppRun (length (gos ?s))) ?x2"
    using app_step.app_run [of "length (gos ?s)" ?x1 lib t dump] go2 t by (simp add: call_back_def check_def c2_def)
  moreover have "app_step dump lib ?x2 (AppAsio BeginJob) ?x3"
    using app_step.app_asio [of BeginJob ?x2 "begin_job c2" dump lib] cpp_step.begin_step [OF c(1)] assms(2)
    by (cases x) (simp add: is_asio_def after_build_def t3_def)
  moreover have "app_step dump lib ?x3 (AppAsio EndJob) ?y"
    using app_step.app_asio [of EndJob ?x3 "end_job (begin_job c2)" dump lib] cpp_step.end_step [OF c(2)] assms(2)
    by (cases x) (simp add: is_asio_def after_build_def t4_def)
  ultimately have "inv_system.run (app_step dump lib) x
      [AppCall nc ext, AppRun (length (gos ?s)), AppAsio BeginJob, AppAsio EndJob] ?y"
    by (blast intro: app.run.intros)
  with c(3,4) t(3) show ?thesis by (intro exI [of _ ?y]) (simp add: t3_def t4_def tell_os)
qed

theorem node_call_end_to_end_witness:
  "\<exists>x y. inv_system.run (app_step sorted_dump demo_ops_lib) x
      [AppCall (NAdd ''xyz'' 2 True) None, AppRun 2, AppAsio BeginJob, AppAsio EndJob] y \<and>
     outcomes (hs (app_cpp y) ! 3) = [Answered (0, ''Qm'')] \<and> files (os (app_proc y)) ''/blob'' = Some (File ''xy'')"
proof (rule demo_settled)
  fix x
  assume x: "demo_play (demo_calls @ demo_settling) = Some x"
    and outs: "map outcomes (hs (app_cpp x)) = [[Answered (0, ''Qm'')], [Aborted], []]"
    and g: "map token (gos (app_proc x)) = [None, None]"
    and rest: "app_obj x = Ready" "g_node (app_proc x) = Some 0" "node (nodes (app_proc x) ! 0) = Some 5"
      "api (nodes (app_proc x) ! 0) = Some 9" "\<not> ctx_done (ctxs (app_proc x)) (ctx (nodes (app_proc x) ! 0))"
      "queue (app_cpp x) = []"
  have n: "length (hs (app_cpp x)) = 3" "length (gos (app_proc x)) = 2"
    using arg_cong [OF outs, of length] arg_cong [OF g, of length] by simp_all
  have "slot_unused None (app_cpp x)" "call_ok (NAdd ''xyz'' 2 True)" by (simp_all add: slot_unused_def)
  moreover have "node_answer demo_ops_lib 5 9 (NAdd ''xyz'' 2 True) sys =
      ((0, ''Qm''), sys\<lparr>files := (files sys)(''/blob'' \<mapsto> File ''xy'')\<rparr>)" for sys
    by (simp add: data_answer_def demo_ops_lib_def node_lib.defs ops_lib.defs)
  ultimately show ?thesis
    using node_call_end_to_end [OF demo_play_run [OF x] rest, of None "NAdd ''xyz'' 2 True"] n
    by (rule_tac exI [of _ x]) auto
qed

end
