(* ===== verification/Spec2Isabelle.thy ===== *)
theory Spec2Isabelle
  imports Logging Cpp_Pipeline
begin

text \<open>
  \<^bold>\<open>A verification library for asio-ipfs.\<close>

  asio-ipfs lets a C++ program run an IPFS node in its own process. The Go package
  \<open>src/src/ipfs_bindings\<close> wraps go-ipfs and exports C functions (\<open>go_asio_ipfs_...\<close>); the C++ class
  \<open>asio_ipfs::node\<close> (\<open>src/src/node.cpp\<close>) calls them and turns their callbacks into asio handlers. This
  development models the Go package and the C++ class, each by itself and both as one system.

  \<^bold>\<open>The parts of the program and the theories that model them.\<close>

  \<^item> Configuration (\<open>ipfs_config.go\<close>): theory \<open>Asio_Config\<close>. The settings of the C++ side (\<open>AsioConfig\<close>),
    the part of go-ipfs's configuration they are written to (\<open>Config\<close>), \<open>replacePorts\<close>, \<open>updateConfig\<close>,
    \<open>makeBuildCfg\<close>. Paths and strings, as the Go library has them: \<open>Go_Filepath\<close> (\<open>Clean\<close>, \<open>Join\<close>),
    \<open>Go_Strings\<close>.
  \<^item> The way of the settings into the node: theory \<open>Settings_Json\<close>. The C++ structure \<open>config\<close>
    (\<open>ipfs_config.h\<close>), \<open>config_to_json\<close> (\<open>node.cpp\<close>) and the decoding of its text into \<open>AsioConfig\<close> that
    \<open>start_node\<close> begins with; \<open>Go_Json\<close> is the reader of JSON texts of the Go library (tokens, nesting,
    unquoting), with a printer and the proof that what it prints is read back.
  \<^item> Repository (\<open>ipfs_repo.go\<close>, and \<open>configUnlocked\<close>, \<open>updateRepo\<close> of \<open>ipfs_config.go\<close>): theory \<open>Repo\<close>.
    The calls of the package \<open>os\<close> act on a map from paths to entries, with injected faults.
  \<^item> Process state: theory \<open>Process_State\<close>. The struct \<open>Node\<close> and the package variables of \<open>ipfs_node.go\<close>,
    the contexts (\<open>Go_Context\<close>), the goroutines that were started, C memory, and the callbacks made.
    A pointer to a \<open>Node\<close> is an index into the list of nodes, so a goroutine keeps the node it captured.
  \<^item> Cancellation (\<open>ipfs_cancel.go\<close>): theory \<open>Cancel\<close>.
  \<^item> Services (\<open>ipfs_api.go\<close>, \<open>maybeRunGC\<close> of \<open>ipfs_gc.go\<close>): theory \<open>Services\<close>.
  \<^item> Node life cycle (\<open>ipfs_node.go\<close>): \<open>Node_Lifecycle\<close> (plugins, \<open>start_node\<close> as stages with one error
    code each, the exported start, free and identity calls) and \<open>Node_Props\<close>; the monitor goroutine
    is a state machine of its own, in \<open>Monitor\<close>.
  \<^item> Operations (\<open>ipfs_bindings.go\<close>, \<open>go_asio_ipfs_gc\<close>): \<open>Bindings\<close> and \<open>Ops_Props\<close>. An operation is a
    call that starts a goroutine, and the run of that goroutine; \<open>Api_System\<close> puts all exported calls
    and goroutine runs into one transition system.
  \<^item> Logging (\<open>ipfs_log.go\<close>, \<open>executeLogCB\<close>, \<open>node::redirect_logs\<close>, the printing functions of \<open>ipfs_node.go\<close>): \<open>Logging\<close>.
  \<^item> Calls on the C++ side (\<open>Handle\<close> and the loop of \<open>node::free\<close> in \<open>node.cpp\<close>): \<open>Cpp_Handles\<close> has the
    operations, the steps of the asio thread, the Go threads and the program, and the invariant;
    \<open>Cpp_Requests\<close> the contract of a request and the proof that the handles refine it; \<open>Cpp_Node\<close> puts the
    constructor and \<open>free\<close> of the class \<open>node\<close> on top of the handles and the Go side.
  \<^item> The class \<open>node\<close> over both languages (\<open>node.cpp\<close>): \<open>Cpp_System\<close> has \<open>build\<close>, \<open>id\<close>, \<open>call_ipfs\<close>, what each
    method asks of the Go side and what its callback hands to a handle, and one transition system of
    the program, the goroutines and the asio thread with its invariant. A state is the node object
    (none, being built, ready), the handles, the process of the Go side, and the handles of \<open>resolve\<close>.
    \<open>Cpp_Calls\<close> and \<open>Cpp_Pipeline\<close> hold the properties; \<open>node_answer\<close> is the reference for a call.
  \<^item> Error codes (\<open>src/include/ipfs_error_codes.h\<close>, \<open>ipfs_error.h\<close>, \<open>error.cpp\<close>): \<open>Error_Codes\<close>.
  \<^item> \<open>Go_Prelude\<close> holds errors, calls that may panic, and the locale of transition systems with an
    invariant.

  \<^bold>\<open>How code becomes definitions.\<close> A function keeps its name. A call that may panic has the type
  \<open>outcome\<close>; an error result is a sum or an option; state is passed explicitly. go-ipfs, libp2p,
  prometheus and the C++ JSON printer are parameters: the records \<open>cfg_lib\<close>, \<open>repo_lib\<close>, \<open>svc_lib\<close>,
  \<open>node_lib\<close> and \<open>ops_lib\<close> extend one another and hold the functions the code calls, acting on an
  opaque part (\<open>world\<close>) of the system state. What is assumed of them is a hypothesis of the theorem
  that needs it (\<open>getconfig_ok\<close>, \<open>unixfs_ok\<close>, \<open>repo_memory_ok\<close>, \<open>clone_ok\<close>, \<open>init_ok\<close>) and is shown to hold of a small instance.
  C integers are words of their width; Go's \<open>int\<close> settings, which are only copied, are integers, and
  decoding refuses what does not fit 64 bits.

  \<^bold>\<open>Interfaces.\<close> The locales \<open>path_package\<close>, \<open>ctx_package\<close>, \<open>signal_registry\<close>, \<open>async_call\<close>,
  \<open>inv_system\<close> and \<open>refined_system\<close> state what clients rely on of paths, contexts, the signal table, an
  asynchronous operation, a step relation and its abstract specification; each is interpreted on the model's definitions.

  \<^bold>\<open>What is shown.\<close>

  \<^item> Configuration: which texts \<open>replacePorts\<close> produces and where it stops; every setting is written
    to its field and nothing else changes; writing twice is writing once; when \<open>makeBuildCfg\<close> panics.
  \<^item> JSON: the settings of the C++ side arrive unchanged.
  \<^item> Repository: exact effects of the writability check and of storing the swarm key; which
    configuration a repository holds after it was created and after it was opened; with a lock file
    nothing is written.
  \<^item> Cancellation: signal numbers do not collide, cancelling hits one call, a released call is left.
  \<^item> Services: when starting the API panics, what the servers serve, that the gateway is read-only.
  \<^item> Monitor: the exact shape of the sequence of state callbacks in every run; an error shuts the node
    down; which goroutines stay blocked after it.
  \<^item> Life cycle: what a successful start establishes, that a failed one blocks the next, that freeing
    ends all calls, when asking for the identity panics.
  \<^item> Operations: in every interleaving of the exported functions each call but \<open>resolve\<close> is answered once
    or still owed an answer, and no string is lost; each can be cancelled, reports
    when there is no node; data that is added comes back; the widths of sizes and lifetimes.
  \<^item> C++ calls: what a caller observes of the handles, as a sequence of labels, is a run of an abstract
    contract: the user's callback is called at most once, with \<open>operation_aborted\<close> exactly after a
    cancellation; no handle is used after its deletion; \<open>node::free\<close> ends and cancels what is pending,
    unless a \<open>Cancel\<close> object is reused too early.
  \<^item> The whole program: in every interleaving of program, goroutines and asio thread each call is
    settled once and with what the Go side reported; goroutines and asio thread alone can bring every
    call but \<open>resolve\<close> to its end, when no start is under way and the nodes in use are up; a call gives exactly what the function of go-ipfs behind it gives; a lifetime
    does not overflow; \<open>resolve\<close> is never answered; a build that is cancelled leaves a node behind.
  \<^item> Across components (below and in \<open>Cpp_Node\<close>): the settings of the C++ program reach the node through
    the JSON text and the repository; \<open>free\<close> ends both sides; a constructor that failed blocks the next.

  \<^bold>\<open>Loops and bounds.\<close> Every loop of the code is a structural recursion or a fold. The \<open>for\<close>
  loop of the monitor may run forever and is a step relation; its theorems are about all finite runs.
  The loop of \<open>node::free\<close> is a partial function with an option result, and is proved to return.
  Signal numbers are 64-bit words and the theorems on them bound the number of events by \<open>2 ^ 64\<close>.

  \<^bold>\<open>What is not modelled.\<close> The completion tokens of \<open>ipfs_node.h\<close>, which only turn a token into a
  handler, and moves of the object; programs with two node objects at a time, since the Go side has
  one node; the text of most log messages, since logging has no effect on the rest of the state;
  data races between goroutines, which are run one at a time from start to end, except for the
  monitor and the service goroutines, which are run step by step; the build scripts. A run gives a
  \<open>Cancel\<close> object to a new call only when no unsettled call uses it (\<open>slot_unused\<close>), which the code does
  not check; what happens otherwise is a property of its own. The sum of the peer gauges, a
  \<open>float64\<close> cut to 32 bits in \<open>totalPeers\<close>, is a natural number modulo \<open>2 ^ 32\<close>.
\<close>

section \<open>From the settings to the node\<close>

lemma unlocked_config_updated:
  assumes "repo_memory_ok lib" and "start_prepare lib acfg n root s = Ret (Inr (repo, cfg), t)"
    and "n < length (nodes s)" and "configUnlocked root (os t)"
  shows "\<exists>conf. updateConfig lib conf acfg = (cfg, None)"
proof -
  note post = start_prepare_post [OF assms(2,3)]
  from post(6) obtain sys where o: "openRepo lib root acfg sys = (Inr repo, os t)" by blast
  from o have "\<exists>conf conf1. updateConfig lib conf1 acfg = (conf, None) \<and> repo_Config lib repo (os t) = Inr conf"
  proof (cases rule: openRepo_success)
    case (locked s1)
    with assms(4) show ?thesis by simp
  next
    case (unlocked s1 conf0 conf1 conf s2)
    have "repo_Config lib repo (os t) = Inr conf"
      using assms(1) unlocked(6,7) by (rule stored_config_is_read)
    with unlocked(5) show ?thesis by blast
  qed
  with post(5) show ?thesis by auto
qed

lemma unlocked_config_carries_settings:
  assumes "repo_memory_ok lib" and "start_prepare lib acfg n root s = Ret (Inr (repo, cfg), t)"
    and "n < length (nodes s)" and "configUnlocked root (os t)"
  shows "Routing_Type cfg = RoutingType acfg"
    and "Addresses_API cfg = (if APIAddress acfg = [] then [] else [APIAddress acfg])"
    and "Addresses_Gateway cfg = (if GatewayAddress acfg = [] then [] else [GatewayAddress acfg])"
  using unlocked_config_updated [OF assms] by (blast dest: updateConfig_stored)+

lemma demo_memory_ok: "repo_memory_ok demo_node_lib"
  by (auto simp: repo_memory_ok_def demo_node_lib_def demo_svc_lib_def demo_repo_lib_def
      cfg_lib.defs repo_lib.defs svc_lib.defs node_lib.defs)

text \<open>
  C14: The settings of the C++ program reach the node: when the constructor of \<open>node\<close> succeeds, the Go side
  was started on exactly the settings of the configuration object, and unless the repository is
  locked, the configuration the node runs with is the stored one updated by those settings, with
  the addresses and the routing type of the object.
\<close>

theorem cpp_settings_reach_node:
  assumes "repo_memory_ok lib" and "dump_prints_json dump" and "config_utf8 cfg"
    and "CHR 0x00 \<notin> set (dump (config_members cfg)) \<union> set (repo_root cfg)"
    and "g_node s = None" and "node_ctor dump lib cfg scb impl s = Ret (Inr obj, t)"
  shows "\<exists>repo conf s1. start_prepare lib (settings_of cfg) (length (nodes s)) (repo_root cfg)
      (snd (allocate_node scb impl s)) = Ret (Inr (repo, conf), s1) \<and>
    (configUnlocked (repo_root cfg) (os s1) \<longrightarrow>
       (\<exists>conf0. updateConfig lib conf0 (settings_of cfg) = (conf, None)) \<and>
       Routing_Type conf = routing_type cfg \<and>
       Addresses_API conf = (if api_address cfg = [] then [] else [api_address cfg]) \<and>
       Addresses_Gateway conf = (if gateway_address cfg = [] then [] else [gateway_address cfg]))"
proof -
  let ?n = "length (nodes s)" and ?s = "snd (allocate_node scb impl s)"
  have c: "c_str (dump (config_members cfg) @ [CHR 0x00]) = dump (config_members cfg)"
    "c_str (repo_root cfg @ [CHR 0x00]) = repo_root cfg"
    using assms(4) by (simp_all add: c_str_CString)
  have "start_node lib (dump (config_members cfg)) ?n (repo_root cfg) ?s = Ret (IPFS_SUCCESS, t)"
    using assms(5,6)
    by (auto simp: node_ctor_def config_to_json_def start_blocking_new c split: sum.splits if_splits)
  then obtain acfg repo conf s1 where "json_Unmarshal (dump (config_members cfg)) = Some acfg"
    and p: "start_prepare lib acfg ?n (repo_root cfg) ?s = Ret (Inr (repo, conf), s1)"
    by (rule start_node_success) blast
  with dump_decodes [OF assms(2,3)] have a: "acfg = settings_of cfg" by simp
  have n: "?n < length (nodes ?s)" using allocate_node_new(3) [OF assms(5)] by simp
  have "Routing_Type conf = routing_type cfg \<and>
      Addresses_API conf = (if api_address cfg = [] then [] else [api_address cfg]) \<and>
      Addresses_Gateway conf = (if gateway_address cfg = [] then [] else [gateway_address cfg])"
    if "configUnlocked (repo_root cfg) (os s1)"
    using unlocked_config_carries_settings [OF assms(1) p n that] by (simp add: a settings_of_def)
  with unlocked_config_updated [OF assms(1) p n] p show ?thesis unfolding a by blast
qed

text \<open>The preparation of the example's node, as the start of a process reaches it.\<close>

definition demo_allocated :: "Config option proc" where
  "demo_allocated = snd (allocate_node (Some 1) (Some 2) demo_init)"

definition demo_prepare :: "AsioConfig \<Rightarrow> ((ipfs_code + handle \<times> Config) \<times> Config option proc) outcome" where
  "demo_prepare acfg = start_prepare demo_node_lib acfg 0 ''/home/r'' demo_allocated"

lemma demo_allocated_node: "0 < length (nodes demo_allocated)"
  by (simp add: demo_allocated_def allocate_node_def demo_init_def init_proc_def case_prod_beta Let_def)

section \<open>Properties across components\<close>

text \<open>
  C29: an unknown routing type in the settings is found too late. When the repository is not locked,
  the preparation stores the settings, and then the start panics instead of returning an error code;
  the configuration that is left in the repository carries the bad routing type.
\<close>

theorem unknown_routing_type_stored_then_panics:
  assumes "repo_memory_ok lib" and "json_Unmarshal j = Some acfg"
    and "start_prepare lib acfg n root s = Ret (Inr (repo, cfg), t)" and "n < length (nodes s)"
    and "configUnlocked root (os t)"
    and "RoutingType acfg \<notin> {'''', ''dht'', ''dhtclient'', ''dhtserver'', ''none''}"
  shows "is_panic (start_node lib j n root s) \<and>
    repo_Config lib repo (os t) = Inr cfg \<and> Routing_Type cfg = RoutingType acfg"
proof -
  have r: "Routing_Type cfg = RoutingType acfg"
    by (rule unlocked_config_carries_settings [OF assms(1,3,4,5)])
  with assms(6) have "is_panic (makeBuildCfg repo cfg)" by (simp add: makeBuildCfg_def Let_def)
  then have "is_panic (st_core lib n repo cfg t)" by (cases "makeBuildCfg repo cfg") (simp_all add: st_core_def)
  then obtain m where "st_core lib n repo cfg t = Panic m" by (auto simp: is_panic_iff)
  with assms(2,3) have "start_stages lib j n root s = Panic m"
    by (simp add: start_stages_def st_parse_def then_stage_def)
  then show ?thesis using start_prepare_post(5) [OF assms(3,4)] r by (simp add: start_node_def)
qed

theorem unknown_routing_type_stored_then_panics_witness:
  "\<exists>repo cfg t. demo_prepare (demo_settings\<lparr>RoutingType := ''gossip''\<rparr>) = Ret (Inr (repo, cfg), t) \<and>
     is_panic (start_node demo_node_lib (demo_json ''gossip'') 0 ''/home/r'' demo_allocated) \<and>
     Routing_Type cfg = ''gossip''"
proof -
  let ?a = "demo_settings\<lparr>RoutingType := ''gossip''\<rparr>"
  have "(case demo_prepare ?a of Ret (Inr (repo, cfg), t) \<Rightarrow> configUnlocked ''/home/r'' (os t) | _ \<Rightarrow> False)"
    by code_simp
  then obtain repo cfg t where r: "demo_prepare ?a = Ret (Inr (repo, cfg), t)"
    and u: "configUnlocked ''/home/r'' (os t)"
    by (auto split: outcome.splits prod.splits sum.splits)
  have "json_Unmarshal (demo_json ''gossip'') = Some ?a"
    by (rule demo_json_decoded)
  from unknown_routing_type_stored_then_panics [OF demo_memory_ok this r [unfolded demo_prepare_def]
      demo_allocated_node u] r
  show ?thesis by auto
qed

text \<open>
  C30: the panic of the API server for lack of an address (a locked repository whose configuration
  names none) cannot happen when the repository is not locked: the address in the settings has then
  been stored and is the one the server reads.
\<close>

theorem unlocked_api_does_not_panic:
  assumes "repo_memory_ok lib" and "getconfig_ok lib"
    and "start_prepare lib acfg n root s = Ret (Inr (repo, cfg), t)" and "n < length (nodes s)"
    and "configUnlocked root (os t)"
    and "st_core lib n repo cfg t = Ret (Inr h, t1)" and "st_plugins lib n h t1 = Ret (Inr (), t2)"
    and "st_gc n acfg t2 = Ret (Inr gcc, t3)"
  shows "\<not> is_panic (maybeServeHTTPApi lib n acfg t3) \<and>
    (APIAddress acfg \<noteq> [] \<longrightarrow> Addresses_API cfg = [APIAddress acfg])"
proof -
  have n: "n < length (nodes t)"
    using assms(4) start_prepare_frame [of n s lib acfg root] assms(3)
    by (simp add: stage_ok_def start_frame_def)
  note core = st_core_post [OF assms(6) n]
  have n1: "n < length (nodes t1)" using core n by simp
  note pl = st_plugins_post [OF assms(7) n1] and gc = st_gc_post [OF assms(8)]
  have api: "Addresses_API cfg = (if APIAddress acfg = [] then [] else [APIAddress acfg])"
    by (rule unlocked_config_carries_settings [OF assms(1,3,4,5)])
  obtain c where c: "cctx (nodes t3 ! n) = Some c" "LoadConfig c = Some (ConfigRoot c, cfg)"
    using start_prepare_post(1) [OF assms(3,4)] core(2) pl(1) gc(2) by auto
  have "node (nodes t3 ! n) = Some h" using core(1) pl(2) gc(2) by simp
  from maybeServeHTTPApi_panics_iff [OF assms(2) c this, of acfg] api show ?thesis by auto
qed

theorem unlocked_api_does_not_panic_witness:
  "\<exists>repo cfg t h t1 t2 gcc t3. demo_prepare demo_settings = Ret (Inr (repo, cfg), t) \<and>
     st_core demo_node_lib 0 repo cfg t = Ret (Inr h, t1) \<and>
     st_plugins demo_node_lib 0 h t1 = Ret (Inr (), t2) \<and>
     st_gc 0 demo_settings t2 = Ret (Inr gcc, t3) \<and>
     \<not> is_panic (maybeServeHTTPApi demo_node_lib 0 demo_settings t3)"
proof -
  have "ret_code (start_node demo_node_lib (demo_json ''dht'') 0 ''/home/r'' demo_allocated) = Some IPFS_SUCCESS"
    by code_simp
  note start = ret_code_state [OF this]
  have json: "json_Unmarshal (demo_json ''dht'') = Some demo_settings"
    by (rule demo_json_decoded)
  from start obtain repo cfg h t t1 t2 where
    r: "demo_prepare demo_settings = Ret (Inr (repo, cfg), t)"
      "st_core demo_node_lib 0 repo cfg t = Ret (Inr h, t1)"
      "st_plugins demo_node_lib 0 h t1 = Ret (Inr (), t2)"
    by (rule start_node_success) (auto simp: json demo_prepare_def)
  obtain gcc t3 where gc: "st_gc 0 demo_settings t2 = Ret (Inr gcc, t3)"
    by (cases "RunGC demo_settings") (simp_all add: st_gc_def maybeRunGC_def make_chan_def Let_def)
  have "(case demo_prepare demo_settings of Ret (Inr (repo, cfg), t) \<Rightarrow> configUnlocked ''/home/r'' (os t)
      | _ \<Rightarrow> False)"
    by code_simp
  then have u: "configUnlocked ''/home/r'' (os t)" by (simp add: r(1))
  have "getconfig_ok demo_node_lib"
    by (auto simp: getconfig_ok_def demo_node_lib_def demo_svc_lib_def svc_lib.defs node_lib.defs
        repo_lib.defs)
  from unlocked_api_does_not_panic [OF demo_memory_ok this r(1) [unfolded demo_prepare_def]
      demo_allocated_node u r(2,3) gc] r gc
  show ?thesis by blast
qed

text \<open>The example of the C++ side: the constructor on an empty process.\<close>

theorem cpp_settings_reach_node_witness:
  "\<exists>obj t repo conf s1. node_ctor sorted_dump demo_node_lib demo_cfg (Some 1) (Some 2) demo_init = Ret (Inr obj, t) \<and>
     start_prepare demo_node_lib (settings_of demo_cfg) 0 ''/home/r'' demo_allocated = Ret (Inr (repo, conf), s1) \<and>
     Routing_Type conf = ''dht''"
proof -
  have "case node_ctor sorted_dump demo_node_lib demo_cfg (Some 1) (Some 2) demo_init of
      Ret (Inr obj, t) \<Rightarrow> True | _ \<Rightarrow> False"
    by code_simp
  then obtain obj t where r: "node_ctor sorted_dump demo_node_lib demo_cfg (Some 1) (Some 2) demo_init = Ret (Inr obj, t)"
    by (auto split: outcome.splits prod.splits sum.splits)
  have nul: "CHR 0x00 \<notin> set (sorted_dump (config_members demo_cfg)) \<union> set (repo_root demo_cfg)" by code_simp
  have utf: "config_utf8 demo_cfg"
    by (simp add: config_utf8_def demo_cfg_def config_defaults_def utf8_valid_ascii char_code_def)
  have "g_node demo_init = None" "nodes demo_init = []" "repo_root demo_cfg = ''/home/r''" "routing_type demo_cfg = ''dht''"
    by (simp_all add: demo_init_def init_proc_def demo_cfg_def config_defaults_def)
  with cpp_settings_reach_node [OF demo_memory_ok sorted_dump_prints_json utf nul this(1) r]
  obtain repo conf s1 where p: "start_prepare demo_node_lib (settings_of demo_cfg) 0 ''/home/r'' demo_allocated = Ret (Inr (repo, conf), s1)"
    and u: "configUnlocked ''/home/r'' (os s1) \<longrightarrow> Routing_Type conf = ''dht''"
    by (auto simp: demo_allocated_def)
  have "case start_prepare demo_node_lib (settings_of demo_cfg) 0 ''/home/r'' demo_allocated of
      Ret (Inr (repo, cfg), t) \<Rightarrow> configUnlocked ''/home/r'' (os t) | _ \<Rightarrow> False"
    by code_simp
  with p u r show ?thesis by auto
qed

end
